(* ===== verification/Prelude.thy ===== *)
theory Prelude
  imports Main "HOL-Library.Char_ord" "HOL-Library.List_Lexorder" "HOL-Library.Word"
    "HOL-Library.Sublist" "HOL-Library.Multiset"
begin

text \<open>
  Shared ground of the development: results (a failing operation is \<open>Inl\<close> of its error),
  effectful operations over a state that keeps its changes when a later step fails, and the
  operations of Rust's \<^verbatim>\<open>str\<close> that the program uses. A Rust string is its UTF-8 byte
  sequence, so a HOL \<^typ>\<open>string\<close> models it byte by byte and \<^const>\<open>length\<close> is Rust's
  \<^verbatim>\<open>len()\<close>; the order on strings of the library (lexicographic in the bytes) is Rust's
  \<^verbatim>\<open>Ord\<close> for \<^verbatim>\<open>String\<close>.
\<close>

named_theorems res_simps \<open>equations of results and effects\<close>
named_theorems str_simps \<open>equations of string operations\<close>
named_theorems db_simps \<open>equations of the database operations\<close>
named_theorems inv_intros \<open>preservation of invariants\<close>

subsection \<open>Results\<close>

fun and_then :: "'e + 'a \<Rightarrow> ('a \<Rightarrow> 'e + 'b) \<Rightarrow> 'e + 'b" where
  "and_then (Inl e) f = Inl e"
| "and_then (Inr x) f = f x"

fun map_err :: "('e \<Rightarrow> 'f) \<Rightarrow> 'e + 'a \<Rightarrow> 'f + 'a" where
  "map_err g (Inl e) = Inl (g e)"
| "map_err g (Inr x) = Inr x"

fun ok_or :: "'e \<Rightarrow> 'a option \<Rightarrow> 'e + 'a" where
  "ok_or e None = Inl e"
| "ok_or e (Some x) = Inr x"

definition ensure :: "bool \<Rightarrow> 'e \<Rightarrow> 'e + unit" where
  "ensure b e = (if b then Inr () else Inl e)"

fun is_ok :: "'e + 'a \<Rightarrow> bool" where
  "is_ok (Inl e) = False"
| "is_ok (Inr x) = True"

fun res_opt :: "'e + 'a \<Rightarrow> 'a option" where
  "res_opt (Inl e) = None"
| "res_opt (Inr x) = Some x"

text \<open>Collecting an iterator of results stops at the first error.\<close>

fun collect_res :: "('a \<Rightarrow> 'e + 'b) \<Rightarrow> 'a list \<Rightarrow> 'e + 'b list" where
  "collect_res f [] = Inr []"
| "collect_res f (x # xs) = and_then (f x) (\<lambda>y. and_then (collect_res f xs) (\<lambda>ys. Inr (y # ys)))"

text \<open>\<^verbatim>\<open>Option::map(f).transpose()\<close>.\<close>

fun transpose_res :: "('a \<Rightarrow> 'e + 'b) \<Rightarrow> 'a option \<Rightarrow> 'e + 'b option" where
  "transpose_res f None = Inr None"
| "transpose_res f (Some x) = and_then (f x) (\<lambda>y. Inr (Some y))"

lemma and_then_Inr [simp]: "and_then m f = Inr y \<longleftrightarrow> (\<exists>x. m = Inr x \<and> f x = Inr y)"
  by (cases m) auto

lemma and_then_Inl: "and_then m f = Inl e \<longleftrightarrow> m = Inl e \<or> (\<exists>x. m = Inr x \<and> f x = Inl e)"
  by (cases m) auto

lemma map_err_Inr [simp]: "map_err g m = Inr x \<longleftrightarrow> m = Inr x"
  by (cases m) auto

lemma ok_or_Inr [simp]: "ok_or e m = Inr x \<longleftrightarrow> m = Some x"
  by (cases m) auto

lemma ensure_Inr [simp]: "ensure b e = Inr u \<longleftrightarrow> b"
  by (simp add: ensure_def)

lemma ensure_Inl [simp]: "ensure b e = Inl e' \<longleftrightarrow> \<not> b \<and> e' = e"
  by (auto simp: ensure_def)

lemma ensure_True [simp]: "ensure True e = Inr ()"
  by (simp add: ensure_def)

lemma ensure_False [simp]: "ensure False e = Inl e"
  by (simp add: ensure_def)

lemma is_ok_iff: "is_ok r \<longleftrightarrow> (\<exists>x. r = Inr x)"
  by (cases r) auto

lemma res_opt_Some [simp]: "res_opt r = Some x \<longleftrightarrow> r = Inr x"
  by (cases r) auto

lemma transpose_res_Inr [simp]:
  "transpose_res f v = Inr None \<longleftrightarrow> v = None"
  "transpose_res f v = Inr (Some y) \<longleftrightarrow> (\<exists>x. v = Some x \<and> f x = Inr y)"
  by (cases v; auto)+

lemma collect_res_Inr:
  "collect_res f xs = Inr ys \<longleftrightarrow> list_all2 (\<lambda>x y. f x = Inr y) xs ys"
  by (induction xs arbitrary: ys) (auto simp: list_all2_Cons1)

lemma collect_res_map: "(\<And>x. x \<in> set xs \<Longrightarrow> f x = Inr (g x)) \<Longrightarrow> collect_res f xs = Inr (map g xs)"
  by (induction xs) auto

lemma collect_res_mem: "collect_res f xs = Inr ys \<Longrightarrow> x \<in> set xs \<Longrightarrow> \<exists>y\<in>set ys. f x = Inr y"
  by (induction xs arbitrary: ys) auto

lemma collect_res_from: "collect_res f xs = Inr ys \<Longrightarrow> y \<in> set ys \<Longrightarrow> \<exists>x\<in>set xs. f x = Inr y"
  by (induction xs arbitrary: ys) auto

lemma collect_res_length: "collect_res f xs = Inr ys \<Longrightarrow> length ys = length xs"
  by (auto simp: collect_res_Inr dest: list_all2_lengthD)

subsection \<open>Effects\<close>

text \<open>
  An operation with effects maps a state to its result and the state after it. When a step
  fails, the effects of the steps before it stay: the program has no rollback outside a
  database transaction.
\<close>

type_synonym ('s, 'e, 'a) io = "'s \<Rightarrow> ('e + 'a) \<times> 's"

definition return_io :: "'a \<Rightarrow> ('s, 'e, 'a) io" where
  "return_io x = (\<lambda>s. (Inr x, s))"

definition fail_io :: "'e \<Rightarrow> ('s, 'e, 'a) io" where
  "fail_io e = (\<lambda>s. (Inl e, s))"

definition bind_io :: "('s, 'e, 'a) io \<Rightarrow> ('a \<Rightarrow> ('s, 'e, 'b) io) \<Rightarrow> ('s, 'e, 'b) io" where
  "bind_io m f = (\<lambda>s. case m s of (Inl e, s') \<Rightarrow> (Inl e, s') | (Inr x, s') \<Rightarrow> f x s')"

definition query_io :: "('s \<Rightarrow> 'e + 'a) \<Rightarrow> ('s, 'e, 'a) io" where
  "query_io q = (\<lambda>s. (q s, s))"

definition pure_io :: "'e + 'a \<Rightarrow> ('s, 'e, 'a) io" where
  "pure_io r = (\<lambda>s. (r, s))"

text \<open>A transaction: on failure the state is the one before it.\<close>

definition tx_io :: "('s \<Rightarrow> 'e + ('a \<times> 's)) \<Rightarrow> ('s, 'e, 'a) io" where
  "tx_io t = (\<lambda>s. case t s of Inl e \<Rightarrow> (Inl e, s) | Inr (x, s') \<Rightarrow> (Inr x, s'))"

fun for_io :: "('a \<Rightarrow> ('s, 'e, unit) io) \<Rightarrow> 'a list \<Rightarrow> ('s, 'e, unit) io" where
  "for_io f [] = return_io ()"
| "for_io f (x # xs) = bind_io (f x) (\<lambda>_. for_io f xs)"

fun map_io :: "('a \<Rightarrow> ('s, 'e, 'b) io) \<Rightarrow> 'a list \<Rightarrow> ('s, 'e, 'b list) io" where
  "map_io f [] = return_io []"
| "map_io f (x # xs) = bind_io (f x) (\<lambda>y. bind_io (map_io f xs) (\<lambda>ys. return_io (y # ys)))"

definition keeps :: "('s \<Rightarrow> bool) \<Rightarrow> ('s, 'e, 'a) io \<Rightarrow> bool" where
  "keeps P m \<longleftrightarrow> (\<forall>s. P s \<longrightarrow> P (snd (m s)))"

lemma keeps_return [inv_intros]: "keeps P (return_io x)"
  by (simp add: keeps_def return_io_def)

lemma keeps_fail [inv_intros]: "keeps P (fail_io e)"
  by (simp add: keeps_def fail_io_def)

lemma keeps_query [inv_intros]: "keeps P (query_io q)"
  by (simp add: keeps_def query_io_def)

lemma keeps_pure [inv_intros]: "keeps P (pure_io r)"
  by (simp add: keeps_def pure_io_def)

lemma keeps_bind [inv_intros]: "keeps P m \<Longrightarrow> (\<And>x. keeps P (f x)) \<Longrightarrow> keeps P (bind_io m f)"
  by (force simp: keeps_def bind_io_def split: prod.splits sum.splits)

lemma keeps_tx: "(\<And>s x s'. P s \<Longrightarrow> t s = Inr (x, s') \<Longrightarrow> P s') \<Longrightarrow> keeps P (tx_io t)"
  by (auto simp: keeps_def tx_io_def split: sum.splits)

lemma keeps_for [inv_intros]: "(\<And>x. x \<in> set xs \<Longrightarrow> keeps P (f x)) \<Longrightarrow> keeps P (for_io f xs)"
  by (induction xs) (auto intro: inv_intros)

lemma keeps_map [inv_intros]: "(\<And>x. x \<in> set xs \<Longrightarrow> keeps P (f x)) \<Longrightarrow> keeps P (map_io f xs)"
  by (induction xs) (auto intro: inv_intros)

lemma keepsD: "keeps P m \<Longrightarrow> P s \<Longrightarrow> P (snd (m s))"
  by (simp add: keeps_def)

lemma bind_io_Inr:
  "bind_io m f s = (Inr y, s') \<longleftrightarrow> (\<exists>x t. m s = (Inr x, t) \<and> f x t = (Inr y, s'))"
  by (auto simp: bind_io_def split: prod.splits sum.splits)

lemma io_Inr [simp]:
  "return_io x s = (Inr y, s') \<longleftrightarrow> y = x \<and> s' = s"
  "fail_io e s \<noteq> (Inr y, s')"
  "query_io q s = (Inr y, s') \<longleftrightarrow> q s = Inr y \<and> s' = s"
  "pure_io r s = (Inr y, s') \<longleftrightarrow> r = Inr y \<and> s' = s"
  "tx_io t s = (Inr y, s') \<longleftrightarrow> t s = Inr (y, s')"
  by (auto simp: return_io_def fail_io_def query_io_def pure_io_def tx_io_def split: sum.splits)

lemmas io_defs = return_io_def fail_io_def bind_io_def query_io_def pure_io_def tx_io_def

end
