(* ===== verification/Strings.thy ===== *)
theory Strings
  imports Prelude
begin

text \<open>
  The operations of Rust's \<^verbatim>\<open>str\<close> and \<^verbatim>\<open>char\<close> that the program uses, on UTF-8 byte
  strings: prefixes and suffixes, splitting, trimming (Unicode white space), lines, decoding
  into code points and reading and printing unsigned numbers.
\<close>

abbreviation newline :: char where "newline \<equiv> CHR 0x0A"
abbreviation carriage :: char where "carriage \<equiv> CHR 0x0D"

abbreviation byte_of :: "char \<Rightarrow> nat" where "byte_of \<equiv> of_char"

subsection \<open>Prefixes, suffixes, splitting\<close>

fun strip_prefix :: "'a list \<Rightarrow> 'a list \<Rightarrow> 'a list option" where
  "strip_prefix [] s = Some s"
| "strip_prefix (p # ps) [] = None"
| "strip_prefix (p # ps) (c # cs) = (if p = c then strip_prefix ps cs else None)"

definition strip_suffix :: "'a list \<Rightarrow> 'a list \<Rightarrow> 'a list option" where
  "strip_suffix p s = map_option rev (strip_prefix (rev p) (rev s))"

definition starts_with :: "'a list \<Rightarrow> 'a list \<Rightarrow> bool" where
  "starts_with p s = (strip_prefix p s \<noteq> None)"

fun contains_str :: "'a list \<Rightarrow> 'a list \<Rightarrow> bool" where
  "contains_str p [] = (p = [])"
| "contains_str p (c # cs) = (starts_with p (c # cs) \<or> contains_str p cs)"

text \<open>\<^verbatim>\<open>split_once(c)\<close>: the text before and after the first \<open>c\<close>.\<close>

fun split_once :: "'a \<Rightarrow> 'a list \<Rightarrow> ('a list \<times> 'a list) option" where
  "split_once d [] = None"
| "split_once d (c # cs) =
     (if c = d then Some ([], cs) else map_option (\<lambda>(a, b). (c # a, b)) (split_once d cs))"

text \<open>\<^verbatim>\<open>rsplit(c).next()\<close>: the text after the last \<open>c\<close>, all of it when there is none.\<close>

definition after_last :: "'a \<Rightarrow> 'a list \<Rightarrow> 'a list" where
  "after_last d s = rev (takeWhile (\<lambda>c. c \<noteq> d) (rev s))"

text \<open>\<^verbatim>\<open>trim_start_matches(c)\<close> and \<^verbatim>\<open>trim_end_matches(c)\<close>.\<close>

definition trim_start_char :: "'a \<Rightarrow> 'a list \<Rightarrow> 'a list" where
  "trim_start_char d s = dropWhile (\<lambda>c. c = d) s"

definition trim_end_char :: "'a \<Rightarrow> 'a list \<Rightarrow> 'a list" where
  "trim_end_char d s = rev (dropWhile (\<lambda>c. c = d) (rev s))"

lemma strip_prefix_Some [simp]: "strip_prefix p s = Some r \<longleftrightarrow> s = p @ r"
  by (induction p s rule: strip_prefix.induct) auto

lemma strip_prefix_None: "strip_prefix p s = None \<longleftrightarrow> \<not> prefix p s"
  by (induction p s rule: strip_prefix.induct) auto

lemma strip_prefix_append [simp]: "strip_prefix p (p @ r) = Some r"
  by simp

lemma strip_suffix_Some [simp]: "strip_suffix p s = Some r \<longleftrightarrow> s = r @ p"
  by (auto simp: strip_suffix_def rev_swap)

lemma strip_suffix_append [simp]: "strip_suffix p (r @ p) = Some r"
  by simp

text \<open>A test on the rest of a matched text, as an existential statement.\<close>

lemma strip_prefix_case:
  "(case strip_prefix p s of None \<Rightarrow> False | Some r \<Rightarrow> P r) \<longleftrightarrow> (\<exists>r. s = p @ r \<and> P r)"
proof (cases "strip_prefix p s")
  case None
  then have "\<not> prefix p s" by (simp add: strip_prefix_None)
  then show ?thesis by (auto simp: None prefix_def)
qed auto

lemma strip_suffix_case:
  "(case strip_suffix p s of None \<Rightarrow> False | Some r \<Rightarrow> P r) \<longleftrightarrow> (\<exists>r. s = r @ p \<and> P r)"
proof (cases "strip_suffix p s")
  case None
  then have "s \<noteq> r @ p" for r by auto
  with None show ?thesis by auto
qed auto

lemma starts_with_iff: "starts_with p s \<longleftrightarrow> prefix p s"
  by (auto simp: starts_with_def strip_prefix_None)

lemma contains_str_iff: "contains_str p s \<longleftrightarrow> sublist p s"
proof (induction s)
  case (Cons c cs)
  then show ?case by (simp add: starts_with_iff sublist_Cons_right)
qed simp

lemma split_once_Some:
  "split_once d s = Some (a, b) \<longleftrightarrow> s = a @ d # b \<and> d \<notin> set a"
proof (induction s arbitrary: a)
  case (Cons c cs)
  show ?case
    by (cases a) (auto simp: Cons.IH split_paired_Ex)
qed simp

lemma split_once_None: "split_once d s = None \<longleftrightarrow> d \<notin> set s"
  by (induction s) auto

lemma split_once_append [simp]: "d \<notin> set a \<Longrightarrow> split_once d (a @ d # b) = Some (a, b)"
  by (simp add: split_once_Some)

lemma split_once_case:
  "(case split_once d s of None \<Rightarrow> False | Some (a, b) \<Rightarrow> P a b) \<longleftrightarrow>
   (\<exists>a b. s = a @ d # b \<and> d \<notin> set a \<and> P a b)"
proof (cases "split_once d s")
  case None
  then have "d \<notin> set s" by (simp add: split_once_None)
  then show ?thesis by (auto simp: None)
next
  case (Some ab)
  obtain a b where ab: "ab = (a, b)" by (cases ab) auto
  with Some have ex: "s = a @ d # b" "d \<notin> set a" by (simp_all add: split_once_Some)
  have u: "a' = a \<and> b' = b" if "s = a' @ d # b'" "d \<notin> set a'" for a' b'
    using split_once_append[OF that(2), of b'] that(1) Some ab by simp
  show ?thesis
    unfolding Some ab option.case prod.case using ex u by blast
qed

lemma after_last_append [simp]: "d \<notin> set b \<Longrightarrow> after_last d (a @ d # b) = b"
  by (simp add: after_last_def takeWhile_append)

lemma after_last_none:
  assumes "d \<notin> set b"
  shows "after_last d b = b"
proof -
  have "takeWhile (\<lambda>c. c \<noteq> d) (rev b) = rev b"
    using assms by (auto simp: takeWhile_eq_all_conv)
  then show ?thesis by (simp only: after_last_def rev_rev_ident)
qed

lemma after_last_notin: "d \<notin> set (after_last d s)"
  by (auto simp: after_last_def dest: set_takeWhileD)

lemma after_last_cases:
  "(d \<notin> set s \<and> after_last d s = s) \<or> (\<exists>a. s = a @ d # after_last d s)"
proof (cases "d \<in> set s")
  case True
  then obtain a b where s: "s = a @ d # b" "d \<notin> set b"
    by (meson split_list_last)
  then show ?thesis by auto
qed (simp add: after_last_none)

lemma trim_end_char_last: "trim_end_char d s = [] \<or> last (trim_end_char d s) \<noteq> d"
proof (cases "dropWhile (\<lambda>c. c = d) (rev s)")
  case (Cons x xs)
  then have "x \<noteq> d" using hd_dropWhile[of "\<lambda>c. c = d" "rev s"] by auto
  with Cons show ?thesis by (simp add: trim_end_char_def)
qed (simp add: trim_end_char_def)

lemma trim_end_char_prefix: "\<exists>n. s = trim_end_char d s @ replicate n d"
proof -
  have "rev s = takeWhile (\<lambda>c. c = d) (rev s) @ dropWhile (\<lambda>c. c = d) (rev s)" by simp
  then have "s = trim_end_char d s @ rev (takeWhile (\<lambda>c. c = d) (rev s))"
    unfolding trim_end_char_def by (metis rev_append rev_rev_ident)
  moreover have "takeWhile (\<lambda>c. c = d) (rev s)
      = replicate (length (takeWhile (\<lambda>c. c = d) (rev s))) d"
    by (auto intro!: replicate_length_same[symmetric] dest: set_takeWhileD)
  ultimately show ?thesis by (metis rev_replicate)
qed

lemma trim_end_char_id: "s = [] \<or> last s \<noteq> d \<Longrightarrow> trim_end_char d s = s"
  by (cases s rule: rev_cases) (auto simp: trim_end_char_def)

subsection \<open>White space and trimming\<close>

text \<open>
  The length of the white-space character (Unicode \<^verbatim>\<open>White_Space\<close>) a byte string starts
  with, 0 if it starts with none: U+0009 to U+000D and U+0020 in one byte, U+0085 and U+00A0
  in two, U+1680, U+2000 to U+200A, U+2028, U+2029, U+202F, U+205F and U+3000 in three.
\<close>

definition ws3 :: "nat \<Rightarrow> nat \<Rightarrow> nat \<Rightarrow> bool" where
  "ws3 a b c \<longleftrightarrow>
     a = 0xE1 \<and> b = 0x9A \<and> c = 0x80
     \<or> a = 0xE2 \<and> b = 0x80 \<and> (0x80 \<le> c \<and> c \<le> 0x8A \<or> c = 0xA8 \<or> c = 0xA9 \<or> c = 0xAF)
     \<or> a = 0xE2 \<and> b = 0x81 \<and> c = 0x9F
     \<or> a = 0xE3 \<and> b = 0x80 \<and> c = 0x80"

definition ws2 :: "nat \<Rightarrow> nat \<Rightarrow> bool" where
  "ws2 a b \<longleftrightarrow> a = 0xC2 \<and> (b = 0x85 \<or> b = 0xA0)"

definition ws1 :: "nat \<Rightarrow> bool" where
  "ws1 a \<longleftrightarrow> 9 \<le> a \<and> a \<le> 13 \<or> a = 32"

definition ws_at :: "string \<Rightarrow> nat" where
  "ws_at s = (case s of [] \<Rightarrow> 0 | a # s1 \<Rightarrow>
     if ws1 (byte_of a) then 1 else (case s1 of [] \<Rightarrow> 0 | b # s2 \<Rightarrow>
     if ws2 (byte_of a) (byte_of b) then 2 else (case s2 of [] \<Rightarrow> 0 | c # _ \<Rightarrow>
     if ws3 (byte_of a) (byte_of b) (byte_of c) then 3 else 0)))"

text \<open>The same read from the end: the argument is the reversed string.\<close>

definition ws_before :: "string \<Rightarrow> nat" where
  "ws_before r = (case r of [] \<Rightarrow> 0 | c # r1 \<Rightarrow>
     if ws1 (byte_of c) then 1 else (case r1 of [] \<Rightarrow> 0 | b # r2 \<Rightarrow>
     if ws2 (byte_of b) (byte_of c) then 2 else (case r2 of [] \<Rightarrow> 0 | a # _ \<Rightarrow>
     if ws3 (byte_of a) (byte_of b) (byte_of c) then 3 else 0)))"

lemma ws_at_Nil [simp]: "ws_at [] = 0"
  by (simp add: ws_at_def)

lemma ws_before_Nil [simp]: "ws_before [] = 0"
  by (simp add: ws_before_def)

function trim_start :: "string \<Rightarrow> string" where
  "trim_start s = (if ws_at s = 0 then s else trim_start (drop (ws_at s) s))"
  by pat_completeness auto
termination
  by (relation "measure length") (auto simp: ws_at_def split: list.splits)

function trim_end_rev :: "string \<Rightarrow> string" where
  "trim_end_rev r = (if ws_before r = 0 then r else trim_end_rev (drop (ws_before r) r))"
  by pat_completeness auto
termination
  by (relation "measure length") (auto simp: ws_before_def split: list.splits)

declare trim_start.simps [simp del] trim_end_rev.simps [simp del]

definition trim :: "string \<Rightarrow> string" where
  "trim s = rev (trim_end_rev (rev (trim_start s)))"

lemma trim_Nil [simp]: "trim [] = []"
  by (simp add: trim_def trim_start.simps trim_end_rev.simps)

text \<open>\<^verbatim>\<open>split_whitespace\<close>: the maximal runs without white space.\<close>

function split_ws :: "string \<Rightarrow> string \<Rightarrow> string list" where
  "split_ws acc s =
     (if s = [] then (if acc = [] then [] else [rev acc])
      else if ws_at s = 0 then split_ws (hd s # acc) (tl s)
      else (if acc = [] then [] else [rev acc]) @ split_ws [] (drop (ws_at s) s))"
  by pat_completeness auto
termination
  by (relation "measure (\<lambda>(acc, s). length s)") (auto simp: ws_at_def split: list.splits)

declare split_ws.simps [simp del]

definition split_whitespace :: "string \<Rightarrow> string list" where
  "split_whitespace s = split_ws [] s"

text \<open>
  A plain byte is an ASCII byte that is no white space: no white-space character of any
  length starts or ends with it.
\<close>

definition plain :: "char \<Rightarrow> bool" where
  "plain c \<longleftrightarrow> 32 < byte_of c \<and> byte_of c < 128"

lemma plain_ws_at: "plain c \<Longrightarrow> ws_at (c # s) = 0"
  by (auto simp: plain_def ws_at_def ws1_def ws2_def ws3_def split: list.splits)

lemma plain_ws_before: "plain c \<Longrightarrow> ws_before (c # s) = 0"
  by (auto simp: plain_def ws_before_def ws1_def ws2_def ws3_def split: list.splits)

lemma trim_plain:
  assumes "s = [] \<or> plain (hd s) \<and> plain (last s)"
  shows "trim s = s"
proof (cases "s = []")
  case False
  with assms have h: "plain (hd s)" "plain (last s)" by auto
  have "ws_at s = 0" using False h plain_ws_at[of "hd s" "tl s"] by simp
  then have t: "trim_start s = s" by (subst trim_start.simps) simp
  have "ws_before (rev s) = 0"
    using False h plain_ws_before[of "last s" "rev (butlast s)"]
    by (metis append_butlast_last_id rev.simps(2) rev_rev_ident rev_append append_Cons append_Nil)
  with t show ?thesis by (simp add: trim_def trim_end_rev.simps)
qed simp

lemma split_ws_plain:
  "list_all plain w \<Longrightarrow> split_ws acc (w @ s) = split_ws (rev w @ acc) s"
proof (induction w arbitrary: acc)
  case (Cons c w)
  then show ?case by (subst split_ws.simps) (simp add: plain_ws_at)
qed simp

lemma split_ws_space:
  "split_ws acc (CHR '' '' # s) = (if acc = [] then [] else [rev acc]) @ split_ws [] s"
proof -
  have "ws_at (CHR '' '' # s) = 1" by (simp add: ws_at_def ws1_def)
  then show ?thesis by (subst split_ws.simps) simp
qed

lemma split_ws_end: "split_ws acc [] = (if acc = [] then [] else [rev acc])"
  by (subst split_ws.simps) simp

text \<open>Words that are each preceded by one space are the words of the split.\<close>

lemma split_whitespace_words:
  assumes "\<And>w. w \<in> set ws \<Longrightarrow> w \<noteq> [] \<and> list_all plain w"
  shows "split_ws acc (concat (map (\<lambda>w. '' '' @ w) ws)) =
    (if acc = [] then [] else [rev acc]) @ ws"
  using assms
proof (induction ws arbitrary: acc)
  case (Cons w ws)
  then have "split_ws [] (w @ concat (map (\<lambda>w. '' '' @ w) ws)) = w # ws"
    by (simp add: split_ws_plain)
  then show ?case by (simp add: split_ws_space)
qed (simp add: split_ws_end)

subsection \<open>Lines\<close>

definition strip_cr :: "string \<Rightarrow> string" where
  "strip_cr l = (if l \<noteq> [] \<and> last l = carriage then butlast l else l)"

text \<open>\<^verbatim>\<open>str::lines\<close>: a line ends at a newline, of which a preceding carriage return is part.\<close>

fun lines_from :: "string \<Rightarrow> string \<Rightarrow> string list" where
  "lines_from acc [] = (if acc = [] then [] else [rev acc])"
| "lines_from acc (c # cs) =
     (if c = newline then strip_cr (rev acc) # lines_from [] cs else lines_from (c # acc) cs)"

definition str_lines :: "string \<Rightarrow> string list" where
  "str_lines s = lines_from [] s"

definition line_text :: "string \<Rightarrow> bool" where
  "line_text l \<longleftrightarrow> newline \<notin> set l \<and> (l = [] \<or> last l \<noteq> carriage)"

lemma lines_from_line:
  "newline \<notin> set l \<Longrightarrow> lines_from acc (l @ newline # s) = strip_cr (rev acc @ l) # lines_from [] s"
  by (induction l arbitrary: acc) auto

lemma str_lines_line:
  "line_text l \<Longrightarrow> str_lines (l @ newline # s) = l # str_lines s"
  by (auto simp: str_lines_def lines_from_line line_text_def strip_cr_def)

lemma str_lines_Nil [simp]: "str_lines [] = []"
  by (simp add: str_lines_def)

lemma str_lines_unlines:
  "(\<And>l. l \<in> set ls \<Longrightarrow> line_text l) \<Longrightarrow> str_lines (concat (map (\<lambda>l. l @ [newline]) ls)) = ls"
  by (induction ls) (auto simp: str_lines_line)

subsection \<open>Code points\<close>

text \<open>\<^verbatim>\<open>str::chars\<close>: the code points of a UTF-8 string.\<close>

function utf8_chars :: "string \<Rightarrow> nat list" where
  "utf8_chars [] = []"
| "utf8_chars (a # s) =
     (let x = byte_of a; b = (\<lambda>i. if i < length s then byte_of (s ! i) mod 64 else 0) in
      if x < 0x80 then x # utf8_chars s
      else if x < 0xE0 then ((x mod 32) * 64 + b 0) # utf8_chars (drop 1 s)
      else if x < 0xF0 then ((x mod 16) * 4096 + b 0 * 64 + b 1) # utf8_chars (drop 2 s)
      else ((x mod 8) * 262144 + b 0 * 4096 + b 1 * 64 + b 2) # utf8_chars (drop 3 s))"
  by pat_completeness auto
termination
  by (relation "measure length") auto

declare utf8_chars.simps(2) [simp del]

definition ascii :: "string \<Rightarrow> bool" where
  "ascii s \<longleftrightarrow> list_all (\<lambda>c. byte_of c < 128) s"

lemma utf8_chars_ascii: "ascii s \<Longrightarrow> utf8_chars s = map byte_of s"
  by (induction s) (auto simp: ascii_def utf8_chars.simps(2) Let_def)

subsection \<open>Numbers\<close>

fun show_nat :: "nat \<Rightarrow> string" where
  "show_nat n = (if n < 10 then [char_of (48 + n)] else show_nat (n div 10) @ [char_of (48 + n mod 10)])"

declare show_nat.simps [simp del]

definition is_digit :: "char \<Rightarrow> bool" where
  "is_digit c \<longleftrightarrow> 48 \<le> byte_of c \<and> byte_of c \<le> 57"

definition digits_value :: "string \<Rightarrow> nat" where
  "digits_value s = foldl (\<lambda>n c. n * 10 + (byte_of c - 48)) 0 s"

text \<open>\<^verbatim>\<open>parse::<uN>()\<close>: an optional \<^verbatim>\<open>+\<close>, at least one digit, no overflow of \<open>bound\<close>.\<close>

definition parse_unsigned :: "nat \<Rightarrow> string \<Rightarrow> nat option" where
  "parse_unsigned bound s =
     (let d = (case s of c # cs \<Rightarrow> if c = CHR ''+'' then cs else s | [] \<Rightarrow> []) in
      if d \<noteq> [] \<and> list_all is_digit d \<and> digits_value d < bound then Some (digits_value d) else None)"

abbreviation parse_u64 :: "string \<Rightarrow> nat option" where
  "parse_u64 \<equiv> parse_unsigned (2 ^ 64)"

abbreviation parse_u32 :: "string \<Rightarrow> nat option" where
  "parse_u32 \<equiv> parse_unsigned (2 ^ 32)"

lemma digit_char: "(n::nat) < 10 \<Longrightarrow> byte_of (char_of (48 + n) :: char) = 48 + n"
  by simp

lemma is_digit_char: "(n::nat) < 10 \<Longrightarrow> is_digit (char_of (48 + n))"
  by (simp add: is_digit_def)

lemma show_nat_digits: "list_all is_digit (show_nat n)"
proof (induction n rule: show_nat.induct)
  case (1 n)
  then show ?case
    by (subst show_nat.simps) (simp add: is_digit_char)
qed

lemma show_nat_nonempty [simp]: "show_nat n \<noteq> []"
  by (subst show_nat.simps) simp

lemma digits_value_snoc: "digits_value (s @ [c]) = digits_value s * 10 + (byte_of c - 48)"
  by (simp add: digits_value_def)

lemma digits_value_show: "digits_value (show_nat n) = n"
proof (induction n rule: show_nat.induct)
  case (1 n)
  have "n mod 10 < 10" by simp
  then show ?case
    using "1" by (subst show_nat.simps) (auto simp: digits_value_snoc digits_value_def)
qed

lemma parse_show: "n < bound \<Longrightarrow> parse_unsigned bound (show_nat n) = Some n"
proof -
  assume n: "n < bound"
  have "hd (show_nat n) \<noteq> CHR ''+''"
    using show_nat_digits[of n] by (cases "show_nat n") (auto simp: is_digit_def)
  then have "(case show_nat n of c # cs \<Rightarrow> if c = CHR ''+'' then cs else show_nat n | [] \<Rightarrow> [])
      = show_nat n"
    by (cases "show_nat n") auto
  with n show ?thesis
    by (simp add: parse_unsigned_def show_nat_digits digits_value_show)
qed

lemma parse_unsigned_bound: "parse_unsigned bound s = Some n \<Longrightarrow> n < bound"
  by (auto simp: parse_unsigned_def Let_def split: if_splits)

lemma is_digit_plain: "is_digit c \<Longrightarrow> plain c"
  by (auto simp: is_digit_def plain_def)

lemma show_nat_plain: "list_all plain (show_nat n)"
  using show_nat_digits[of n] by (auto simp: list_all_iff is_digit_plain)

lemma plain_line_text: "list_all plain l \<Longrightarrow> line_text l"
  by (cases l rule: rev_cases) (auto simp: line_text_def list_all_iff plain_def)

end
