(* ===== verification/NixTypes.thy ===== *)
theory NixTypes
  imports Strings
begin

unbundle bit_operations_syntax

text \<open>
  \<^verbatim>\<open>crates/depot-core/src/nix.rs\<close>: store directories, store path hashes, NAR hashes and
  their normalisation to nix-base32, content addresses and path infos. The \<^verbatim>\<open>base64\<close>
  crate is a parameter: \<open>b64 s\<close> is the result of decoding \<open>s\<close> with its standard engine,
  \<^const>\<open>None\<close> where that fails.
\<close>

type_synonym bytes = "8 word list"
type_synonym b64_decoder = "string \<Rightarrow> bytes option"

definition NIX_BASE32_ALPHABET :: string where
  "NIX_BASE32_ALPHABET = ''0123456789abcdfghijklmnpqrsvwxyz''"

lemma length_alphabet: "length NIX_BASE32_ALPHABET = 32"
  by (simp add: NIX_BASE32_ALPHABET_def)

lemma alphabet_distinct: "distinct NIX_BASE32_ALPHABET"
  by (simp add: NIX_BASE32_ALPHABET_def)

lemma alphabet_plain: "list_all plain NIX_BASE32_ALPHABET"
  by (simp add: NIX_BASE32_ALPHABET_def plain_def)

lemma alphabet_no: "CHR ''-'' \<notin> set NIX_BASE32_ALPHABET" "CHR '':'' \<notin> set NIX_BASE32_ALPHABET"
  "CHR ''/'' \<notin> set NIX_BASE32_ALPHABET" "CHR ''.'' \<notin> set NIX_BASE32_ALPHABET"
  by (simp_all add: NIX_BASE32_ALPHABET_def)

subsection \<open>Errors\<close>

datatype nix_hash_error =
    UnsupportedTextFormat string
  | UnsupportedAlgorithm string
  | UnsupportedEncoding string
  | InvalidNixBase32Digest string string
  | InvalidBase64

datatype path_info_json_error = UnsupportedShape string string

datatype store_path_hash_error =
    MissingHyphen string
  | InvalidLength string nat nat
  | InvalidCharacter string nat nat

datatype store_dir_error = StoreDirEmpty | StoreDirNotAbsolute string

subsection \<open>Store directories\<close>

datatype store_dir = StoreDir (store_dir_str: string)

definition DEFAULT_STORE_DIR :: string where
  "DEFAULT_STORE_DIR = ''/nix/store''"

function pop_slashes :: "string \<Rightarrow> string" where
  "pop_slashes p = (if 1 < length p \<and> last p = CHR ''/'' then pop_slashes (butlast p) else p)"
  by pat_completeness auto
termination
  by (relation "measure length") auto

declare pop_slashes.simps [simp del]

definition store_dir_new :: "string \<Rightarrow> store_dir_error + store_dir" where
  "store_dir_new path =
     (if path = [] then Inl StoreDirEmpty
      else if \<not> starts_with ''/'' path then Inl (StoreDirNotAbsolute path)
      else Inr (StoreDir (pop_slashes path)))"

definition default_nix :: store_dir where
  "default_nix = StoreDir DEFAULT_STORE_DIR"

definition contains_path :: "store_dir \<Rightarrow> string \<Rightarrow> bool" where
  "contains_path d path =
     (if path = store_dir_str d then True
      else (case strip_prefix (store_dir_str d) path of
              None \<Rightarrow> False | Some rest \<Rightarrow> starts_with ''/'' rest))"

definition relative_path :: "store_dir \<Rightarrow> string \<Rightarrow> string option" where
  "relative_path d path =
     (if path = store_dir_str d then Some []
      else Option.bind (strip_prefix (store_dir_str d) path) (strip_prefix ''/''))"

definition display_path :: "store_dir \<Rightarrow> string \<Rightarrow> string" where
  "display_path d path = (case relative_path d path of None \<Rightarrow> path | Some r \<Rightarrow> r)"

definition expand_display_path :: "store_dir \<Rightarrow> string \<Rightarrow> string" where
  "expand_display_path d v =
     (if contains_path d v then v
      else store_dir_str d @ ''/'' @ trim_start_char (CHR ''/'') v)"

lemma pop_slashes_shape:
  "p \<noteq> [] \<Longrightarrow> hd p = CHR ''/'' \<Longrightarrow>
   hd (pop_slashes p) = CHR ''/'' \<and> pop_slashes p \<noteq> [] \<and>
   (pop_slashes p = ''/'' \<or> last (pop_slashes p) \<noteq> CHR ''/'')"
proof (induction p rule: pop_slashes.induct)
  case (1 p)
  show ?case
  proof (cases "1 < length p \<and> last p = CHR ''/''")
    case True
    then have "butlast p \<noteq> []" "hd (butlast p) = CHR ''/''"
      using "1.prems" by (cases p; cases "tl p"; auto)+
    then show ?thesis using "1.IH"[OF True] True by (subst (1 2 3 4) pop_slashes.simps) simp
  next
    case False
    then have "pop_slashes p = p" by (subst pop_slashes.simps) (simp only: if_False)
    moreover have "p = ''/'' \<or> last p \<noteq> CHR ''/''"
      using False "1.prems" by (cases p; cases "tl p") auto
    ultimately show ?thesis using "1.prems" by simp
  qed
qed

lemma contains_path_iff:
  "contains_path d p \<longleftrightarrow> p = store_dir_str d \<or> (\<exists>r. p = store_dir_str d @ ''/'' @ r)"
proof -
  have "starts_with ''/'' s \<longleftrightarrow> (\<exists>r. s = ''/'' @ r)" for s
    by (auto simp: starts_with_iff prefix_def)
  then show ?thesis
    by (auto simp: contains_path_def split: option.splits)
qed

lemma relative_path_append: "relative_path d (store_dir_str d @ ''/'' @ r) = Some r"
  by (simp add: relative_path_def)

lemma relative_path_Some:
  "relative_path d p = Some r \<longleftrightarrow> p = store_dir_str d \<and> r = [] \<or> p = store_dir_str d @ ''/'' @ r"
  by (auto simp: relative_path_def bind_eq_Some_conv split: if_splits)

lemma display_path_append [simp]: "display_path d (store_dir_str d @ CHR ''/'' # r) = r"
  using relative_path_append[of d r] by (simp add: display_path_def)

lemma expand_display_append:
  assumes "\<not> contains_path d r" "r = [] \<or> hd r \<noteq> CHR ''/''"
  shows "expand_display_path d r = store_dir_str d @ ''/'' @ r"
  using assms by (cases r) (auto simp: expand_display_path_def trim_start_char_def)

lemma relative_not_contained:
  assumes "store_dir_str d \<noteq> []" "hd (store_dir_str d) = CHR ''/''"
    "r = [] \<or> hd r \<noteq> CHR ''/''"
  shows "\<not> contains_path d r"
  using assms by (cases "store_dir_str d"; cases r) (auto simp: contains_path_iff)

subsection \<open>Store path hashes\<close>

datatype store_path_hash = StorePathHash (hash_str: string)

definition HASH_LENGTH :: nat where
  "HASH_LENGTH = 32"

text \<open>\<^verbatim>\<open>character as u8\<close> keeps the low eight bits of the code point.\<close>

definition char_as_u8 :: "nat \<Rightarrow> char" where
  "char_as_u8 cp = char_of (cp mod 256)"

fun check_chars :: "string \<Rightarrow> nat \<Rightarrow> nat list \<Rightarrow> store_path_hash_error + unit" where
  "check_chars hash position [] = Inr ()"
| "check_chars hash position (character # rest) =
     (if char_as_u8 character \<notin> set NIX_BASE32_ALPHABET
      then Inl (InvalidCharacter hash character position)
      else check_chars hash (position + 1) rest)"

definition from_hash :: "string \<Rightarrow> store_path_hash_error + store_path_hash" where
  "from_hash hash =
     (if length hash \<noteq> HASH_LENGTH then Inl (InvalidLength hash (length hash) HASH_LENGTH)
      else and_then (check_chars hash 0 (utf8_chars hash)) (\<lambda>_. Inr (StorePathHash hash)))"

definition parse_from_store_path :: "string \<Rightarrow> store_path_hash_error + store_path_hash" where
  "parse_from_store_path store_path =
     (let base = after_last (CHR ''/'') store_path in
      case split_once (CHR ''-'') base of
        None \<Rightarrow> Inl (MissingHyphen store_path)
      | Some (hash, _) \<Rightarrow> from_hash hash)"

definition hash_text :: "string \<Rightarrow> bool" where
  "hash_text h \<longleftrightarrow> length h = HASH_LENGTH \<and> set h \<subseteq> set NIX_BASE32_ALPHABET"

lemma check_chars_Inr:
  "check_chars h i cs = Inr u \<longleftrightarrow> list_all (\<lambda>c. char_as_u8 c \<in> set NIX_BASE32_ALPHABET) cs"
  by (induction cs arbitrary: i) auto

lemma from_hash_Inr_str: "from_hash h = Inr r \<Longrightarrow> r = StorePathHash h \<and> length h = HASH_LENGTH"
  by (auto simp: from_hash_def split: if_splits)

lemma hash_text_ascii: "set h \<subseteq> set NIX_BASE32_ALPHABET \<Longrightarrow> ascii h"
  using alphabet_plain by (auto simp: ascii_def plain_def list_all_iff)

lemma char_as_u8_ascii: "byte_of c < 128 \<Longrightarrow> char_as_u8 (byte_of c) = c"
  by (simp add: char_as_u8_def)

lemma from_hash_ascii:
  "ascii h \<Longrightarrow> from_hash h = Inr r \<longleftrightarrow> hash_text h \<and> r = StorePathHash h"
  by (auto simp: from_hash_def hash_text_def utf8_chars_ascii check_chars_Inr list_all_iff ascii_def
      char_as_u8_ascii)

lemma from_hash_text: "hash_text h \<Longrightarrow> from_hash h = Inr (StorePathHash h)"
  using hash_text_ascii by (simp add: from_hash_ascii hash_text_def)

lemma hash_text_no:
  "hash_text h \<Longrightarrow> CHR ''-'' \<notin> set h \<and> CHR ''/'' \<notin> set h \<and> CHR ''.'' \<notin> set h \<and> h \<noteq> []"
  using alphabet_no by (auto simp: hash_text_def HASH_LENGTH_def)

lemma parse_from_store_path_text:
  assumes "hash_text h" "CHR ''/'' \<notin> set name"
  shows "parse_from_store_path (dir @ ''/'' @ h @ ''-'' @ name) = Inr (StorePathHash h)"
proof -
  have "CHR ''/'' \<notin> set (h @ ''-'' @ name)" using assms hash_text_no by auto
  then have "after_last (CHR ''/'') (dir @ CHR ''/'' # (h @ ''-'' @ name)) = h @ ''-'' @ name"
    by (rule after_last_append)
  then show ?thesis
    using assms hash_text_no[of h] by (simp add: parse_from_store_path_def from_hash_text)
qed

instantiation store_path_hash :: linorder
begin

definition less_eq_store_path_hash :: "store_path_hash \<Rightarrow> store_path_hash \<Rightarrow> bool" where
  "less_eq_store_path_hash a b \<longleftrightarrow> hash_str a \<le> hash_str b"

definition less_store_path_hash :: "store_path_hash \<Rightarrow> store_path_hash \<Rightarrow> bool" where
  "less_store_path_hash a b \<longleftrightarrow> hash_str a < hash_str b"

instance
  by standard (auto simp: less_eq_store_path_hash_def less_store_path_hash_def
      intro: store_path_hash.expand)

end

subsection \<open>Hash algorithms and nix-base32\<close>

datatype hash_algorithm = Sha256 | Sha512 | OtherAlgorithm string

definition algorithm_parse :: "string \<Rightarrow> hash_algorithm" where
  "algorithm_parse v = (if v = ''sha256'' then Sha256 else if v = ''sha512'' then Sha512
     else OtherAlgorithm v)"

fun algorithm_str :: "hash_algorithm \<Rightarrow> string" where
  "algorithm_str Sha256 = ''sha256''"
| "algorithm_str Sha512 = ''sha512''"
| "algorithm_str (OtherAlgorithm other) = other"

fun supports_nix_base32_conversion :: "hash_algorithm \<Rightarrow> bool" where
  "supports_nix_base32_conversion Sha256 = True"
| "supports_nix_base32_conversion _ = False"

fun nix_base32_digest_len :: "hash_algorithm \<Rightarrow> nat option" where
  "nix_base32_digest_len Sha256 = Some 52"
| "nix_base32_digest_len _ = None"

definition prefixed_nix_base32_text_len :: "hash_algorithm \<Rightarrow> nat option" where
  "prefixed_nix_base32_text_len a =
     map_option (\<lambda>digest_len. length (algorithm_str a) + 1 + digest_len) (nix_base32_digest_len a)"

definition is_valid_nix_base32_alphabet :: "string \<Rightarrow> bool" where
  "is_valid_nix_base32_alphabet digest \<longleftrightarrow>
     digest \<noteq> [] \<and> list_all (\<lambda>b. b \<in> set NIX_BASE32_ALPHABET) digest"

definition validate_nix32_text_digest :: "hash_algorithm \<Rightarrow> string \<Rightarrow> nix_hash_error + unit" where
  "validate_nix32_text_digest a digest =
     (if \<not> supports_nix_base32_conversion a then Inl (UnsupportedAlgorithm (algorithm_str a))
      else if \<not> is_valid_nix_base32_alphabet digest
      then Inl (InvalidNixBase32Digest (algorithm_str a) digest)
      else case nix_base32_digest_len a of
        Some expected_len \<Rightarrow>
          if length digest \<noteq> expected_len
          then Inl (InvalidNixBase32Digest (algorithm_str a) digest) else Inr ()
      | None \<Rightarrow> Inr ())"

definition base32_length :: "nat \<Rightarrow> nat" where
  "base32_length n = (n * 8 - 1) div 5 + 1"

definition base32_digit :: "bytes \<Rightarrow> nat \<Rightarrow> 8 word" where
  "base32_digit input n =
     (let bit_offset = n * 5; i = bit_offset div 8; j = bit_offset mod 8;
          c = (if i < length input then drop_bit j (input ! i) else 0);
          c = (if i + 1 < length input \<and> j \<noteq> 0
               then c OR push_bit (8 - j) (input ! (i + 1)) else c)
      in c AND 0x1f)"

definition encode_nix_base32 :: "bytes \<Rightarrow> string" where
  "encode_nix_base32 input =
     (if input = [] then []
      else map (\<lambda>n. NIX_BASE32_ALPHABET ! unat (base32_digit input n))
             (rev [0..<base32_length (length input)]))"

subsection \<open>NAR hashes\<close>

record normalized_nar_hash =
  nh_algorithm :: hash_algorithm
  nh_digest :: string

datatype hash_text_encoding = Base64 | NixBase32 | OtherEncoding string

definition encoding_parse :: "string \<Rightarrow> hash_text_encoding" where
  "encoding_parse v = (if v = ''base64'' then Base64
     else if v = ''nix32'' \<or> v = ''base32'' then NixBase32 else OtherEncoding v)"

datatype hash_text_syntax = Sri | ColonSeparated

record parsed_hash_text =
  ph_algorithm :: hash_algorithm
  ph_form :: hash_text_syntax
  ph_digest :: string

datatype nix_hash =
    Raw string
  | Structured hash_algorithm "hash_text_encoding option" string

definition parse_hash_text :: "string \<Rightarrow> parsed_hash_text option" where
  "parse_hash_text input =
     (case split_once (CHR '':'') input of
        Some (algorithm, digest) \<Rightarrow>
          Some \<lparr>ph_algorithm = algorithm_parse algorithm, ph_form = ColonSeparated, ph_digest = digest\<rparr>
      | None \<Rightarrow>
          (case split_once (CHR ''-'') input of
             Some (algorithm, digest) \<Rightarrow>
               Some \<lparr>ph_algorithm = algorithm_parse algorithm, ph_form = Sri, ph_digest = digest\<rparr>
           | None \<Rightarrow> None))"

definition nar_hash_new :: "hash_algorithm \<Rightarrow> string \<Rightarrow> nix_hash_error + normalized_nar_hash" where
  "nar_hash_new a digest =
     and_then (validate_nix32_text_digest a digest)
       (\<lambda>_. Inr \<lparr>nh_algorithm = a, nh_digest = digest\<rparr>)"

definition from_base64_digest ::
    "b64_decoder \<Rightarrow> hash_algorithm \<Rightarrow> string \<Rightarrow> nix_hash_error + normalized_nar_hash" where
  "from_base64_digest b64 a digest =
     (if \<not> supports_nix_base32_conversion a then Inl (UnsupportedAlgorithm (algorithm_str a))
      else case b64 digest of
        None \<Rightarrow> Inl InvalidBase64
      | Some hash_bytes \<Rightarrow> Inr \<lparr>nh_algorithm = a, nh_digest = encode_nix_base32 hash_bytes\<rparr>)"

definition parse_text :: "b64_decoder \<Rightarrow> string \<Rightarrow> nix_hash_error + normalized_nar_hash" where
  "parse_text b64 input =
     and_then (ok_or (UnsupportedTextFormat input) (parse_hash_text input))
       (\<lambda>parsed. case ph_form parsed of
          Sri \<Rightarrow> from_base64_digest b64 (ph_algorithm parsed) (ph_digest parsed)
        | ColonSeparated \<Rightarrow> nar_hash_new (ph_algorithm parsed) (ph_digest parsed))"

fun from_nix_hash :: "b64_decoder \<Rightarrow> nix_hash \<Rightarrow> nix_hash_error + normalized_nar_hash" where
  "from_nix_hash b64 (Raw raw) = parse_text b64 raw"
| "from_nix_hash b64 (Structured a (Some NixBase32) digest) = nar_hash_new a digest"
| "from_nix_hash b64 (Structured a (Some Base64) digest) = from_base64_digest b64 a digest"
| "from_nix_hash b64 (Structured a None digest) = from_base64_digest b64 a digest"
| "from_nix_hash b64 (Structured a (Some (OtherEncoding name)) digest) = Inl (UnsupportedEncoding name)"

abbreviation normalize :: "b64_decoder \<Rightarrow> nix_hash \<Rightarrow> nix_hash_error + normalized_nar_hash" where
  "normalize \<equiv> from_nix_hash"

definition nar_hash_str :: "normalized_nar_hash \<Rightarrow> string" where
  "nar_hash_str h = algorithm_str (nh_algorithm h) @ '':'' @ nh_digest h"

definition nh_text_len :: "normalized_nar_hash \<Rightarrow> nat" where
  "nh_text_len h = length (algorithm_str (nh_algorithm h)) + 1 + length (nh_digest h)"

fun nix_hash_algorithm :: "nix_hash \<Rightarrow> hash_algorithm option" where
  "nix_hash_algorithm (Raw raw) = map_option ph_algorithm (parse_hash_text raw)"
| "nix_hash_algorithm (Structured a e d) = Some a"

fun render_text :: "nix_hash \<Rightarrow> string" where
  "render_text (Raw raw) = raw"
| "render_text (Structured a e digest) =
     (case e of Some NixBase32 \<Rightarrow> algorithm_str a @ '':'' @ digest
      | _ \<Rightarrow> algorithm_str a @ ''-'' @ digest)"

subsection \<open>Content addresses\<close>

datatype content_address_method = CaText | CaFlat | CaNar | CaGit | CaOther string

definition ca_method_parse :: "string \<Rightarrow> content_address_method" where
  "ca_method_parse v = (if v = ''text'' then CaText else if v = ''flat'' then CaFlat
     else if v = ''nar'' then CaNar else if v = ''git'' then CaGit else CaOther v)"

datatype nix_content_address =
    CaRaw string
  | CaStructured content_address_method nix_hash

fun format_for_narinfo :: "b64_decoder \<Rightarrow> nix_content_address \<Rightarrow> string" where
  "format_for_narinfo b64 (CaRaw raw) = raw"
| "format_for_narinfo b64 (CaStructured m h) =
     (let normalized = (case normalize b64 h of Inr n \<Rightarrow> nar_hash_str n | Inl _ \<Rightarrow> render_text h) in
      case m of
        CaText \<Rightarrow> ''text:'' @ normalized
      | CaFlat \<Rightarrow> ''fixed:'' @ normalized
      | CaNar \<Rightarrow> ''fixed:r:'' @ normalized
      | CaGit \<Rightarrow> ''fixed:git:'' @ normalized
      | CaOther other \<Rightarrow> other @ '':'' @ normalized)"

subsection \<open>Path infos\<close>

record path_info =
  pi_path :: string
  pi_nar_hash :: nix_hash
  pi_nar_size :: "64 word"
  pi_references :: "string list"
  pi_deriver :: "string option"
  pi_signatures :: "string list"
  pi_ca :: "nix_content_address option"

definition pi_store_path_hash :: "path_info \<Rightarrow> store_path_hash_error + store_path_hash" where
  "pi_store_path_hash p = parse_from_store_path (pi_path p)"

definition pi_reference_hashes :: "path_info \<Rightarrow> store_path_hash_error + store_path_hash list" where
  "pi_reference_hashes p = collect_res parse_from_store_path (pi_references p)"

record path_info_payload =
  pp_nar_hash :: nix_hash
  pp_nar_size :: "64 word"
  pp_references :: "string list"
  pp_deriver :: "string option"
  pp_signatures :: "string list"
  pp_ca :: "nix_content_address option"

definition into_path_info :: "path_info_payload \<Rightarrow> string \<Rightarrow> path_info" where
  "into_path_info p path =
     \<lparr>pi_path = path, pi_nar_hash = pp_nar_hash p, pi_nar_size = pp_nar_size p,
      pi_references = pp_references p, pi_deriver = pp_deriver p,
      pi_signatures = pp_signatures p, pi_ca = pp_ca p\<rparr>"

text \<open>
  The two decodings by \<^verbatim>\<open>serde_json\<close> are parameters: the entries of the object form, or of
  the array form, in order, or the text of the error. Later entries of a path win.
\<close>

definition parse_path_info_json ::
    "('i \<Rightarrow> string + (string \<times> path_info_payload) list) \<Rightarrow> ('i \<Rightarrow> string + (string \<times> path_info_payload) list)
     \<Rightarrow> 'i \<Rightarrow> path_info_json_error + (string \<rightharpoonup> path_info)" where
  "parse_path_info_json object_form array_form input =
     (let build = foldl (\<lambda>m (path, payload). m(path \<mapsto> into_path_info payload path)) Map.empty in
      case object_form input of
        Inr entries \<Rightarrow> Inr (build entries)
      | Inl object_error \<Rightarrow>
          (case array_form input of
             Inr entries \<Rightarrow> Inr (build entries)
           | Inl array_error \<Rightarrow> Inl (UnsupportedShape object_error array_error)))"

end
