(* ===== verification/Base32.thy ===== *)
theory Base32
  imports NixTypes
begin

text \<open>
  What \<^const>\<open>encode_nix_base32\<close> computes. The bytes are a little-endian number; its
  digits in base 32, most significant first, index the alphabet. From that follow the length
  of the digest, that every digest validates, and that different hashes of one length have
  different digests.
\<close>

fun le_value :: "bytes \<Rightarrow> nat" where
  "le_value [] = 0"
| "le_value (b # bs) = unat b + 256 * le_value bs"

definition base32_value :: "nat list \<Rightarrow> nat" where
  "base32_value ds = foldl (\<lambda>v d. v * 32 + d) 0 ds"

lemma byte_lt: "unat (b :: 8 word) < 256"
  using unsigned_less[of b] by simp

lemma le_value_bound: "le_value bs < 256 ^ length bs"
proof (induction bs)
  case (Cons b bs)
  have "unat b < 256" by (rule byte_lt)
  moreover have "le_value bs + 1 \<le> 256 ^ length bs" using Cons by simp
  then have "256 * le_value bs + 256 \<le> 256 * 256 ^ length bs"
    by (metis add_mult_distrib2 mult.right_neutral mult_le_mono2)
  ultimately show ?case by simp
qed simp

lemma le_value_drop: "le_value bs div 256 ^ i = le_value (drop i bs)"
proof (induction i arbitrary: bs)
  case (Suc i)
  show ?case
  proof (cases bs)
    case (Cons b bs')
    have "unat b < 256" by (rule byte_lt)
    then have "le_value bs div 256 = le_value bs'"
      using Cons by simp
    then show ?thesis
      using Suc[of bs'] Cons by (simp add: div_mult2_eq)
  qed simp
qed simp

lemma le_value_inj: "length xs = length ys \<Longrightarrow> le_value xs = le_value ys \<Longrightarrow> xs = ys"
proof (induction xs ys rule: list_induct2)
  case (Cons x xs y ys)
  have b: "unat x < 256" "unat y < 256" by (rule byte_lt)+
  have eq: "unat x + 256 * le_value xs = unat y + 256 * le_value ys" using Cons.prems by simp
  from arg_cong[OF eq, of "\<lambda>v. v mod 256"] b have "unat x = unat y" by simp
  with eq Cons.IH show ?case by (simp add: word_unat_eq_iff)
qed simp

text \<open>One digit: the five bits of the number from bit \<open>5 n\<close> on.\<close>

lemma bit_low_byte:
  fixes b :: "8 word"
  shows "bit (unat b + 256 * v) m \<longleftrightarrow> (if m < 8 then bit b m else bit v (m - 8))"
proof (cases "m < 8")
  case True
  have "(2::nat) ^ 8 = 2 ^ m * 2 ^ (8 - m)" using True by (simp flip: power_add)
  then have "unat b + 256 * v = unat b + 2 ^ m * (2 ^ (8 - m) * v)"
    by (simp add: algebra_simps)
  moreover have "(unat b + 2 ^ m * (2 ^ (8 - m) * v)) div 2 ^ m = unat b div 2 ^ m + 2 ^ (8 - m) * v"
    by simp
  ultimately have "(unat b + 256 * v) div 2 ^ m = unat b div 2 ^ m + 2 ^ (8 - m) * v"
    by metis
  then have "bit (unat b + 256 * v) m \<longleftrightarrow> bit (unat b) m" using True by (simp add: bit_iff_odd)
  with True show ?thesis by (simp add: bit_simps)
next
  case False
  have "(unat b + 256 * v) div 2 ^ m = (unat b + 256 * v) div 2 ^ 8 div 2 ^ (m - 8)"
    using False by (simp only: div_exp_eq le_add_diff_inverse not_less)
  also have "(unat b + 256 * v) div 2 ^ 8 = v"
    using byte_lt[of b] by simp
  finally have "bit (unat b + 256 * v) m \<longleftrightarrow> bit v (m - 8)"
    by (simp add: bit_iff_odd)
  with False show ?thesis by simp
qed

lemma bit_le_value:
  "bit (le_value bs) m \<longleftrightarrow> m div 8 < length bs \<and> bit (bs ! (m div 8)) (m mod 8)"
proof (induction bs arbitrary: m)
  case (Cons b bs)
  show ?case
  proof (cases "m < 8")
    case False
    then have "m div 8 = Suc ((m - 8) div 8)" "m mod 8 = (m - 8) mod 8"
      by (simp_all add: le_div_geq le_mod_geq)
    with False show ?thesis
      using Cons.IH by (simp add: bit_low_byte)
  qed (simp add: bit_low_byte)
qed simp

lemma bit_0x1f: "bit (0x1f :: 8 word) n \<longleftrightarrow> n < 5"
proof -
  have m: "(0x1f :: 8 word) = mask 5" by (simp add: mask_eq_exp_minus_1)
  show ?thesis unfolding m by (auto simp only: bit_mask_iff possible_bit_word) simp
qed

lemma pow_32: "(32::nat) ^ n = 2 ^ (n * 5)"
proof -
  have "(2::nat) ^ 5 = 32" by simp
  then show ?thesis by (simp only: mult.commute[of n] power_mult)
qed

lemma pow_256: "(256::nat) ^ n = 2 ^ (n * 8)"
proof -
  have "(2::nat) ^ 8 = 256" by simp
  then show ?thesis by (simp only: mult.commute[of n] power_mult)
qed

lemma bit_position:
  fixes k m :: nat
  assumes "k < 5"
  shows "(k + m) div 8 = (if k + m mod 8 < 8 then m div 8 else Suc (m div 8))"
    and "(k + m) mod 8 = (if k + m mod 8 < 8 then k + m mod 8 else k + m mod 8 - 8)"
proof -
  have e: "k + m = (k + m mod 8) + m div 8 * 8" by simp
  have b: "k + m mod 8 < 16" using assms mod_less_divisor[of 8 m] by linarith
  have "(k + m) div 8 = (k + m mod 8 + m div 8 * 8) div 8" by (simp only: e[symmetric])
  also have "\<dots> = (k + m mod 8) div 8 + m div 8" by (subst div_mult_self1) simp_all
  finally have "(k + m) div 8 = (k + m mod 8) div 8 + m div 8" .
  moreover have "(k + m mod 8) div 8 = (if k + m mod 8 < 8 then 0 else 1)"
  proof (cases "k + m mod 8 < 8")
    case False
    then have "(k + m mod 8) div 8 = Suc ((k + m mod 8 - 8) div 8)" by (intro le_div_geq) auto
    moreover have "(k + m mod 8 - 8) div 8 = 0" using b by (intro div_less) linarith
    ultimately show ?thesis using False by simp
  qed simp
  ultimately show "(k + m) div 8 = (if k + m mod 8 < 8 then m div 8 else Suc (m div 8))"
    by simp
  have "(k + m) mod 8 = (k + m mod 8) mod 8" by (simp add: mod_simps)
  then show "(k + m) mod 8 = (if k + m mod 8 < 8 then k + m mod 8 else k + m mod 8 - 8)"
    using b by (simp add: le_mod_geq)
qed

text \<open>Digit \<open>n\<close> is digit \<open>n\<close> of the number in base 32.\<close>

lemma base32_digit_value: "unat (base32_digit bs n) = le_value bs div 32 ^ n mod 32"
proof (rule bit_eqI)
  fix k
  let ?i = "n * 5 div 8" and ?j = "n * 5 mod 8"
  have p: "le_value bs div 32 ^ n mod 32 = take_bit 5 (drop_bit (n * 5) (le_value bs))"
    unfolding pow_32 take_bit_eq_mod drop_bit_eq_div by simp
  have j: "?j < 8" by simp
  have split: "(k + n * 5) div 8 = (if k + ?j < 8 then ?i else Suc ?i)"
    "(k + n * 5) mod 8 = (if k + ?j < 8 then k + ?j else k + ?j - 8)" if "k < 5"
    using that by (rule bit_position)+
  show "bit (unat (base32_digit bs n)) k \<longleftrightarrow> bit (le_value bs div 32 ^ n mod 32) k"
  proof (cases "k < 5")
    case True
    have "bit (base32_digit bs n) k \<longleftrightarrow>
       (?i < length bs \<and> bit (bs ! ?i) (k + ?j))
       \<or> (?i + 1 < length bs \<and> ?j \<noteq> 0 \<and> 8 - ?j \<le> k \<and> bit (bs ! (?i + 1)) (k - (8 - ?j)))"
      using True unfolding base32_digit_def Let_def
      using bit_0x1f[of k] by (auto simp: bit_and_iff bit_or_iff bit_drop_bit_eq bit_push_bit_iff add.commute)
    also have "\<dots> \<longleftrightarrow> (k + n * 5) div 8 < length bs \<and> bit (bs ! ((k + n * 5) div 8)) ((k + n * 5) mod 8)"
    proof (cases "k + ?j < 8")
      case False
      then have "\<not> bit (bs ! ?i) (k + ?j)" using bit_imp_le_length[of "bs ! ?i" "k + ?j"] by force
      moreover have "?j \<noteq> 0" "8 - ?j \<le> k" "k - (8 - ?j) = k + ?j - 8" using False True j by linarith+
      ultimately show ?thesis using False split[OF True] by simp
    next
      case c: True
      then have "\<not> (8 - ?j \<le> k)" by linarith
      with c show ?thesis using split[OF True] by simp
    qed
    finally show ?thesis
      using True by (simp add: p bit_simps bit_le_value add.commute)
  next
    case False
    then have "\<not> bit (base32_digit bs n) k"
      using bit_0x1f[of k] by (simp add: base32_digit_def Let_def bit_and_iff)
    with False show ?thesis by (simp add: p bit_simps)
  qed
qed

lemma base32_digit_lt: "unat (base32_digit bs n) < 32"
  by (simp add: base32_digit_value)

lemma base32_length_pos: "0 < n \<Longrightarrow> n * 8 \<le> base32_length n * 5"
  unfolding base32_length_def by presburger

subsection \<open>The digest as a numeral\<close>

definition base32_digits :: "bytes \<Rightarrow> nat list" where
  "base32_digits bs = (if bs = [] then []
     else map (\<lambda>n. unat (base32_digit bs n)) (rev [0..<base32_length (length bs)]))"

lemma encode_digits: "encode_nix_base32 bs = map (\<lambda>d. NIX_BASE32_ALPHABET ! d) (base32_digits bs)"
  by (simp add: encode_nix_base32_def base32_digits_def)

lemma base32_value_rev:
  "base32_value (map (\<lambda>n. v div 32 ^ n mod 32) (rev [0..<k])) = v mod 32 ^ k"
proof (induction k arbitrary: v)
  case (Suc k)
  have "rev [0..<Suc k] = map Suc (rev [0..<k]) @ [0]"
    by (simp only: upt_conv_Cons map_Suc_upt rev_map[symmetric] rev.simps zero_less_Suc)
  then have "base32_value (map (\<lambda>n. v div 32 ^ n mod 32) (rev [0..<Suc k]))
      = base32_value (map (\<lambda>n. v div 32 div 32 ^ n mod 32) (rev [0..<k])) * 32 + v mod 32"
    by (simp add: base32_value_def o_def div_mult2_eq)
  also have "\<dots> = v div 32 mod 32 ^ k * 32 + v mod 32" by (simp only: Suc.IH)
  also have "\<dots> = v mod 32 ^ Suc k"
    by (simp add: mod_mult2_eq mult.commute)
  finally show ?case .
qed (simp add: base32_value_def)

lemma base32_value_digits: "base32_value (base32_digits bs) = le_value bs"
proof (cases "bs = []")
  case False
  have "256 ^ length bs = (2::nat) ^ (length bs * 8)"
    by (rule pow_256)
  also have "\<dots> \<le> 2 ^ (base32_length (length bs) * 5)"
    using False base32_length_pos[of "length bs"] by (intro power_increasing) auto
  also have "\<dots> = (32::nat) ^ base32_length (length bs)"
    by (rule pow_32[symmetric])
  finally have "le_value bs < 32 ^ base32_length (length bs)"
    using le_value_bound[of bs] by linarith
  with False show ?thesis
    by (simp add: base32_digits_def base32_digit_value base32_value_rev)
qed (simp add: base32_digits_def base32_value_def)

lemma length_encode: "bs \<noteq> [] \<Longrightarrow> length (encode_nix_base32 bs) = base32_length (length bs)"
  by (simp add: encode_nix_base32_def)

lemma encode_alphabet: "set (encode_nix_base32 bs) \<subseteq> set NIX_BASE32_ALPHABET"
proof -
  have "NIX_BASE32_ALPHABET ! unat (base32_digit bs n) \<in> set NIX_BASE32_ALPHABET" for n
    using base32_digit_lt[of bs n] by (intro nth_mem) (simp add: length_alphabet)
  then show ?thesis by (auto simp: encode_nix_base32_def)
qed

lemma encode_inj:
  assumes "length xs = length ys" "encode_nix_base32 xs = encode_nix_base32 ys"
  shows "xs = ys"
proof -
  have lt: "d \<in> set (base32_digits bs) \<Longrightarrow> d < length NIX_BASE32_ALPHABET" for d bs
    by (auto simp: base32_digits_def length_alphabet base32_digit_lt split: if_splits)
  have "inj_on (\<lambda>d. NIX_BASE32_ALPHABET ! d) (set (base32_digits xs) \<union> set (base32_digits ys))"
    using lt alphabet_distinct by (auto simp: inj_on_def nth_eq_iff_index_eq)
  then have "base32_digits xs = base32_digits ys"
    using assms(2) unfolding encode_digits by (rule inj_on_map_eq_map[THEN iffD1])
  then have "le_value xs = le_value ys" by (metis base32_value_digits)
  with assms(1) show ?thesis by (rule le_value_inj)
qed

lemma encode_sha256:
  assumes "length bs = 32"
  shows "length (encode_nix_base32 bs) = 52"
    and "validate_nix32_text_digest Sha256 (encode_nix_base32 bs) = Inr ()"
proof -
  have "bs \<noteq> []" using assms by auto
  then show l: "length (encode_nix_base32 bs) = 52"
    using assms by (simp add: length_encode base32_length_def)
  moreover have "encode_nix_base32 bs \<noteq> []" using l by auto
  ultimately show "validate_nix32_text_digest Sha256 (encode_nix_base32 bs) = Inr ()"
    using encode_alphabet[of bs]
    by (auto simp: validate_nix32_text_digest_def is_valid_nix_base32_alphabet_def list_all_iff)
qed

end
