(* ===== verification/CoreIds.thy ===== *)
theory CoreIds
  imports NixTypes
begin

text \<open>
  The identifiers of \<^verbatim>\<open>crates/depot-core\<close>: project slugs (\<^verbatim>\<open>project.rs\<close>), storage ids,
  object kinds and storage references (\<^verbatim>\<open>storage.rs\<close>) and depot views (\<^verbatim>\<open>view.rs\<close>).
\<close>

type_synonym uuid = string \<comment> \<open>the canonical text of a \<^verbatim>\<open>uuid::Uuid\<close>\<close>

subsection \<open>Project slugs\<close>

datatype project_slug = ProjectSlug (slug_str: string)

datatype project_slug_error = SlugInvalid

definition slug_byte :: "char \<Rightarrow> bool" where
  "slug_byte b \<longleftrightarrow> CHR ''a'' \<le> b \<and> b \<le> CHR ''z'' \<or> CHR ''0'' \<le> b \<and> b \<le> CHR ''9''
     \<or> b = CHR ''-'' \<or> b = CHR ''_''"

definition slug_parse :: "string \<Rightarrow> project_slug_error + project_slug" where
  "slug_parse input =
     (let valid = input \<noteq> [] \<and> list_all slug_byte input in
      if \<not> valid then Inl SlugInvalid else Inr (ProjectSlug input))"

lemma slug_parse_Inr: "slug_parse s = Inr p \<longleftrightarrow> p = ProjectSlug s \<and> s \<noteq> [] \<and> list_all slug_byte s"
  by (auto simp: slug_parse_def Let_def)

instantiation project_slug :: linorder
begin

definition less_eq_project_slug :: "project_slug \<Rightarrow> project_slug \<Rightarrow> bool" where
  "less_eq_project_slug a b \<longleftrightarrow> slug_str a \<le> slug_str b"

definition less_project_slug :: "project_slug \<Rightarrow> project_slug \<Rightarrow> bool" where
  "less_project_slug a b \<longleftrightarrow> slug_str a < slug_str b"

instance
  by standard (auto simp: less_eq_project_slug_def less_project_slug_def
      intro: project_slug.expand)

end

subsection \<open>Storage ids\<close>

datatype storage_id = StorageId (storage_id_str: string)

datatype storage_id_error = StorageIdEmpty | StorageIdInvalid string

definition storage_id_byte :: "char \<Rightarrow> bool" where
  "storage_id_byte b \<longleftrightarrow> CHR ''a'' \<le> b \<and> b \<le> CHR ''z'' \<or> CHR ''A'' \<le> b \<and> b \<le> CHR ''Z''
     \<or> CHR ''0'' \<le> b \<and> b \<le> CHR ''9'' \<or> b = CHR ''.'' \<or> b = CHR ''_'' \<or> b = CHR ''-''"

definition storage_id_new :: "string \<Rightarrow> storage_id_error + storage_id" where
  "storage_id_new v =
     (let trimmed = trim v in
      if trimmed = [] then Inl StorageIdEmpty
      else if trimmed \<noteq> v then Inl (StorageIdInvalid v)
      else if \<not> list_all storage_id_byte trimmed then Inl (StorageIdInvalid v)
      else Inr (StorageId v))"

definition storage_id_main :: storage_id where
  "storage_id_main = StorageId ''main''"

lemma storage_id_byte_plain: "storage_id_byte b \<Longrightarrow> plain b"
  by (auto simp: storage_id_byte_def plain_def less_eq_char_def)

lemma storage_id_new_Inr:
  "storage_id_new v = Inr i \<longleftrightarrow> i = StorageId v \<and> v \<noteq> [] \<and> list_all storage_id_byte v"
proof -
  have "trim v = v" if "v \<noteq> []" "list_all storage_id_byte v"
    using that by (intro trim_plain) (auto simp: list_all_iff storage_id_byte_plain)
  then show ?thesis by (auto simp: storage_id_new_def Let_def)
qed

instantiation storage_id :: linorder
begin

definition less_eq_storage_id :: "storage_id \<Rightarrow> storage_id \<Rightarrow> bool" where
  "less_eq_storage_id a b \<longleftrightarrow> storage_id_str a \<le> storage_id_str b"

definition less_storage_id :: "storage_id \<Rightarrow> storage_id \<Rightarrow> bool" where
  "less_storage_id a b \<longleftrightarrow> storage_id_str a < storage_id_str b"

instance
  by standard (auto simp: less_eq_storage_id_def less_storage_id_def intro: storage_id.expand)

end

subsection \<open>Object kinds, storage references, views\<close>

datatype path_object_kind = KindNar | KindListing | KindLog | KindRealisation

fun kind_str :: "path_object_kind \<Rightarrow> string" where
  "kind_str KindNar = ''nar''"
| "kind_str KindListing = ''listing''"
| "kind_str KindLog = ''log''"
| "kind_str KindRealisation = ''realisation''"

lemma kind_str_inj: "kind_str a = kind_str b \<longleftrightarrow> a = b"
  by (cases a; cases b) auto

datatype storage_ref =
    RefDepotObject string string
  | RefUpstream uuid string
  | RefCasManifest string string

datatype depot_view = Aggregate | Project project_slug

end
