(* ===== verification/DepotPath.thy ===== *)
theory DepotPath
  imports Base32 CoreIds
begin

text \<open>
  \<^verbatim>\<open>crates/depot-core/src/depot_path.rs\<close>: which object paths the depot knows and what they
  name. The \<^verbatim>\<open>regex\<close> crate is a parameter: a record with one matcher for each pattern of the
  source. The contract \<open>regexes_ok\<close> is what the crate documents for these anchored patterns.
\<close>

definition sha256_nix_base32_digest_len :: nat where
  "sha256_nix_base32_digest_len = the (nix_base32_digest_len Sha256)"

datatype nar_compression = Uncompressed | Zstd | Xz | Bz2

definition from_narinfo_compression :: "string \<Rightarrow> nar_compression option" where
  "from_narinfo_compression v =
     (if v = [] \<or> v = ''none'' then Some Uncompressed
      else if v = ''zstd'' then Some Zstd
      else if v = ''xz'' then Some Xz
      else if v = ''bzip2'' \<or> v = ''bz2'' then Some Bz2
      else None)"

fun narinfo_compression :: "nar_compression \<Rightarrow> string" where
  "narinfo_compression Uncompressed = ''none''"
| "narinfo_compression Zstd = ''zstd''"
| "narinfo_compression Xz = ''xz''"
| "narinfo_compression Bz2 = ''bzip2''"

fun file_suffix :: "nar_compression \<Rightarrow> string" where
  "file_suffix Uncompressed = ''.nar''"
| "file_suffix Zstd = ''.nar.zst''"
| "file_suffix Xz = ''.nar.xz''"
| "file_suffix Bz2 = ''.nar.bz2''"

datatype depot_object_path =
    NixCacheInfo
  | IndexHtml
  | NarInfoPath store_path_hash
  | NarPath string nar_compression
  | ListingPath store_path_hash
  | LogPath string
  | RealisationPath string

record regexes =
  narinfo_re :: "string \<Rightarrow> bool"
  nar_re :: "string \<Rightarrow> (string \<times> string option) option"
  ls_re :: "string \<Rightarrow> bool"
  log_re :: "string \<Rightarrow> bool"
  realisation_re :: "string \<Rightarrow> bool"

definition parse_depot_object_path :: "regexes \<Rightarrow> string \<Rightarrow> depot_object_path option" where
  "parse_depot_object_path rx path =
     (if path = [] \<or> starts_with ''/'' path \<or> contains_str ''..'' path then None
      else if path = ''nix-cache-info'' then Some NixCacheInfo
      else if path = ''index.html'' then Some IndexHtml
      else if narinfo_re rx path then
        Option.bind (strip_suffix ''.narinfo'' path)
          (\<lambda>t. Option.bind (res_opt (from_hash t)) (\<lambda>h. Some (NarInfoPath h)))
      else case nar_re rx path of
        Some (nar_hash, ext) \<Rightarrow>
          Option.bind
            (case ext of
               None \<Rightarrow> Some Uncompressed
             | Some e \<Rightarrow> if e = ''.zst'' then Some Zstd else if e = ''.xz'' then Some Xz
                 else if e = ''.bz2'' then Some Bz2 else None)
            (\<lambda>compression. Some (NarPath nar_hash compression))
      | None \<Rightarrow>
          if ls_re rx path then
            Option.bind (strip_suffix ''.ls'' path)
              (\<lambda>t. Option.bind (res_opt (from_hash t)) (\<lambda>h. Some (ListingPath h)))
          else if log_re rx path then Some (LogPath path)
          else if realisation_re rx path then Some (RealisationPath path)
          else None)"

definition is_valid_depot_path :: "regexes \<Rightarrow> string \<Rightarrow> bool" where
  "is_valid_depot_path rx path = (parse_depot_object_path rx path \<noteq> None)"

subsection \<open>The contract of the matchers\<close>

text \<open>The texts of the patterns \<^verbatim>\<open>[alphabet]{32}\<close> and \<^verbatim>\<open>[alphabet]{52}\<close>.\<close>

definition digest_text :: "string \<Rightarrow> bool" where
  "digest_text d \<longleftrightarrow> length d = 52 \<and> set d \<subseteq> set NIX_BASE32_ALPHABET"

definition nar_ext :: "string option \<Rightarrow> string" where
  "nar_ext e = (case e of None \<Rightarrow> [] | Some x \<Rightarrow> x)"

definition log_char :: "char \<Rightarrow> bool" where
  "log_char c \<longleftrightarrow> storage_id_byte c"

definition algo_char :: "char \<Rightarrow> bool" where
  "algo_char c \<longleftrightarrow> CHR ''a'' \<le> c \<and> c \<le> CHR ''z'' \<or> CHR ''0'' \<le> c \<and> c \<le> CHR ''9''"

definition b64_char :: "char \<Rightarrow> bool" where
  "b64_char c \<longleftrightarrow> log_char c \<and> c \<notin> {CHR ''.'', CHR ''_'', CHR ''-''}
     \<or> c \<in> {CHR ''+'', CHR ''/'', CHR ''=''}"

definition out_char :: "char \<Rightarrow> bool" where
  "out_char c \<longleftrightarrow> log_char c \<and> c \<noteq> CHR ''.''"

definition realisation_text :: "string \<Rightarrow> bool" where
  "realisation_text p \<longleftrightarrow>
     (\<exists>a h o'. p = ''realisations/'' @ a @ '':'' @ h @ ''!'' @ o' @ ''.doi'' \<and>
        a \<noteq> [] \<and> h \<noteq> [] \<and> o' \<noteq> [] \<and>
        list_all algo_char a \<and>
        list_all b64_char h \<and>
        list_all out_char o')"

definition regexes_ok :: "regexes \<Rightarrow> bool" where
  "regexes_ok rx \<longleftrightarrow>
     (\<forall>p. narinfo_re rx p \<longleftrightarrow> (\<exists>h. p = h @ ''.narinfo'' \<and> hash_text h)) \<and>
     (\<forall>p d e. nar_re rx p = Some (d, e) \<longleftrightarrow>
        p = ''nar/'' @ d @ ''.nar'' @ nar_ext e \<and> digest_text d \<and>
        e \<in> {None, Some ''.zst'', Some ''.xz'', Some ''.bz2''}) \<and>
     (\<forall>p. ls_re rx p \<longleftrightarrow> (\<exists>h. p = h @ ''.ls'' \<and> hash_text h)) \<and>
     (\<forall>p. log_re rx p \<longleftrightarrow> (\<exists>n. p = ''log/'' @ n @ ''.drv'' \<and> n \<noteq> [] \<and> list_all log_char n)) \<and>
     (\<forall>p. realisation_re rx p \<longleftrightarrow> realisation_text p)"

subsection \<open>What the parser accepts, under the contract\<close>

lemma contains_dots_append:
  "CHR ''.'' \<notin> set a \<Longrightarrow> contains_str ''..'' (a @ s) \<longleftrightarrow> contains_str ''..'' s"
  by (induction a) (auto simp: starts_with_def)

lemma suffix_no_dots: "\<not> contains_str ''..'' (file_suffix c)"
  by (cases c) (simp_all add: starts_with_def)

lemma digest_no_dot: "digest_text d \<Longrightarrow> CHR ''.'' \<notin> set d \<and> CHR ''/'' \<notin> set d"
  using alphabet_no by (auto simp: digest_text_def)

lemma from_narinfo_compression_roundtrip:
  "from_narinfo_compression (narinfo_compression c) = Some c"
  by (cases c) (simp_all add: from_narinfo_compression_def)

lemma file_suffix_inj: "file_suffix a = file_suffix b \<longleftrightarrow> a = b"
  by (cases a; cases b) auto

definition ext_of :: "nar_compression \<Rightarrow> string option" where
  "ext_of c = (case c of Uncompressed \<Rightarrow> None | Zstd \<Rightarrow> Some ''.zst''
     | Xz \<Rightarrow> Some ''.xz'' | Bz2 \<Rightarrow> Some ''.bz2'')"

lemma file_suffix_ext: "file_suffix c = ''.nar'' @ nar_ext (ext_of c)"
  by (cases c) (simp_all add: nar_ext_def ext_of_def)

locale regex_engine =
  fixes rx :: regexes
  assumes contract: "regexes_ok rx"
begin

lemma narinfo_match: "narinfo_re rx p \<longleftrightarrow> (\<exists>h. p = h @ ''.narinfo'' \<and> hash_text h)"
  using contract by (simp add: regexes_ok_def)

lemma nar_match:
  "nar_re rx p = Some (d, e) \<longleftrightarrow> p = ''nar/'' @ d @ ''.nar'' @ nar_ext e \<and> digest_text d \<and>
     e \<in> {None, Some ''.zst'', Some ''.xz'', Some ''.bz2''}"
  by (rule contract[unfolded regexes_ok_def, THEN conjunct2, THEN conjunct1, rule_format])

lemma ls_match: "ls_re rx p \<longleftrightarrow> (\<exists>h. p = h @ ''.ls'' \<and> hash_text h)"
  using contract by (simp add: regexes_ok_def)

lemma parse_nar:
  assumes "digest_text d"
  shows "parse_depot_object_path rx (''nar/'' @ d @ file_suffix c) = Some (NarPath d c)"
proof -
  let ?p = "''nar/'' @ d @ file_suffix c"
  have "\<not> contains_str ''..'' ?p"
    using digest_no_dot[OF assms]
    by (simp add: contains_dots_append suffix_no_dots starts_with_def)
  moreover have "\<not> narinfo_re rx ?p"
  proof
    assume "narinfo_re rx ?p"
    then obtain h where h: "?p = h @ ''.narinfo''" "hash_text h" by (auto simp: narinfo_match)
    then have "CHR ''/'' \<in> set h \<or> h = []" by (cases h; cases "tl h"; cases "tl (tl h)"; cases "tl (tl (tl h))") auto
    with h hash_text_no[of h] show False by auto
  qed
  moreover have "nar_re rx ?p = Some (d, ext_of c)"
    using assms by (auto simp: nar_match file_suffix_ext ext_of_def split: nar_compression.splits)
  ultimately show ?thesis
    by (cases c) (simp_all add: parse_depot_object_path_def ext_of_def starts_with_def)
qed

lemma parse_nar_inv:
  assumes "parse_depot_object_path rx p = Some (NarPath d c)"
  shows "p = ''nar/'' @ d @ file_suffix c \<and> digest_text d"
proof -
  from assms obtain e where e: "nar_re rx p = Some (d, e)" "ext_of c = e"
    by (auto simp: parse_depot_object_path_def bind_eq_Some_conv ext_of_def
        split: if_splits option.splits)
  then show ?thesis using nar_match[of p d e] by (auto simp: file_suffix_ext)
qed

lemma parse_narinfo_path:
  assumes "hash_text h"
  shows "parse_depot_object_path rx (h @ ''.narinfo'') = Some (NarInfoPath (StorePathHash h))"
proof -
  have dot: "CHR ''.'' \<notin> set h" "CHR ''/'' \<notin> set h" "CHR ''-'' \<notin> set h" and len: "length h = 32"
    using hash_text_no[OF assms] assms by (auto simp: hash_text_def HASH_LENGTH_def)
  have "\<not> contains_str ''..'' (h @ ''.narinfo'')"
    using dot by (simp add: contains_dots_append starts_with_def)
  moreover have "\<not> starts_with ''/'' (h @ ''.narinfo'')"
    using dot len by (cases h) (auto simp: starts_with_def)
  moreover have "h @ ''.narinfo'' \<noteq> ''nix-cache-info''" "h @ ''.narinfo'' \<noteq> ''index.html''"
    using len by (auto dest: arg_cong[of _ _ length])
  moreover have "narinfo_re rx (h @ ''.narinfo'')" using assms by (auto simp: narinfo_match)
  ultimately show ?thesis
    using from_hash_text[OF assms]
    by (simp add: parse_depot_object_path_def del: strip_suffix_Some)
qed

lemma parse_narinfo_inv:
  assumes "parse_depot_object_path rx p = Some (NarInfoPath x)"
  shows "p = hash_str x @ ''.narinfo'' \<and> hash_text (hash_str x)"
proof -
  from assms have "narinfo_re rx p" and
    "\<exists>t. strip_suffix ''.narinfo'' p = Some t \<and> from_hash t = Inr x"
    by (auto simp: parse_depot_object_path_def bind_eq_Some_conv split: if_splits option.splits)
  then show ?thesis by (auto simp: narinfo_match dest!: from_hash_Inr_str)
qed

end

lemma parse_path_safe:
  "parse_depot_object_path rx p = Some o' \<Longrightarrow>
   p \<noteq> [] \<and> \<not> prefix ''/'' p \<and> \<not> sublist ''..'' p"
  by (auto simp: parse_depot_object_path_def starts_with_iff contains_str_iff split: if_splits)

subsection \<open>Matchers that satisfy the contract\<close>

definition std_hash_re :: "string \<Rightarrow> string \<Rightarrow> bool" where
  "std_hash_re sfx p = (case strip_suffix sfx p of None \<Rightarrow> False
     | Some h \<Rightarrow> length h = 32 \<and> list_all (\<lambda>c. c \<in> set NIX_BASE32_ALPHABET) h)"

definition std_nar_re :: "string \<Rightarrow> (string \<times> string option) option" where
  "std_nar_re p = (case strip_prefix ''nar/'' p of None \<Rightarrow> None
     | Some r \<Rightarrow>
        (let d = take 52 r; t = drop 52 r in
         if length d = 52 \<and> list_all (\<lambda>c. c \<in> set NIX_BASE32_ALPHABET) d then
           (if t = ''.nar'' then Some (d, None)
            else if t = ''.nar.zst'' then Some (d, Some ''.zst'')
            else if t = ''.nar.xz'' then Some (d, Some ''.xz'')
            else if t = ''.nar.bz2'' then Some (d, Some ''.bz2'') else None)
         else None))"

definition std_log_re :: "string \<Rightarrow> bool" where
  "std_log_re p = (case strip_prefix ''log/'' p of None \<Rightarrow> False
     | Some r \<Rightarrow> (case strip_suffix ''.drv'' r of None \<Rightarrow> False
         | Some n \<Rightarrow> n \<noteq> [] \<and> list_all log_char n))"

definition std_realisation_re :: "string \<Rightarrow> bool" where
  "std_realisation_re p = (case strip_prefix ''realisations/'' p of None \<Rightarrow> False
     | Some r \<Rightarrow> (case split_once (CHR '':'') r of None \<Rightarrow> False
     | Some (a, r2) \<Rightarrow> (case split_once (CHR ''!'') r2 of None \<Rightarrow> False
     | Some (h, r3) \<Rightarrow> (case strip_suffix ''.doi'' r3 of None \<Rightarrow> False
     | Some o' \<Rightarrow> a \<noteq> [] \<and> h \<noteq> [] \<and> o' \<noteq> [] \<and>
        list_all algo_char a \<and>
        list_all b64_char h \<and>
        list_all out_char o'))))"

definition std_regexes :: regexes where
  "std_regexes = \<lparr>narinfo_re = std_hash_re ''.narinfo'', nar_re = std_nar_re,
     ls_re = std_hash_re ''.ls'', log_re = std_log_re, realisation_re = std_realisation_re\<rparr>"

lemma std_hash_re_iff: "std_hash_re sfx p \<longleftrightarrow> (\<exists>h. p = h @ sfx \<and> hash_text h)"
  by (auto simp: std_hash_re_def strip_suffix_case hash_text_def HASH_LENGTH_def list_all_iff)

lemma std_nar_re_iff:
  "std_nar_re p = Some (d, e) \<longleftrightarrow> p = ''nar/'' @ d @ ''.nar'' @ nar_ext e \<and> digest_text d \<and>
     e \<in> {None, Some ''.zst'', Some ''.xz'', Some ''.bz2''}"
proof
  assume "std_nar_re p = Some (d, e)"
  then obtain r where r: "p = ''nar/'' @ r" "take 52 r = d" "digest_text d"
    "e \<in> {None, Some ''.zst'', Some ''.xz'', Some ''.bz2''}" "drop 52 r = ''.nar'' @ nar_ext e"
    by (auto simp: std_nar_re_def Let_def digest_text_def nar_ext_def list_all_iff subset_iff
        split: option.splits if_splits)
  then show "p = ''nar/'' @ d @ ''.nar'' @ nar_ext e \<and> digest_text d \<and>
     e \<in> {None, Some ''.zst'', Some ''.xz'', Some ''.bz2''}"
    using append_take_drop_id[of 52 r] by simp
next
  assume "p = ''nar/'' @ d @ ''.nar'' @ nar_ext e \<and> digest_text d \<and>
     e \<in> {None, Some ''.zst'', Some ''.xz'', Some ''.bz2''}"
  then show "std_nar_re p = Some (d, e)"
    by (auto simp: std_nar_re_def digest_text_def nar_ext_def list_all_iff subset_iff Let_def)
qed

lemma std_log_re_iff:
  "std_log_re p \<longleftrightarrow> (\<exists>n. p = ''log/'' @ n @ ''.drv'' \<and> n \<noteq> [] \<and> list_all log_char n)"
  by (auto simp: std_log_re_def strip_prefix_case strip_suffix_case)

lemma algo_no_colon: "list_all algo_char a \<Longrightarrow> CHR '':'' \<notin> set a"
proof -
  have "\<not> algo_char (CHR '':'')" by (simp add: algo_char_def less_eq_char_def)
  then show "list_all algo_char a \<Longrightarrow> CHR '':'' \<notin> set a" by (auto simp: list_all_iff)
qed

lemma b64_no_bang: "list_all b64_char h \<Longrightarrow> CHR ''!'' \<notin> set h"
proof -
  have "\<not> b64_char (CHR ''!'')"
    by (simp add: b64_char_def log_char_def storage_id_byte_def less_eq_char_def)
  then show "list_all b64_char h \<Longrightarrow> CHR ''!'' \<notin> set h" by (auto simp: list_all_iff)
qed

lemma std_realisation_re_iff: "std_realisation_re p \<longleftrightarrow> realisation_text p"
proof
  assume "std_realisation_re p"
  then obtain a h o' where
    "p = ''realisations/'' @ a @ CHR '':'' # h @ CHR ''!'' # o' @ ''.doi''"
    "a \<noteq> []" "h \<noteq> []" "o' \<noteq> []"
    "list_all algo_char a" "list_all b64_char h" "list_all out_char o'"
    unfolding std_realisation_re_def strip_prefix_case strip_suffix_case split_once_case by blast
  then show "realisation_text p"
    unfolding realisation_text_def
    by (intro exI[of _ a] exI[of _ h] exI[of _ o']) simp
next
  assume "realisation_text p"
  then obtain a h o' where
    p: "p = ''realisations/'' @ a @ CHR '':'' # h @ CHR ''!'' # o' @ ''.doi''"
    and ne: "a \<noteq> []" "h \<noteq> []" "o' \<noteq> []"
    and cs: "list_all algo_char a" "list_all b64_char h" "list_all out_char o'"
    by (auto simp: realisation_text_def)
  show "std_realisation_re p"
    unfolding p std_realisation_re_def
    using ne cs algo_no_colon[OF cs(1)] b64_no_bang[OF cs(2)]
    by simp
qed

interpretation std: regex_engine std_regexes
  by unfold_locales
    (simp add: regexes_ok_def std_regexes_def std_hash_re_iff std_nar_re_iff std_log_re_iff
      std_realisation_re_iff)

lemmas std_regexes_ok = std.contract

end
