(* ===== verification/NarInfo.thy ===== *)
theory NarInfo
  imports DepotPath
begin

text \<open>
  \<^verbatim>\<open>crates/depot-core/src/narinfo.rs\<close>: narinfo records, their parser and their renderer.
  The round trip is the main result: parsing a rendered narinfo gives its canonical form.
\<close>

record nar_info =
  ni_store_path :: string
  ni_url :: string
  ni_compression :: string
  ni_nar_hash :: nix_hash
  ni_nar_size :: "64 word"
  ni_references :: "string list"
  ni_deriver :: "string option"
  ni_signatures :: "string list"
  ni_ca :: "nix_content_address option"

datatype parse_nar_info_error =
    InvalidLine string
  | DuplicateField string
  | MissingField string
  | InvalidNarSize string

subsection \<open>Parsing\<close>

text \<open>The local variables of the parser's loop.\<close>

record nar_info_slots =
  sl_store_path :: "string option"
  sl_url :: "string option"
  sl_compression :: "string option"
  sl_nar_hash :: "nix_hash option"
  sl_nar_size :: "64 word option"
  sl_references :: "string list option"
  sl_deriver :: "string option"
  sl_signatures :: "string list"
  sl_ca :: "nix_content_address option"

definition empty_slots :: nar_info_slots where
  "empty_slots = \<lparr>sl_store_path = None, sl_url = None, sl_compression = None, sl_nar_hash = None,
     sl_nar_size = None, sl_references = None, sl_deriver = None, sl_signatures = [], sl_ca = None\<rparr>"

definition set_once :: "'a option \<Rightarrow> 'a \<Rightarrow> string \<Rightarrow> parse_nar_info_error + 'a option" where
  "set_once slot v field_name = (if slot \<noteq> None then Inl (DuplicateField field_name) else Inr (Some v))"

definition parse_references :: "store_dir \<Rightarrow> string \<Rightarrow> string list" where
  "parse_references d v =
     (if trim v = [] then [] else map (expand_display_path d) (split_whitespace v))"

definition parse_line ::
    "store_dir \<Rightarrow> nar_info_slots \<Rightarrow> string \<Rightarrow> parse_nar_info_error + nar_info_slots" where
  "parse_line d s raw =
    (if raw = [] then Inr s else
     case strip_prefix ''StorePath: '' raw of Some v \<Rightarrow>
       and_then (set_once (sl_store_path s) v ''StorePath'') (\<lambda>x. Inr (s\<lparr>sl_store_path := x\<rparr>)) | None \<Rightarrow>
    (case strip_prefix ''URL: '' raw of Some v \<Rightarrow>
       and_then (set_once (sl_url s) v ''URL'') (\<lambda>x. Inr (s\<lparr>sl_url := x\<rparr>)) | None \<Rightarrow>
    (case strip_prefix ''Compression: '' raw of Some v \<Rightarrow>
       and_then (set_once (sl_compression s) v ''Compression'') (\<lambda>x. Inr (s\<lparr>sl_compression := x\<rparr>)) | None \<Rightarrow>
    (case strip_prefix ''NarHash: '' raw of Some v \<Rightarrow>
       and_then (set_once (sl_nar_hash s) (Raw v) ''NarHash'') (\<lambda>x. Inr (s\<lparr>sl_nar_hash := x\<rparr>)) | None \<Rightarrow>
    (case strip_prefix ''NarSize: '' raw of Some v \<Rightarrow>
       and_then (ok_or (InvalidNarSize v) (parse_u64 v)) (\<lambda>n.
       and_then (set_once (sl_nar_size s) (word_of_nat n) ''NarSize'') (\<lambda>x. Inr (s\<lparr>sl_nar_size := x\<rparr>))) | None \<Rightarrow>
    (case strip_prefix ''References:'' raw of Some v \<Rightarrow>
       (if sl_references s \<noteq> None then Inl (DuplicateField ''References'')
        else Inr (s\<lparr>sl_references := Some (parse_references d v)\<rparr>)) | None \<Rightarrow>
    (case strip_prefix ''Deriver: '' raw of Some v \<Rightarrow>
       (if sl_deriver s \<noteq> None then Inl (DuplicateField ''Deriver'')
        else Inr (s\<lparr>sl_deriver := Some (expand_display_path d v)\<rparr>)) | None \<Rightarrow>
    (case strip_prefix ''Sig: '' raw of Some v \<Rightarrow>
       Inr (s\<lparr>sl_signatures := sl_signatures s @ [v]\<rparr>) | None \<Rightarrow>
    (case strip_prefix ''CA: '' raw of Some v \<Rightarrow>
       and_then (set_once (sl_ca s) (CaRaw v) ''CA'') (\<lambda>x. Inr (s\<lparr>sl_ca := x\<rparr>)) | None \<Rightarrow>
     if CHR '':'' \<in> set raw then Inr s else Inl (InvalidLine raw))))))))))"

fun parse_lines ::
    "store_dir \<Rightarrow> nar_info_slots \<Rightarrow> string list \<Rightarrow> parse_nar_info_error + nar_info_slots" where
  "parse_lines d s [] = Inr s"
| "parse_lines d s (l # ls) = and_then (parse_line d s l) (\<lambda>s'. parse_lines d s' ls)"

definition finish_slots :: "nar_info_slots \<Rightarrow> parse_nar_info_error + nar_info" where
  "finish_slots s =
     and_then (ok_or (MissingField ''StorePath'') (sl_store_path s)) (\<lambda>store_path.
     and_then (ok_or (MissingField ''URL'') (sl_url s)) (\<lambda>url.
     and_then (ok_or (MissingField ''Compression'') (sl_compression s)) (\<lambda>compression.
     and_then (ok_or (MissingField ''NarHash'') (sl_nar_hash s)) (\<lambda>nar_hash.
     and_then (ok_or (MissingField ''NarSize'') (sl_nar_size s)) (\<lambda>nar_size.
     and_then (ok_or (MissingField ''References'') (sl_references s)) (\<lambda>references.
     Inr \<lparr>ni_store_path = store_path, ni_url = url, ni_compression = compression,
          ni_nar_hash = nar_hash, ni_nar_size = nar_size, ni_references = references,
          ni_deriver = sl_deriver s, ni_signatures = sl_signatures s, ni_ca = sl_ca s\<rparr>))))))"

definition parse_narinfo :: "string \<Rightarrow> store_dir \<Rightarrow> parse_nar_info_error + nar_info" where
  "parse_narinfo input d = and_then (parse_lines d empty_slots (str_lines input)) finish_slots"

subsection \<open>Rendering\<close>

definition ni_normalized_nar_hash :: "b64_decoder \<Rightarrow> nar_info \<Rightarrow> nix_hash_error + normalized_nar_hash" where
  "ni_normalized_nar_hash b64 n = normalize b64 (ni_nar_hash n)"

definition ca_narinfo_string :: "b64_decoder \<Rightarrow> nar_info \<Rightarrow> string option" where
  "ca_narinfo_string b64 n = map_option (format_for_narinfo b64) (ni_ca n)"

definition sorted_references :: "nar_info \<Rightarrow> string list" where
  "sorted_references n = sort (ni_references n)"

definition sorted_signatures :: "nar_info \<Rightarrow> string list" where
  "sorted_signatures n = sort (ni_signatures n)"

definition render_references :: "store_dir \<Rightarrow> string list \<Rightarrow> string" where
  "render_references d refs =
     ''References:'' @
     (if refs = [] then '' '' else concat (map (\<lambda>r. '' '' @ display_path d r) refs)) @ [newline]"

definition render_with_signatures ::
    "b64_decoder \<Rightarrow> store_dir \<Rightarrow> nar_info \<Rightarrow> string list \<Rightarrow> nix_hash_error + string" where
  "render_with_signatures b64 d n signatures =
     and_then (ni_normalized_nar_hash b64 n) (\<lambda>nar_hash.
     let ca = ca_narinfo_string b64 n in
     Inr (''StorePath: '' @ ni_store_path n @ [newline] @
          ''URL: '' @ ni_url n @ [newline] @
          ''Compression: '' @ ni_compression n @ [newline] @
          ''NarHash: '' @ nar_hash_str nar_hash @ [newline] @
          ''NarSize: '' @ show_nat (unat (ni_nar_size n)) @ [newline] @
          render_references d (sorted_references n) @
          (case ni_deriver n of None \<Rightarrow> [] | Some deriver \<Rightarrow>
             ''Deriver: '' @ display_path d deriver @ [newline]) @
          (if signatures = [] then [] else
             concat (map (\<lambda>signature. ''Sig: '' @ signature @ [newline]) (sort signatures))) @
          (case ca of None \<Rightarrow> [] | Some c \<Rightarrow> ''CA: '' @ c @ [newline])))"

definition render :: "b64_decoder \<Rightarrow> store_dir \<Rightarrow> nar_info \<Rightarrow> nix_hash_error + string" where
  "render b64 d n = render_with_signatures b64 d n (ni_signatures n)"

text \<open>
  Compression hands the rendered text to the \<^verbatim>\<open>zstd\<close> crate, a parameter that may fail with
  an I/O error.
\<close>

datatype nar_info_compression_error = CompressionRender nix_hash_error | CompressionIo string

definition compress_narinfo ::
    "(string \<Rightarrow> string + bytes) \<Rightarrow> string \<Rightarrow> nar_info_compression_error + bytes" where
  "compress_narinfo zstd content = map_err CompressionIo (zstd content)"

definition compress_with_signatures ::
    "(string \<Rightarrow> string + bytes) \<Rightarrow> b64_decoder \<Rightarrow> store_dir \<Rightarrow> nar_info \<Rightarrow> string list
     \<Rightarrow> nar_info_compression_error + bytes" where
  "compress_with_signatures zstd b64 d n signatures =
     and_then (map_err CompressionRender (render_with_signatures b64 d n signatures))
       (compress_narinfo zstd)"

subsection \<open>Normalised hashes\<close>

lemma validate_digest_Inr:
  "validate_nix32_text_digest a digest = Inr u \<longleftrightarrow> a = Sha256 \<and> digest_text digest"
  by (cases a)
    (auto simp: validate_nix32_text_digest_def is_valid_nix_base32_alphabet_def digest_text_def
      list_all_iff)

lemma nar_hash_new_Inr:
  "nar_hash_new a digest = Inr h \<longleftrightarrow>
   a = Sha256 \<and> digest_text digest \<and> h = \<lparr>nh_algorithm = Sha256, nh_digest = digest\<rparr>"
  by (auto simp: nar_hash_new_def validate_digest_Inr)

lemma from_base64_Inr:
  "from_base64_digest b64 a digest = Inr h \<longleftrightarrow>
   a = Sha256 \<and> (\<exists>bs. b64 digest = Some bs \<and>
     h = \<lparr>nh_algorithm = Sha256, nh_digest = encode_nix_base32 bs\<rparr>)"
  by (cases a) (auto simp: from_base64_digest_def split: option.splits)

text \<open>Whatever its form, a hash normalises to SHA-256 and a digest over the alphabet.\<close>

definition sha256_text :: "normalized_nar_hash \<Rightarrow> bool" where
  "sha256_text h \<longleftrightarrow> nh_algorithm h = Sha256 \<and> set (nh_digest h) \<subseteq> set NIX_BASE32_ALPHABET"

lemma normalize_sha256:
  assumes "normalize b64 x = Inr h"
  shows "sha256_text h"
proof -
  have new: "sha256_text h" if "nar_hash_new a dg = Inr h" for a dg
    using that by (auto simp: nar_hash_new_Inr digest_text_def sha256_text_def)
  have b: "sha256_text h" if "from_base64_digest b64 a dg = Inr h" for a dg
    using that encode_alphabet by (fastforce simp: from_base64_Inr sha256_text_def)
  have t: "sha256_text h" if "parse_text b64 raw = Inr h" for raw
    using that new b
    by (cases "parse_hash_text raw") (auto simp: parse_text_def split: hash_text_syntax.splits)
  show ?thesis
    using assms new b t by (cases rule: from_nix_hash.cases[of "(b64, x)"]) auto
qed

lemma parse_text_prefixed:
  assumes "digest_text dg"
  shows "parse_text b64 (''sha256:'' @ dg) = Inr \<lparr>nh_algorithm = Sha256, nh_digest = dg\<rparr>"
  using assms
  by (simp add: parse_text_def parse_hash_text_def algorithm_parse_def nar_hash_new_def
      validate_digest_Inr)

lemma nar_hash_str_plain:
  "normalize b64 x = Inr h \<Longrightarrow> list_all plain (nar_hash_str h)"
  using normalize_sha256[of b64 x h] alphabet_plain
  by (auto simp: nar_hash_str_def list_all_iff plain_def sha256_text_def)

subsection \<open>Round trip\<close>

lemma parse_lines_line:
  "line_text l \<Longrightarrow> parse_lines d s (str_lines (l @ newline # t)) =
   and_then (parse_line d s l) (\<lambda>s'. parse_lines d s' (str_lines t))"
  by (simp add: str_lines_line)

lemma line_text_append: "line_text k \<Longrightarrow> line_text v \<Longrightarrow> line_text (k @ v)"
  by (cases v rule: rev_cases) (auto simp: line_text_def)

lemma trim_space_plain:
  assumes "v \<noteq> []" "plain (hd v)" "plain (last v)"
  shows "trim ('' '' @ v) = v"
proof -
  have "ws_at ('' '' @ v) = 1" by (simp add: ws_at_def ws1_def)
  then have "trim_start ('' '' @ v) = trim_start v" by (subst trim_start.simps) simp
  then have "trim ('' '' @ v) = trim v" by (simp add: trim_def)
  with assms show ?thesis by (simp add: trim_plain)
qed

lemma last_concat_words:
  "ws \<noteq> [] \<Longrightarrow> (\<And>w. w \<in> set ws \<Longrightarrow> w \<noteq> []) \<Longrightarrow>
   last (concat (map (\<lambda>w. '' '' @ w) ws)) = last (last ws)"
  by (induction ws) (auto simp: last_append)

lemma trim_words:
  assumes "ws \<noteq> []" "\<And>w. w \<in> set ws \<Longrightarrow> w \<noteq> [] \<and> list_all plain w"
  shows "trim (concat (map (\<lambda>w. '' '' @ w) ws)) \<noteq> []"
proof -
  obtain w rest where ws: "ws = w # rest" using assms(1) by (cases ws) auto
  define v where "v = w @ concat (map (\<lambda>w. '' '' @ w) rest)"
  have v: "concat (map (\<lambda>w. '' '' @ w) ws) = '' '' @ v" by (simp add: ws v_def)
  have w: "w \<noteq> []" "list_all plain w" using assms(2)[of w] ws by auto
  have "last v = last (last ws)"
    using last_concat_words[OF assms(1)] assms(2) v w by (auto simp: v_def last_append)
  moreover have "last ws \<noteq> []" "list_all plain (last ws)"
    using assms(2)[of "last ws"] assms(1) by auto
  ultimately have "plain (last v)" by (metis last_in_set list_all_iff)
  moreover have "plain (hd v)" "v \<noteq> []" using w by (auto simp: v_def list_all_iff)
  ultimately show ?thesis using trim_space_plain[of v] v by simp
qed

text \<open>The references a narinfo file can carry: paths of the store, in plain characters.\<close>

definition store_ref :: "store_dir \<Rightarrow> string \<Rightarrow> bool" where
  "store_ref d p \<longleftrightarrow> (case relative_path d p of None \<Rightarrow> False
     | Some r \<Rightarrow> p \<noteq> store_dir_str d \<and> r \<noteq> [] \<and> list_all plain r \<and> hd r \<noteq> CHR ''/'')"

lemma store_ref_iff:
  "store_ref d p \<longleftrightarrow>
   (\<exists>r. p = store_dir_str d @ ''/'' @ r \<and> r \<noteq> [] \<and> list_all plain r \<and> hd r \<noteq> CHR ''/'')"
proof
  assume "store_ref d p"
  then show "\<exists>r. p = store_dir_str d @ ''/'' @ r \<and> r \<noteq> [] \<and> list_all plain r \<and> hd r \<noteq> CHR ''/''"
    by (auto simp: store_ref_def relative_path_Some split: option.splits)
next
  assume "\<exists>r. p = store_dir_str d @ ''/'' @ r \<and> r \<noteq> [] \<and> list_all plain r \<and> hd r \<noteq> CHR ''/''"
  then show "store_ref d p" using relative_path_append[of d] by (auto simp: store_ref_def)
qed

definition absolute_dir :: "store_dir \<Rightarrow> bool" where
  "absolute_dir d \<longleftrightarrow> store_dir_str d \<noteq> [] \<and> hd (store_dir_str d) = CHR ''/''"

lemma expand_display:
  assumes "absolute_dir d" "relative_path d p = Some r" "p \<noteq> store_dir_str d" "r = [] \<or> hd r \<noteq> CHR ''/''"
  shows "expand_display_path d (display_path d p) = p"
  using assms relative_not_contained[of d r] expand_display_append[of d r]
  by (auto simp: absolute_dir_def relative_path_Some)

lemma expand_store_ref: "absolute_dir d \<Longrightarrow> store_ref d p \<Longrightarrow> expand_display_path d (display_path d p) = p"
  using expand_display by (auto simp: store_ref_def split: option.splits)

lemma parse_references_rendered:
  assumes "absolute_dir d" "\<And>r. r \<in> set refs \<Longrightarrow> store_ref d r"
  shows "parse_references d
      (if refs = [] then '' '' else concat (map (\<lambda>r. '' '' @ display_path d r) refs)) = refs"
proof (cases "refs = []")
  case True
  have "trim '' '' = []"
    by (simp add: trim_def trim_start.simps trim_end_rev.simps ws_at_def ws1_def)
  then show ?thesis using True by (simp add: parse_references_def)
next
  case False
  let ?ws = "map (display_path d) refs"
  have w: "w \<noteq> [] \<and> list_all plain w" if "w \<in> set ?ws" for w
    using that assms(2) by (fastforce simp: store_ref_iff)
  have c: "concat (map (\<lambda>r. '' '' @ display_path d r) refs) = concat (map (\<lambda>w. '' '' @ w) ?ws)"
    by (simp only: map_map comp_def)
  have "trim (concat (map (\<lambda>w. '' '' @ w) ?ws)) \<noteq> []"
    using trim_words[of ?ws] False w by blast
  moreover have "split_whitespace (concat (map (\<lambda>w. '' '' @ w) ?ws)) = ?ws"
    using split_whitespace_words[of ?ws "[]"] w by (simp add: split_whitespace_def)
  moreover have "map (expand_display_path d) ?ws = refs"
    using assms by (simp add: map_idI expand_store_ref)
  ultimately show ?thesis using False unfolding c parse_references_def by (simp only: if_False)
qed

lemma parse_field_lines:
  "sl_store_path s = None \<Longrightarrow>
   parse_line d s (''StorePath: '' @ v) = Inr (s\<lparr>sl_store_path := Some v\<rparr>)"
  "sl_url s = None \<Longrightarrow> parse_line d s (''URL: '' @ v) = Inr (s\<lparr>sl_url := Some v\<rparr>)"
  "sl_compression s = None \<Longrightarrow>
   parse_line d s (''Compression: '' @ v) = Inr (s\<lparr>sl_compression := Some v\<rparr>)"
  "sl_nar_hash s = None \<Longrightarrow>
   parse_line d s (''NarHash: '' @ v) = Inr (s\<lparr>sl_nar_hash := Some (Raw v)\<rparr>)"
  "sl_references s = None \<Longrightarrow>
   parse_line d s (''References:'' @ v) = Inr (s\<lparr>sl_references := Some (parse_references d v)\<rparr>)"
  "sl_deriver s = None \<Longrightarrow>
   parse_line d s (''Deriver: '' @ v) = Inr (s\<lparr>sl_deriver := Some (expand_display_path d v)\<rparr>)"
  "parse_line d s (''Sig: '' @ v) = Inr (s\<lparr>sl_signatures := sl_signatures s @ [v]\<rparr>)"
  "sl_ca s = None \<Longrightarrow> parse_line d s (''CA: '' @ v) = Inr (s\<lparr>sl_ca := Some (CaRaw v)\<rparr>)"
  by (simp_all add: parse_line_def set_once_def)

lemma parse_size_line:
  "sl_nar_size s = None \<Longrightarrow>
   parse_line d s (''NarSize: '' @ show_nat (unat w)) = Inr (s\<lparr>sl_nar_size := Some w\<rparr>)"
proof -
  assume a: "sl_nar_size s = None"
  have "unat w < 2 ^ LENGTH(64)" by (rule unsigned_less)
  then have "parse_u64 (show_nat (unat w)) = Some (unat w)" by (intro parse_show) simp
  with a show ?thesis by (simp add: parse_line_def set_once_def)
qed

lemma parse_sig_lines:
  "(\<And>v. v \<in> set sigs \<Longrightarrow> line_text v) \<Longrightarrow>
   parse_lines d s (str_lines (concat (map (\<lambda>v. ''Sig: '' @ v @ [newline]) sigs) @ t)) =
   parse_lines d (s\<lparr>sl_signatures := sl_signatures s @ sigs\<rparr>) (str_lines t)"
proof (induction sigs arbitrary: s)
  case (Cons v sigs)
  have "line_text (''Sig: '' @ v)" using Cons.prems by (intro line_text_append) (auto simp: line_text_def)
  then have "parse_lines d s (str_lines ((''Sig: '' @ v) @ newline #
        (concat (map (\<lambda>v. ''Sig: '' @ v @ [newline]) sigs) @ t))) =
      parse_lines d (s\<lparr>sl_signatures := sl_signatures s @ [v]\<rparr>)
        (str_lines (concat (map (\<lambda>v. ''Sig: '' @ v @ [newline]) sigs) @ t))"
    by (subst parse_lines_line) (simp_all only: parse_field_lines and_then.simps)
  then show ?case using Cons by simp
qed simp

text \<open>The text of the fields of a narinfo, as far as the line syntax can carry it.\<close>

definition wire_ok :: "b64_decoder \<Rightarrow> store_dir \<Rightarrow> nar_info \<Rightarrow> bool" where
  "wire_ok b64 d n \<longleftrightarrow>
     line_text (ni_store_path n) \<and> line_text (ni_url n) \<and> line_text (ni_compression n) \<and>
     list_all (store_ref d) (ni_references n) \<and> list_all line_text (ni_signatures n) \<and>
     (case ni_deriver n of None \<Rightarrow> True | Some p \<Rightarrow> store_ref d p) \<and>
     (case ca_narinfo_string b64 n of None \<Rightarrow> True | Some c \<Rightarrow> line_text c)"

definition canonical :: "b64_decoder \<Rightarrow> nar_info \<Rightarrow> normalized_nar_hash \<Rightarrow> nar_info" where
  "canonical b64 n h = n\<lparr>ni_nar_hash := Raw (nar_hash_str h), ni_references := sorted_references n,
     ni_signatures := sorted_signatures n, ni_ca := map_option CaRaw (ca_narinfo_string b64 n)\<rparr>"

lemma key_line_text:
  "line_text v \<Longrightarrow> line_text (''StorePath: '' @ v)" "line_text v \<Longrightarrow> line_text (''URL: '' @ v)"
  "line_text v \<Longrightarrow> line_text (''Compression: '' @ v)" "line_text v \<Longrightarrow> line_text (''NarHash: '' @ v)"
  "line_text v \<Longrightarrow> line_text (''NarSize: '' @ v)" "line_text v \<Longrightarrow> line_text (''References:'' @ v)"
  "line_text v \<Longrightarrow> line_text (''Deriver: '' @ v)" "line_text v \<Longrightarrow> line_text (''CA: '' @ v)"
  by (intro line_text_append; simp add: line_text_def)+

lemma line_text_concat: "(\<And>x. x \<in> set xs \<Longrightarrow> line_text (f x)) \<Longrightarrow> line_text (concat (map f xs))"
proof (induction xs)
  case (Cons x xs)
  then show ?case using line_text_append[of "f x"] by simp
qed (simp add: line_text_def)

lemma store_ref_display: "store_ref d r \<Longrightarrow> line_text (display_path d r)"
  by (auto simp: store_ref_iff plain_line_text)

lemma references_line_text:
  assumes "\<And>r. r \<in> set refs \<Longrightarrow> store_ref d r"
  shows "line_text (if refs = [] then '' '' else concat (map (\<lambda>r. '' '' @ display_path d r) refs))"
proof -
  have "line_text ('' '' @ display_path d r)" if "r \<in> set refs" for r
    using line_text_append[of "'' ''"] store_ref_display[OF assms[OF that]]
    by (simp add: line_text_def)
  then have "line_text (concat (map (\<lambda>r. '' '' @ display_path d r) refs))"
    by (rule line_text_concat)
  then show ?thesis by (simp only: if_split) (simp add: line_text_def)
qed

lemma parse_key_line:
  assumes "line_text l" "parse_line d s l = Inr s'"
  shows "parse_lines d s (str_lines (l @ [newline] @ t)) = parse_lines d s' (str_lines t)"
  using parse_lines_line[OF assms(1), of d s t] assms(2) by simp

lemma parse_deriver_part:
  assumes "absolute_dir d" "sl_deriver s = None"
    "case p of None \<Rightarrow> True | Some x \<Rightarrow> store_ref d x"
  shows "parse_lines d s (str_lines ((case p of None \<Rightarrow> [] | Some deriver \<Rightarrow>
           ''Deriver: '' @ display_path d deriver @ [newline]) @ t)) =
         parse_lines d (s\<lparr>sl_deriver := p\<rparr>) (str_lines t)"
proof (cases p)
  case None
  with assms show ?thesis by (cases s) simp
next
  case (Some x)
  then have "store_ref d x" using assms by simp
  with Some assms show ?thesis
    using parse_key_line[of "''Deriver: '' @ display_path d x" d s "s\<lparr>sl_deriver := Some x\<rparr>" t]
      key_line_text(7)[OF store_ref_display] parse_field_lines(6)[of s d "display_path d x"]
      expand_store_ref by (simp only: option.case append_assoc)
qed

lemma parse_ca_part:
  assumes "sl_ca s = None" "case ca of None \<Rightarrow> True | Some c \<Rightarrow> line_text c"
  shows "parse_lines d s (str_lines (case ca of None \<Rightarrow> [] | Some c \<Rightarrow> ''CA: '' @ c @ [newline])) =
         Inr (s\<lparr>sl_ca := map_option CaRaw ca\<rparr>)"
proof (cases ca)
  case None
  with assms show ?thesis by (cases s) simp
next
  case (Some c)
  with assms show ?thesis
    using parse_key_line[of "''CA: '' @ c" d s "s\<lparr>sl_ca := Some (CaRaw c)\<rparr>" "[]"]
      key_line_text(8)[of c] parse_field_lines(8)[of s d c]
    by (simp only: option.case append_assoc append_Nil2 str_lines_Nil parse_lines.simps option.map)
qed

lemma parse_rendered:
  assumes d: "absolute_dir d" and w: "wire_ok b64 d n"
    and h: "ni_normalized_nar_hash b64 n = Inr h"
    and r: "render b64 d n = Inr out"
  shows "parse_narinfo out d = Inr (canonical b64 n h)"
proof -
  let ?refs = "sorted_references n"
  let ?rv = "if ?refs = [] then '' '' else concat (map (\<lambda>r. '' '' @ display_path d r) ?refs)"
  let ?sg = "concat (map (\<lambda>signature. ''Sig: '' @ signature @ [newline]) (sort (ni_signatures n)))"
  let ?ca = "ca_narinfo_string b64 n"
  have refs: "\<And>x. x \<in> set ?refs \<Longrightarrow> store_ref d x" and
    sigs: "\<And>x. x \<in> set (sort (ni_signatures n)) \<Longrightarrow> line_text x"
    using w by (auto simp: sorted_references_def wire_ok_def list_all_iff)
  have hl: "line_text (nar_hash_str h)"
    using h nar_hash_str_plain plain_line_text by (simp add: ni_normalized_nar_hash_def)
  have sl: "line_text (show_nat (unat (ni_nar_size n)))" using show_nat_plain plain_line_text by simp
  have rv: "parse_references d ?rv = ?refs" by (rule parse_references_rendered[OF d refs])
  have sigs_if: "(if ni_signatures n = [] then [] else ?sg) = ?sg" by simp
  have out: "out = (''StorePath: '' @ ni_store_path n) @ [newline] @
      (''URL: '' @ ni_url n) @ [newline] @ (''Compression: '' @ ni_compression n) @ [newline] @
      (''NarHash: '' @ nar_hash_str h) @ [newline] @
      (''NarSize: '' @ show_nat (unat (ni_nar_size n))) @ [newline] @
      (''References:'' @ ?rv) @ [newline] @
      (case ni_deriver n of None \<Rightarrow> [] | Some deriver \<Rightarrow>
         ''Deriver: '' @ display_path d deriver @ [newline]) @ ?sg @
      (case ?ca of None \<Rightarrow> [] | Some c \<Rightarrow> ''CA: '' @ c @ [newline])"
    using r h unfolding render_def render_with_signatures_def render_references_def Let_def
    by (simp only: and_then.simps sum.inject append_assoc sigs_if)
  have wl: "line_text (ni_store_path n)" "line_text (ni_url n)" "line_text (ni_compression n)"
    "case ni_deriver n of None \<Rightarrow> True | Some p \<Rightarrow> store_ref d p"
    "case ?ca of None \<Rightarrow> True | Some c \<Rightarrow> line_text c"
    using w by (simp_all add: wire_ok_def)
  show ?thesis
    unfolding parse_narinfo_def out
    apply (subst parse_key_line, rule key_line_text(1)[OF wl(1)], rule parse_field_lines(1), simp add: empty_slots_def)
    apply (subst parse_key_line, rule key_line_text(2)[OF wl(2)], rule parse_field_lines(2), simp add: empty_slots_def)
    apply (subst parse_key_line, rule key_line_text(3)[OF wl(3)], rule parse_field_lines(3), simp add: empty_slots_def)
    apply (subst parse_key_line, rule key_line_text(4)[OF hl], rule parse_field_lines(4), simp add: empty_slots_def)
    apply (subst parse_key_line, rule key_line_text(5)[OF sl], rule parse_size_line, simp add: empty_slots_def)
    apply (subst parse_key_line, rule key_line_text(6)[OF references_line_text[OF refs]], assumption,
        rule parse_field_lines(5), simp add: empty_slots_def)
    apply (subst parse_deriver_part[OF d _ wl(4)], simp add: empty_slots_def)
    apply (subst parse_sig_lines[OF sigs], assumption)
    apply (subst parse_ca_part[OF _ wl(5)], simp add: empty_slots_def)
    by (simp only: rv and_then.simps)
      (simp add: finish_slots_def empty_slots_def canonical_def sorted_signatures_def)
qed

subsection \<open>Fields of a parsed narinfo\<close>

definition line_count :: "string \<Rightarrow> string list \<Rightarrow> nat" where
  "line_count k ls = length (filter (starts_with k) ls)"

definition sig_lines :: "string list \<Rightarrow> string list" where
  "sig_lines ls = map (drop 5) (filter (starts_with ''Sig: '') ls)"

fun filled :: "'a option \<Rightarrow> nat" where
  "filled None = 0"
| "filled (Some x) = 1"

lemma filled_le [simp]: "filled x \<le> Suc 0"
  by (cases x) auto

definition slot_counts :: "nar_info_slots \<Rightarrow> nat list" where
  "slot_counts s = [filled (sl_store_path s), filled (sl_url s),
     filled (sl_compression s), filled (sl_nar_hash s),
     filled (sl_nar_size s), filled (sl_references s),
     filled (sl_deriver s), filled (sl_ca s)]"

definition line_counts :: "string list \<Rightarrow> nat list" where
  "line_counts ls = [line_count ''StorePath: '' ls, line_count ''URL: '' ls,
     line_count ''Compression: '' ls, line_count ''NarHash: '' ls, line_count ''NarSize: '' ls,
     line_count ''References:'' ls, line_count ''Deriver: '' ls, line_count ''CA: '' ls]"

lemma starts_with_append [simp]: "starts_with k (k @ v)"
  by (simp add: starts_with_iff)

lemma starts_with_None: "strip_prefix k l = None \<Longrightarrow> \<not> starts_with k l"
  by (auto simp: starts_with_iff prefix_def)

definition line_keys :: "string list" where
  "line_keys = [''StorePath: '', ''URL: '', ''Compression: '', ''NarHash: '', ''NarSize: '',
     ''References:'', ''Deriver: '', ''Sig: '', ''CA: '']"

lemma line_kinds:
  obtains (key) k v where "k \<in> set line_keys" "l = k @ v"
  | (other) "\<And>k. k \<in> set line_keys \<Longrightarrow> strip_prefix k l = None"
  by (metis strip_prefix_Some not_None_eq)

lemma parse_line_other:
  assumes "\<And>k. k \<in> set line_keys \<Longrightarrow> strip_prefix k l = None" "parse_line d s l = Inr s'"
  shows "s' = s"
proof -
  have "strip_prefix k l = None" if "k \<in> set line_keys" for k using assms(1) that .
  then have "strip_prefix ''StorePath: '' l = None" "strip_prefix ''URL: '' l = None"
    "strip_prefix ''Compression: '' l = None" "strip_prefix ''NarHash: '' l = None"
    "strip_prefix ''NarSize: '' l = None" "strip_prefix ''References:'' l = None"
    "strip_prefix ''Deriver: '' l = None" "strip_prefix ''Sig: '' l = None"
    "strip_prefix ''CA: '' l = None"
    by (simp_all only: line_keys_def list.set insert_iff simp_thms)
  with assms(2) show ?thesis
    by (simp only: parse_line_def option.case split: if_splits) simp_all
qed

lemma other_counts:
  assumes "\<And>k. k \<in> set line_keys \<Longrightarrow> strip_prefix k l = None"
  shows "line_counts [l] = replicate 8 0" "sig_lines [l] = []"
proof -
  have "line_count k [l] = 0" if "k \<in> set line_keys" for k
    using assms[OF that] by (simp add: line_count_def starts_with_def)
  then have "\<forall>k\<in>set line_keys. line_count k [l] = 0" by blast
  then have z: "list_all (\<lambda>k. line_count k [l] = 0) line_keys" by (simp only: list_all_iff)
  have zs: "line_counts [l] = replicate 8 0 \<and> line_count ''Sig: '' [l] = 0"
    using z unfolding line_keys_def list.pred_inject line_counts_def
    by (elim conjE) (simp add: eval_nat_numeral)
  then show "line_counts [l] = replicate 8 0" by blast
  show "sig_lines [l] = []"
    using zs by (simp only: line_count_def sig_lines_def length_0_conv list.map)
qed

lemma starts_with_simps [str_simps]:
  "starts_with [] s" "\<not> starts_with (p # ps) []"
  "starts_with (p # ps) (c # cs) \<longleftrightarrow> p = c \<and> starts_with ps cs"
  by (simp_all add: starts_with_def)

text \<open>What a line with a known key counts, and what it leaves in the slots.\<close>

lemmas counts_defs = line_counts_def line_count_def sig_lines_def str_simps

definition counts_ok :: "store_dir \<Rightarrow> nar_info_slots \<Rightarrow> nar_info_slots \<Rightarrow> string \<Rightarrow> bool" where
  "counts_ok d s s' l \<longleftrightarrow> (parse_line d s l = Inr s' \<longrightarrow>
     slot_counts s' = map2 (+) (slot_counts s) (line_counts [l]) \<and>
     sl_signatures s' = sl_signatures s @ sig_lines [l])"

lemma counts_okI:
  assumes "parse_line d s l = Inr s' \<Longrightarrow> slot_counts s' = map2 (+) (slot_counts s) cs \<and>
      sl_signatures s' = sl_signatures s @ sg"
    and "line_counts [l] = cs" "sig_lines [l] = sg"
  shows "counts_ok d s s' l"
  using assms by (simp add: counts_ok_def)

lemma counts_store_path: "counts_ok d s s' (''StorePath: '' @ v)"
  by (rule counts_okI[where cs = "[1, 0, 0, 0, 0, 0, 0, 0]" and sg = "[]"])
    ((auto simp: parse_line_def set_once_def slot_counts_def split: if_splits)[1],
      simp_all add: counts_defs)

lemma counts_url: "counts_ok d s s' (''URL: '' @ v)"
  by (rule counts_okI[where cs = "[0, 1, 0, 0, 0, 0, 0, 0]" and sg = "[]"])
    ((auto simp: parse_line_def set_once_def slot_counts_def split: if_splits)[1],
      simp_all add: counts_defs)

lemma counts_compression: "counts_ok d s s' (''Compression: '' @ v)"
  by (rule counts_okI[where cs = "[0, 0, 1, 0, 0, 0, 0, 0]" and sg = "[]"])
    ((auto simp: parse_line_def set_once_def slot_counts_def split: if_splits)[1],
      simp_all add: counts_defs)

lemma counts_nar_hash: "counts_ok d s s' (''NarHash: '' @ v)"
  by (rule counts_okI[where cs = "[0, 0, 0, 1, 0, 0, 0, 0]" and sg = "[]"])
    ((auto simp: parse_line_def set_once_def slot_counts_def split: if_splits)[1],
      simp_all add: counts_defs)

lemma counts_nar_size: "counts_ok d s s' (''NarSize: '' @ v)"
  by (cases "parse_u64 v"; rule counts_okI[where cs = "[0, 0, 0, 0, 1, 0, 0, 0]" and sg = "[]"])
    (simp_all add: counts_defs, simp_all add: parse_line_def set_once_def split: if_splits,
      auto simp: slot_counts_def)

lemma counts_references: "counts_ok d s s' (''References:'' @ v)"
  by (rule counts_okI[where cs = "[0, 0, 0, 0, 0, 1, 0, 0]" and sg = "[]"])
    ((auto simp: parse_line_def set_once_def slot_counts_def split: if_splits)[1],
      simp_all add: counts_defs)

lemma counts_deriver: "counts_ok d s s' (''Deriver: '' @ v)"
  by (rule counts_okI[where cs = "[0, 0, 0, 0, 0, 0, 1, 0]" and sg = "[]"])
    ((auto simp: parse_line_def set_once_def slot_counts_def split: if_splits)[1],
      simp_all add: counts_defs)

lemma counts_ca: "counts_ok d s s' (''CA: '' @ v)"
  by (rule counts_okI[where cs = "[0, 0, 0, 0, 0, 0, 0, 1]" and sg = "[]"])
    ((auto simp: parse_line_def set_once_def slot_counts_def split: if_splits)[1],
      simp_all add: counts_defs)

lemma counts_signature: "counts_ok d s s' (''Sig: '' @ v)"
  by (rule counts_okI[where cs = "[0, 0, 0, 0, 0, 0, 0, 0]" and sg = "[v]"])
    ((auto simp: parse_line_def slot_counts_def)[1], simp_all add: counts_defs)

lemma parse_key_counts:
  assumes "k \<in> set line_keys"
  shows "counts_ok d s s' (k @ v)"
proof -
  have "list_all (\<lambda>k. counts_ok d s s' (k @ v)) line_keys"
    unfolding line_keys_def list.pred_inject
    by (intro conjI counts_store_path counts_url counts_compression counts_nar_hash counts_nar_size
        counts_references counts_deriver counts_signature counts_ca TrueI) simp
  with assms show ?thesis by (simp only: list_all_iff)
qed

lemma parse_line_counts:
  assumes "parse_line d s l = Inr s'"
  shows "slot_counts s' = map2 (+) (slot_counts s) (line_counts [l]) \<and>
    sl_signatures s' = sl_signatures s @ sig_lines [l]"
proof (cases l rule: line_kinds)
  case (key k v)
  with assms parse_key_counts[of k d s s' v] show ?thesis by (simp only: counts_ok_def)
next
  case other
  then have "s' = s" using parse_line_other assms by blast
  with other_counts[OF other] show ?thesis by (simp add: slot_counts_def eval_nat_numeral)
qed

lemma line_counts_Cons: "line_counts (l # ls) = map2 (+) (line_counts [l]) (line_counts ls)"
  by (simp add: line_counts_def line_count_def)

lemma sig_lines_Cons: "sig_lines (l # ls) = sig_lines [l] @ sig_lines ls"
  by (simp add: sig_lines_def)

lemma parse_lines_counts:
  "parse_lines d s ls = Inr s' \<Longrightarrow>
   slot_counts s' = map2 (+) (slot_counts s) (line_counts ls) \<and>
   sl_signatures s' = sl_signatures s @ sig_lines ls"
proof (induction ls arbitrary: s)
  case Nil
  then show ?case by (simp add: slot_counts_def line_counts_def line_count_def sig_lines_def)
next
  case (Cons l ls)
  then obtain t where t: "parse_line d s l = Inr t" "parse_lines d t ls = Inr s'" by auto
  have "slot_counts s' = map2 (+) (slot_counts t) (line_counts ls) \<and>
      sl_signatures s' = sl_signatures t @ sig_lines ls" by (rule Cons.IH[OF t(2)])
  with parse_line_counts[OF t(1)] show ?case
    by (subst line_counts_Cons, subst sig_lines_Cons) (simp add: slot_counts_def line_counts_def)
qed

lemma parse_narinfo_fields:
  assumes "parse_narinfo input d = Inr n"
  shows "take 6 (line_counts (str_lines input)) = replicate 6 1 \<and>
    list_all (\<lambda>c. c \<le> 1) (line_counts (str_lines input)) \<and>
    ni_signatures n = sig_lines (str_lines input)"
proof -
  obtain s where s: "parse_lines d empty_slots (str_lines input) = Inr s" "finish_slots s = Inr n"
    using assms by (auto simp: parse_narinfo_def)
  have c: "slot_counts s = line_counts (str_lines input)" "sl_signatures s = sig_lines (str_lines input)"
    using parse_lines_counts[OF s(1)] by (simp_all add: slot_counts_def empty_slots_def line_counts_def)
  have "ni_signatures n = sl_signatures s" "take 6 (slot_counts s) = replicate 6 1"
    "list_all (\<lambda>c. c \<le> 1) (slot_counts s)"
    using s(2) by (auto simp: finish_slots_def slot_counts_def eval_nat_numeral)
  with c show ?thesis by simp
qed


lemma sort_again: "sort (sort xs) = sort xs" "sort xs = [] \<longleftrightarrow> xs = []"
  by (simp_all add: sorted_sort_id) (metis length_0_conv length_sort)

text \<open>(canonical form). Rendering the canonical form of a narinfo gives the same text: the
  renderer does not depend on the order in which references and signatures were collected, nor on
  the form of the hash, as long as the digest has the length of a SHA-256 digest.\<close>

theorem render_canonical:
  assumes "ni_normalized_nar_hash b64 n = Inr h" "digest_text (nh_digest h)"
  shows "render b64 d (canonical b64 n h) = render b64 d n"
proof -
  have a: "nh_algorithm h = Sha256"
    using assms(1) normalize_sha256 by (auto simp: ni_normalized_nar_hash_def sha256_text_def)
  have "h = \<lparr>nh_algorithm = Sha256, nh_digest = nh_digest h\<rparr>" using a by simp
  then have "ni_normalized_nar_hash b64 (canonical b64 n h) = Inr h"
    using parse_text_prefixed[OF assms(2), of b64]
    by (simp add: canonical_def ni_normalized_nar_hash_def nar_hash_str_def a)
  moreover have "ca_narinfo_string b64 (canonical b64 n h) = ca_narinfo_string b64 n"
    by (cases "ni_ca n") (simp_all add: ca_narinfo_string_def canonical_def)
  ultimately show ?thesis using assms(1)
    by (simp add: render_def render_with_signatures_def sorted_references_def sorted_signatures_def
        canonical_def sort_again)
qed

text \<open>C24 (fields). A text that parses has each required field on exactly one line and the
  optional fields on at most one; the signatures are those of the \<^verbatim>\<open>Sig\<close> lines, in order.\<close>

theorem parse_narinfo_exactly_once:
  assumes "parse_narinfo input d = Inr n"
  shows "take 6 (line_counts (str_lines input)) = replicate 6 1 \<and>
    list_all (\<lambda>c. c \<le> 1) (line_counts (str_lines input)) \<and>
    ni_signatures n = sig_lines (str_lines input)"
  using assms by (rule parse_narinfo_fields)

subsection \<open>Instances\<close>

definition sample_info :: nar_info where
  "sample_info = \<lparr>ni_store_path = ''/nix/store/s66mzxpvicwk07gjbjfw9izjfa797vsw-hello'',
     ni_url = ''nar/x.nar.zst'', ni_compression = ''zstd'',
     ni_nar_hash = Structured Sha256 (Some NixBase32) (replicate 52 (CHR ''0'')), ni_nar_size = 226560,
     ni_references = [''/nix/store/b-glibc'', ''/nix/store/a-gcc''],
     ni_deriver = Some ''/nix/store/d-hello.drv'', ni_signatures = [''k2:s'', ''k1:s''], ni_ca = None\<rparr>"

abbreviation no_base64 :: b64_decoder where "no_base64 \<equiv> (\<lambda>_. None)"

lemma sample_dir: "absolute_dir default_nix"
  by (simp add: absolute_dir_def default_nix_def DEFAULT_STORE_DIR_def)

lemma sample_wire: "wire_ok no_base64 default_nix sample_info"
  by code_simp

lemma sample_digest: "digest_text (nh_digest
    \<lparr>nh_algorithm = Sha256, nh_digest = replicate 52 (CHR ''0'')\<rparr>)"
  by code_simp

lemma sample_hash: "ni_normalized_nar_hash no_base64 sample_info =
    Inr \<lparr>nh_algorithm = Sha256, nh_digest = replicate 52 (CHR ''0'')\<rparr>"
  using sample_digest by (simp add: ni_normalized_nar_hash_def sample_info_def nar_hash_new_Inr)

lemma sample_render: "\<exists>out. render no_base64 default_nix sample_info = Inr out"
  using sample_hash by (simp add: render_def render_with_signatures_def)


theorem render_canonical_witness:
  "render no_base64 default_nix (canonical no_base64 sample_info
     \<lparr>nh_algorithm = Sha256, nh_digest = replicate 52 (CHR ''0'')\<rparr>) =
   render no_base64 default_nix sample_info"
  by (rule render_canonical[OF sample_hash]) (rule sample_digest)

theorem parse_narinfo_exactly_once_witness:
  "\<exists>out n. parse_narinfo out default_nix = Inr n \<and> ni_signatures n = sig_lines (str_lines out)"
proof -
  obtain out n where "parse_narinfo out default_nix = Inr n"
    using sample_render parse_rendered[OF sample_dir sample_wire sample_hash] by blast
  then show ?thesis using parse_narinfo_exactly_once by blast
qed

end
