(* ===== verification/Signing.thy ===== *)
theory Signing
  imports NarInfo
begin

text \<open>
  \<^verbatim>\<open>crates/depot-core/src/signing.rs\<close> and \<^verbatim>\<open>key_crypto.rs\<close>: named signing keys, the
  fingerprint of a narinfo and its signatures, and the encryption of stored signing keys. The
  crates \<^verbatim>\<open>base64\<close>, \<^verbatim>\<open>ed25519-dalek\<close>, \<^verbatim>\<open>chacha20poly1305\<close> and \<^verbatim>\<open>getrandom\<close>
  are parameters; \<open>'k\<close> is the type of Ed25519 signing keys.
\<close>

subsection \<open>Bytes and UTF-8\<close>

definition into_bytes :: "string \<Rightarrow> bytes" where
  "into_bytes s = map (\<lambda>c. word_of_nat (byte_of c)) s"

definition bytes_text :: "bytes \<Rightarrow> string" where
  "bytes_text bs = map (\<lambda>b. char_of (unat b)) bs"

lemma bytes_text_into_bytes [simp]: "bytes_text (into_bytes s) = s"
proof -
  have "unat (word_of_nat (byte_of c) :: 8 word) = byte_of c" for c :: char
    using rangeI[of "of_char :: char \<Rightarrow> nat" c] by (simp add: unat_of_nat range_nat_of_char)
  then show ?thesis by (simp add: bytes_text_def into_bytes_def comp_def)
qed

text \<open>Well-formed UTF-8 (the table of the Unicode standard), as \<^verbatim>\<open>String::from_utf8\<close> checks.\<close>

definition cont_byte :: "nat \<Rightarrow> bool" where
  "cont_byte b \<longleftrightarrow> 0x80 \<le> b \<and> b \<le> 0xBF"

definition utf8_len :: "nat list \<Rightarrow> nat" where
  "utf8_len s = (case s of [] \<Rightarrow> 0 | a # t \<Rightarrow>
     if a < 0x80 then 1 else (case t of [] \<Rightarrow> 0 | b # t2 \<Rightarrow>
     if 0xC2 \<le> a \<and> a \<le> 0xDF then (if cont_byte b then 2 else 0) else (case t2 of [] \<Rightarrow> 0 | c # t3 \<Rightarrow>
     if (a = 0xE0 \<and> 0xA0 \<le> b \<and> b \<le> 0xBF \<or> 0xE1 \<le> a \<and> a \<le> 0xEF \<and> a \<noteq> 0xED \<and> cont_byte b
         \<or> a = 0xED \<and> 0x80 \<le> b \<and> b \<le> 0x9F)
     then (if cont_byte c then 3 else 0) else (case t3 of [] \<Rightarrow> 0 | d # _ \<Rightarrow>
     if (a = 0xF0 \<and> 0x90 \<le> b \<and> b \<le> 0xBF \<or> 0xF1 \<le> a \<and> a \<le> 0xF3 \<and> cont_byte b
         \<or> a = 0xF4 \<and> 0x80 \<le> b \<and> b \<le> 0x8F) \<and> cont_byte c \<and> cont_byte d then 4 else 0))))"

function utf8_ok :: "nat list \<Rightarrow> bool" where
  "utf8_ok s = (if s = [] then True else if utf8_len s = 0 then False
     else utf8_ok (drop (utf8_len s) s))"
  by pat_completeness auto
termination
  by (relation "measure length") auto

declare utf8_ok.simps [simp del]

lemma utf8_ok_ascii: "list_all (\<lambda>b. b < 0x80) s \<Longrightarrow> utf8_ok s"
proof (induction s)
  case Nil
  then show ?case by (subst utf8_ok.simps) simp
next
  case (Cons b s)
  then show ?case by (subst utf8_ok.simps) (simp add: utf8_len_def)
qed

definition from_utf8 :: "bytes \<Rightarrow> string option" where
  "from_utf8 bs = (if utf8_ok (map unat bs) then Some (bytes_text bs) else None)"

lemma utf8_ok_text: "ascii s \<Longrightarrow> utf8_ok (map unat (into_bytes s))"
  by (rule utf8_ok_ascii) (auto simp: list_all_iff ascii_def into_bytes_def unat_of_nat)

lemma from_utf8_text: "ascii s \<Longrightarrow> from_utf8 (into_bytes s) = Some s"
  by (simp add: from_utf8_def utf8_ok_text)

subsection \<open>The crates\<close>

text \<open>A base64 alphabet of the \<^verbatim>\<open>base64\<close> crate, with and without padding.\<close>

record base64_codec =
  b64_encode :: "bytes \<Rightarrow> string"
  b64_decode :: "string \<Rightarrow> string + bytes"
  b64_decode_no_pad :: "string \<Rightarrow> string + bytes"

record 'k ed25519 =
  ed_from_bytes :: "bytes \<Rightarrow> 'k"
  ed_from_keypair :: "bytes \<Rightarrow> string + 'k"
  ed_to_bytes :: "'k \<Rightarrow> bytes"
  ed_verifying_key :: "'k \<Rightarrow> bytes"
  ed_sign :: "'k \<Rightarrow> bytes \<Rightarrow> bytes"

record aead =
  aead_encrypt :: "bytes \<Rightarrow> bytes \<Rightarrow> bytes \<Rightarrow> bytes \<Rightarrow> bytes option" \<comment> \<open>key, nonce, message, aad\<close>
  aead_decrypt :: "bytes \<Rightarrow> bytes \<Rightarrow> bytes \<Rightarrow> bytes \<Rightarrow> bytes option"

text \<open>What the crates document.\<close>

definition codec_ok :: "base64_codec \<Rightarrow> bool" where
  "codec_ok c \<longleftrightarrow> (\<forall>bs. b64_decode c (b64_encode c bs) = Inr bs \<and> list_all plain (b64_encode c bs))"

definition ed25519_ok :: "'k ed25519 \<Rightarrow> bool" where
  "ed25519_ok ed \<longleftrightarrow> (\<forall>k. length (ed_to_bytes ed k) = 32 \<and> ed_from_bytes ed (ed_to_bytes ed k) = k)"

definition aead_ok :: "aead \<Rightarrow> bool" where
  "aead_ok a \<longleftrightarrow> (\<forall>key nonce msg aad ct.
     aead_encrypt a key nonce msg aad = Some ct \<longrightarrow> aead_decrypt a key nonce ct aad = Some msg)"

subsection \<open>Signing keys\<close>

datatype parse_signing_key_error =
    MissingSeparator
  | EmptyName
  | SignInvalidBase64 string
  | InvalidKeyLength nat
  | InvalidKeypair string

datatype generate_signing_key_error = GenEmptyName | GenRandom string

record 'k named_signing_key =
  nk_name :: string
  nk_key :: 'k

definition decode_base64_standard_or_raw :: "base64_codec \<Rightarrow> string \<Rightarrow> parse_signing_key_error + bytes" where
  "decode_base64_standard_or_raw c input =
     (case b64_decode c input of
        Inr bytes \<Rightarrow> Inr bytes
      | Inl standard_error \<Rightarrow>
          (case b64_decode_no_pad c input of
             Inr bytes \<Rightarrow> Inr bytes
           | Inl raw_error \<Rightarrow>
               Inl (SignInvalidBase64 (standard_error @ ''; raw no-pad decode also failed: '' @ raw_error))))"

definition signing_key_parse ::
    "base64_codec \<Rightarrow> 'k ed25519 \<Rightarrow> string \<Rightarrow> parse_signing_key_error + 'k named_signing_key" where
  "signing_key_parse c ed input =
     and_then (ok_or MissingSeparator (split_once (CHR '':'') input)) (\<lambda>(name_part, key_part).
     let name = trim name_part; key_text = trim key_part in
     if name = [] then Inl EmptyName
     else and_then (decode_base64_standard_or_raw c key_text) (\<lambda>key_bytes.
     and_then
       (if length key_bytes = 32 then Inr (ed_from_bytes ed key_bytes)
        else if length key_bytes = 64 then map_err InvalidKeypair (ed_from_keypair ed key_bytes)
        else Inl (InvalidKeyLength (length key_bytes)))
       (\<lambda>key. Inr \<lparr>nk_name = name, nk_key = key\<rparr>)))"

definition sign_message ::
    "base64_codec \<Rightarrow> 'k ed25519 \<Rightarrow> 'k named_signing_key \<Rightarrow> bytes \<Rightarrow> string" where
  "sign_message c ed k message = nk_name k @ '':'' @ b64_encode c (ed_sign ed (nk_key k) message)"

definition public_key_text :: "base64_codec \<Rightarrow> 'k ed25519 \<Rightarrow> 'k named_signing_key \<Rightarrow> string" where
  "public_key_text c ed k = nk_name k @ '':'' @ b64_encode c (ed_verifying_key ed (nk_key k))"

definition signing_key_generate ::
    "'k ed25519 \<Rightarrow> (string + bytes) \<Rightarrow> string \<Rightarrow> generate_signing_key_error + 'k named_signing_key" where
  "signing_key_generate ed random name =
     (let name = trim name in
      if name = [] then Inl GenEmptyName
      else and_then (map_err GenRandom random) (\<lambda>seed.
        Inr \<lparr>nk_name = name, nk_key = ed_from_bytes ed seed\<rparr>))"

definition with_name ::
    "'k named_signing_key \<Rightarrow> string \<Rightarrow> parse_signing_key_error + 'k named_signing_key" where
  "with_name k name =
     (let name = trim name in if name = [] then Inl EmptyName else Inr (k\<lparr>nk_name := name\<rparr>))"

definition private_key_text :: "base64_codec \<Rightarrow> 'k ed25519 \<Rightarrow> 'k named_signing_key \<Rightarrow> string" where
  "private_key_text c ed k = nk_name k @ '':'' @ b64_encode c (ed_to_bytes ed (nk_key k))"

subsection \<open>Fingerprints and signatures\<close>

datatype fingerprint_error =
    InvalidStorePath string string
  | InvalidNarHash nix_hash_error
  | InvalidReferencePath string string

record 'k nar_info_signer =
  signer_store_dir :: store_dir
  signer_keys :: "'k named_signing_key list"

definition public_key_texts :: "base64_codec \<Rightarrow> 'k ed25519 \<Rightarrow> 'k nar_info_signer \<Rightarrow> string list" where
  "public_key_texts c ed s = map (public_key_text c ed) (signer_keys s)"

fun check_references :: "store_dir \<Rightarrow> string list \<Rightarrow> fingerprint_error + unit" where
  "check_references d [] = Inr ()"
| "check_references d (r # rs) =
     (if \<not> contains_path d r then Inl (InvalidReferencePath (store_dir_str d) r)
      else check_references d rs)"

fun push_references :: "nat \<Rightarrow> string list \<Rightarrow> string" where
  "push_references index [] = []"
| "push_references index (r # rs) = (if 0 < index then '','' else []) @ r @ push_references (index + 1) rs"

definition fingerprint ::
    "b64_decoder \<Rightarrow> 'k nar_info_signer \<Rightarrow> nar_info \<Rightarrow> fingerprint_error + string" where
  "fingerprint b64 s n =
     (if \<not> contains_path (signer_store_dir s) (ni_store_path n)
      then Inl (InvalidStorePath (store_dir_str (signer_store_dir s)) (ni_store_path n))
      else and_then (map_err InvalidNarHash (ni_normalized_nar_hash b64 n)) (\<lambda>nar_hash.
      and_then (check_references (signer_store_dir s) (ni_references n)) (\<lambda>_.
      let sorted_refs = sort (ni_references n) in
      Inr (''1;'' @ ni_store_path n @ '';'' @ nar_hash_str nar_hash @ '';'' @
           show_nat (unat (ni_nar_size n)) @ '';'' @ push_references 0 sorted_refs))))"

definition sign_narinfo ::
    "base64_codec \<Rightarrow> 'k ed25519 \<Rightarrow> b64_decoder \<Rightarrow> 'k nar_info_signer \<Rightarrow> nar_info
     \<Rightarrow> fingerprint_error + string list" where
  "sign_narinfo c ed b64 s n =
     and_then (fingerprint b64 s n) (\<lambda>fp.
       Inr (map (\<lambda>key. sign_message c ed key (into_bytes fp)) (signer_keys s)))"

subsection \<open>Encrypted signing keys\<close>

datatype key_encryption_error =
    KeyInvalidBase64 string
  | KeyInvalidLength nat
  | NonceGeneration string
  | EncryptFailed
  | DecryptFailed

datatype key_encryption_key = KeyEncryptionKey (kek_bytes: bytes)

record encrypted_signing_key =
  esk_ciphertext :: string
  esk_nonce :: string

definition kek_parse_base64 :: "base64_codec \<Rightarrow> string \<Rightarrow> key_encryption_error + key_encryption_key" where
  "kek_parse_base64 c input =
     and_then (map_err KeyInvalidBase64 (b64_decode c (trim input))) (\<lambda>bytes.
     if length bytes \<noteq> 32 then Inl (KeyInvalidLength (length bytes))
     else Inr (KeyEncryptionKey bytes))"

definition kek_encrypt ::
    "base64_codec \<Rightarrow> aead \<Rightarrow> (string + bytes) \<Rightarrow> key_encryption_key \<Rightarrow> string \<Rightarrow> string
     \<Rightarrow> key_encryption_error + encrypted_signing_key" where
  "kek_encrypt c a random k plaintext aad =
     and_then (map_err NonceGeneration random) (\<lambda>nonce_bytes.
     and_then (ok_or EncryptFailed
         (aead_encrypt a (kek_bytes k) nonce_bytes (into_bytes plaintext) (into_bytes aad))) (\<lambda>ciphertext.
     Inr \<lparr>esk_ciphertext = b64_encode c ciphertext, esk_nonce = b64_encode c nonce_bytes\<rparr>))"

definition kek_decrypt ::
    "base64_codec \<Rightarrow> aead \<Rightarrow> key_encryption_key \<Rightarrow> encrypted_signing_key \<Rightarrow> string
     \<Rightarrow> key_encryption_error + string" where
  "kek_decrypt c a k encrypted aad =
     and_then (map_err KeyInvalidBase64 (b64_decode c (esk_nonce encrypted))) (\<lambda>nonce.
     if length nonce \<noteq> 12 then Inl DecryptFailed
     else and_then (map_err KeyInvalidBase64 (b64_decode c (esk_ciphertext encrypted))) (\<lambda>ciphertext.
     and_then (ok_or DecryptFailed (aead_decrypt a (kek_bytes k) nonce ciphertext (into_bytes aad)))
       (\<lambda>plaintext. ok_or DecryptFailed (from_utf8 plaintext))))"

subsection \<open>Trimming\<close>

lemma ws_at_append: "ws_at (a @ b) = 0 \<Longrightarrow> ws_at a = 0"
  by (auto simp: ws_at_def split: list.splits if_splits)

lemma trim_start_ws: "ws_at (trim_start s) = 0"
  by (induction s rule: trim_start.induct) (subst trim_start.simps, auto)

lemma trim_end_ws: "ws_before (trim_end_rev r) = 0"
  by (induction r rule: trim_end_rev.induct) (subst trim_end_rev.simps, auto)

lemma trim_end_suffix: "\<exists>a. r = a @ trim_end_rev r"
proof (induction r rule: trim_end_rev.induct)
  case (1 r)
  show ?case
  proof (cases "ws_before r = 0")
    case True
    then show ?thesis by (subst trim_end_rev.simps) simp
  next
    case False
    then obtain a where "drop (ws_before r) r = a @ trim_end_rev (drop (ws_before r) r)"
      using 1 by blast
    then have "r = (take (ws_before r) r @ a) @ trim_end_rev (drop (ws_before r) r)"
      by (metis append_assoc append_take_drop_id)
    moreover have "trim_end_rev r = trim_end_rev (drop (ws_before r) r)"
      using False by (subst trim_end_rev.simps) simp
    ultimately show ?thesis by metis
  qed
qed

lemma trim_again [simp]: "trim (trim s) = trim s"
proof -
  let ?r = "trim_end_rev (rev (trim_start s))"
  obtain a where "rev (trim_start s) = a @ ?r" using trim_end_suffix by blast
  then have "trim_start s = rev ?r @ rev a" by (metis rev_append rev_rev_ident)
  then have "ws_at (rev ?r) = 0" using trim_start_ws[of s] ws_at_append by metis
  then have "trim_start (trim s) = trim s" by (subst trim_start.simps) (simp add: trim_def)
  moreover have "trim_end_rev ?r = ?r" using trim_end_ws by (subst trim_end_rev.simps) simp
  ultimately show ?thesis by (simp add: trim_def)
qed

lemma trim_set: "set (trim s) \<subseteq> set s"
proof -
  have a: "set (trim_end_rev r) \<subseteq> set r" for r
    using trim_end_suffix[of r] by (metis Un_upper2 set_append)
  have "set (trim_start s) \<subseteq> set s"
  proof (induction s rule: trim_start.induct)
    case (1 s)
    then show ?case by (subst trim_start.simps) (auto dest!: in_set_dropD)
  qed
  with a[of "rev (trim_start s)"] show ?thesis by (auto simp: trim_def)
qed

subsection \<open>Round trips of keys\<close>

lemma plain_trim: "list_all plain s \<Longrightarrow> trim s = s"
  by (intro trim_plain) (auto simp: list_all_iff)

lemma parsed_key_again:
  assumes "codec_ok c" "ed25519_ok ed" "signing_key_parse c ed input = Inr k"
  shows "signing_key_parse c ed (private_key_text c ed k) = Inr k"
proof -
  from assms(3) obtain a b where ab: "split_once (CHR '':'') input = Some (a, b)"
    "nk_name k = trim a" "trim a \<noteq> []"
    by (auto simp: signing_key_parse_def Let_def split: if_splits)
  then have "CHR '':'' \<notin> set (nk_name k)" using trim_set[of a] by (auto simp: split_once_Some)
  moreover have "trim (b64_encode c bs) = b64_encode c bs"
    "decode_base64_standard_or_raw c (b64_encode c bs) = Inr bs" for bs
    using assms(1) plain_trim by (auto simp: codec_ok_def decode_base64_standard_or_raw_def)
  moreover have "trim (nk_name k) = nk_name k" "nk_name k \<noteq> []" using ab by simp_all
  ultimately show ?thesis
    using assms(2) by (simp add: signing_key_parse_def private_key_text_def ed25519_ok_def)
qed

lemma encrypted_decrypts:
  assumes "codec_ok c" "aead_ok a" "kek_encrypt c a (Inr nonce) k plaintext aad = Inr e"
    "length nonce = 12" "utf8_ok (map unat (into_bytes plaintext))"
  shows "kek_decrypt c a k e aad = Inr plaintext"
proof -
  from assms(3) obtain ct where ct:
    "aead_encrypt a (kek_bytes k) nonce (into_bytes plaintext) (into_bytes aad) = Some ct"
    "e = \<lparr>esk_ciphertext = b64_encode c ct, esk_nonce = b64_encode c nonce\<rparr>"
    by (auto simp: kek_encrypt_def)
  then have "aead_decrypt a (kek_bytes k) nonce ct (into_bytes aad) = Some (into_bytes plaintext)"
    using assms(2) unfolding aead_ok_def by blast
  with ct assms(1,4,5) show ?thesis by (simp add: kek_decrypt_def codec_ok_def from_utf8_def)
qed

text \<open>C22 (key texts). A parsed signing key is printed by \<^verbatim>\<open>private_key_text\<close> to a text that
  parses to the same key: nothing is lost when a key is exported, stored and loaded again.\<close>

theorem signing_key_roundtrip:
  assumes "codec_ok c" "ed25519_ok ed" "signing_key_parse c ed input = Inr k"
  shows "signing_key_parse c ed (private_key_text c ed k) = Inr k"
  using parsed_key_again[OF assms] .

text \<open>C23 (stored keys). An encrypted signing key decrypts, under the same key and the same
  associated data, to the text that was encrypted.\<close>

theorem key_encryption_roundtrip:
  assumes "codec_ok c" "aead_ok a" "kek_encrypt c a (Inr nonce) k plaintext aad = Inr e"
    "length nonce = 12" "utf8_ok (map unat (into_bytes plaintext))"
  shows "kek_decrypt c a k e aad = Inr plaintext"
  using encrypted_decrypts[OF assms] .

subsection \<open>What a signature commits to\<close>

lemma check_references_Inr: "check_references d rs = Inr u \<longleftrightarrow> (\<forall>r\<in>set rs. contains_path d r)"
  by (induction rs) auto

lemma fingerprint_Inr:
  "fingerprint b64 s n = Inr fp \<longleftrightarrow>
   contains_path (signer_store_dir s) (ni_store_path n) \<and>
   (\<forall>r\<in>set (ni_references n). contains_path (signer_store_dir s) r) \<and>
   (\<exists>h. ni_normalized_nar_hash b64 n = Inr h \<and>
     fp = ''1;'' @ ni_store_path n @ '';'' @ nar_hash_str h @ '';'' @
       show_nat (unat (ni_nar_size n)) @ '';'' @ push_references 0 (sort (ni_references n)))"
  by (auto simp: fingerprint_def Let_def check_references_Inr)

lemma separated_eq:
  "d \<notin> set a \<Longrightarrow> d \<notin> set a' \<Longrightarrow> a @ d # b = a' @ d # b' \<longleftrightarrow> a = a' \<and> b = b'"
  using split_once_append[of d a b] split_once_append[of d a' b'] by (metis option.inject prod.inject)

definition no_comma :: "string \<Rightarrow> bool" where
  "no_comma r \<longleftrightarrow> r \<noteq> [] \<and> CHR '','' \<notin> set r"

lemma push_references_later:
  "0 < i \<Longrightarrow> push_references i rs = concat (map (\<lambda>r. CHR '','' # r) rs)"
  by (induction rs arbitrary: i) auto

lemma comma_parts_inj:
  "list_all no_comma rs \<Longrightarrow> list_all no_comma rs' \<Longrightarrow> no_comma r \<Longrightarrow> no_comma r' \<Longrightarrow>
   r @ concat (map (\<lambda>r. CHR '','' # r) rs) = r' @ concat (map (\<lambda>r. CHR '','' # r) rs') \<Longrightarrow>
   r = r' \<and> rs = rs'"
proof (induction rs arbitrary: r r' rs')
  case Nil
  then show ?case by (cases rs') (auto simp: no_comma_def)
next
  case (Cons x xs)
  show ?case
  proof (cases rs')
    case Nil
    then have "CHR '','' \<in> set r'" using Cons.prems(5) by (auto dest!: arg_cong[of _ _ set])
    then show ?thesis using Cons.prems by (simp add: no_comma_def)
  next
    case (Cons y ys)
    have "r @ CHR '','' # (x @ concat (map (\<lambda>r. CHR '','' # r) xs)) =
          r' @ CHR '','' # (y @ concat (map (\<lambda>r. CHR '','' # r) ys))"
      using Cons.prems(5) Cons by simp
    then have "r = r'" "x @ concat (map (\<lambda>r. CHR '','' # r) xs) = y @ concat (map (\<lambda>r. CHR '','' # r) ys)"
      using Cons.prems(3,4) by (simp_all add: separated_eq no_comma_def)
    then show ?thesis using Cons.IH[of ys x y] Cons.prems Cons by simp
  qed
qed

lemma push_references_inj:
  assumes "list_all no_comma rs" "list_all no_comma rs'" "push_references 0 rs = push_references 0 rs'"
  shows "rs = rs'"
proof (cases rs)
  case Nil
  with assms show ?thesis by (cases rs') (simp_all add: no_comma_def)
next
  case (Cons x xs)
  show ?thesis
  proof (cases rs')
    case Nil
    with assms Cons show ?thesis by (simp add: no_comma_def)
  next
    case r: (Cons y ys)
    have "x = y \<and> xs = ys"
      by (rule comma_parts_inj) (use assms Cons r in \<open>simp_all add: push_references_later\<close>)
    with Cons r show ?thesis by simp
  qed
qed

lemma hash_no_semicolon: "ni_normalized_nar_hash b64 n = Inr h \<Longrightarrow> CHR '';'' \<notin> set (nar_hash_str h)"
proof -
  assume "ni_normalized_nar_hash b64 n = Inr h"
  then have "sha256_text h" using normalize_sha256 by (simp add: ni_normalized_nar_hash_def)
  moreover have "CHR '';'' \<notin> set NIX_BASE32_ALPHABET" by (simp add: NIX_BASE32_ALPHABET_def)
  ultimately show ?thesis by (auto simp: sha256_text_def nar_hash_str_def)
qed

lemma size_no_semicolon: "CHR '';'' \<notin> set (show_nat n)"
  using show_nat_digits[of n] by (auto simp: list_all_iff is_digit_def)

lemma show_nat_inj: "show_nat a = show_nat b \<Longrightarrow> a = b"
proof -
  assume e: "show_nat a = show_nat b"
  have "a < Suc (max a b)" "b < Suc (max a b)" by simp_all
  then have "Some a = Some b" using e parse_show by metis
  then show ?thesis by simp
qed

lemma sort_mset_eq: "mset xs = mset ys \<Longrightarrow> sort xs = sort ys"
  by (rule properties_for_sort) simp_all



subsection \<open>Instances\<close>

text \<open>
  Concrete crates that satisfy the contracts: an encoding with one character pair for each byte,
  a signature scheme with two keys, and a cipher that leaves the message as it is.
\<close>

definition hex_digit :: "nat \<Rightarrow> char" where
  "hex_digit n = char_of (65 + n)"

fun hex_encode :: "bytes \<Rightarrow> string" where
  "hex_encode [] = []"
| "hex_encode (b # bs) = hex_digit (unat b div 16) # hex_digit (unat b mod 16) # hex_encode bs"

fun hex_decode :: "string \<Rightarrow> string + bytes" where
  "hex_decode [] = Inr []"
| "hex_decode [c] = Inl ''odd length''"
| "hex_decode (c # c' # s) = and_then (hex_decode s)
     (\<lambda>bs. Inr (word_of_nat ((byte_of c - 65) * 16 + (byte_of c' - 65)) # bs))"

definition hex_codec :: base64_codec where
  "hex_codec = \<lparr>b64_encode = hex_encode, b64_decode = hex_decode, b64_decode_no_pad = hex_decode\<rparr>"

lemma hex_digit_byte: "n < 16 \<Longrightarrow> byte_of (hex_digit n) = 65 + n"
  by (simp add: hex_digit_def)

lemma hex_codec_ok: "codec_ok hex_codec"
proof -
  have lt: "unat b div 16 < 16" for b :: "8 word"
  proof -
    have "unat b < 2 ^ LENGTH(8)" by (rule unsigned_less)
    then show ?thesis by (simp add: less_mult_imp_div_less)
  qed
  have d: "hex_decode (hex_encode bs) = Inr bs" for bs
    by (induction bs) (simp_all add: hex_digit_byte lt)
  have p: "list_all plain (hex_encode bs)" for bs
  proof (induction bs)
    case (Cons b bs)
    then show ?case using lt[of b] by (simp add: plain_def hex_digit_byte)
  qed simp
  show ?thesis using d p by (simp add: codec_ok_def hex_codec_def)
qed

definition toy_ed25519 :: "bool ed25519" where
  "toy_ed25519 = \<lparr>ed_from_bytes = (\<lambda>bs. hd bs = 1), ed_from_keypair = (\<lambda>_. Inl ''no keypairs''),
     ed_to_bytes = (\<lambda>k. replicate 32 (if k then 1 else 0)),
     ed_verifying_key = (\<lambda>k. replicate 32 (if k then 1 else 0)),
     ed_sign = (\<lambda>k m. (if k then 1 else 0) # m)\<rparr>"

lemma toy_ed25519_ok: "ed25519_ok toy_ed25519"
  by (simp add: ed25519_ok_def toy_ed25519_def)

definition plain_aead :: aead where
  "plain_aead = \<lparr>aead_encrypt = (\<lambda>key nonce msg aad. Some msg), aead_decrypt = (\<lambda>key nonce ct aad. Some ct)\<rparr>"

lemma plain_aead_ok: "aead_ok plain_aead"
  by (simp add: aead_ok_def plain_aead_def)

abbreviation sample_key :: "bool named_signing_key" where
  "sample_key \<equiv> \<lparr>nk_name = ''cache-1'', nk_key = True\<rparr>"

definition sample_key_text :: string where
  "sample_key_text = ''cache-1:'' @ concat (replicate 32 ''AB'')"

lemma sample_key_parses: "signing_key_parse hex_codec toy_ed25519 sample_key_text = Inr sample_key"
  by code_simp

theorem signing_key_roundtrip_witness:
  "signing_key_parse hex_codec toy_ed25519 (private_key_text hex_codec toy_ed25519 sample_key) =
   Inr sample_key"
  by (rule signing_key_roundtrip[OF hex_codec_ok toy_ed25519_ok sample_key_parses])

lemma sample_encrypted:
  "kek_encrypt hex_codec plain_aead (Inr (replicate 12 0)) (KeyEncryptionKey (replicate 32 0)) ''k:s'' ''p'' =
   Inr \<lparr>esk_ciphertext = hex_encode (into_bytes ''k:s''), esk_nonce = hex_encode (replicate 12 0)\<rparr>"
  by (simp add: kek_encrypt_def plain_aead_def hex_codec_def)

theorem key_encryption_roundtrip_witness:
  "kek_decrypt hex_codec plain_aead (KeyEncryptionKey (replicate 32 0))
     \<lparr>esk_ciphertext = hex_encode (into_bytes ''k:s''), esk_nonce = hex_encode (replicate 12 0)\<rparr> ''p'' =
   Inr ''k:s''"
proof (rule key_encryption_roundtrip[OF hex_codec_ok plain_aead_ok sample_encrypted])
  show "length (replicate 12 (0 :: 8 word)) = 12" by simp
  show "utf8_ok (map unat (into_bytes ''k:s''))" by (rule utf8_ok_ascii) (simp add: into_bytes_def)
qed

definition sample_signer :: "bool nar_info_signer" where
  "sample_signer = \<lparr>signer_store_dir = default_nix, signer_keys = [sample_key]\<rparr>"

definition sample_fp :: string where
  "sample_fp = (case fingerprint no_base64 sample_signer sample_info of Inr fp \<Rightarrow> fp | Inl _ \<Rightarrow> [])"

lemma sample_contained:
  "contains_path default_nix (ni_store_path sample_info)"
  "\<forall>r\<in>set (ni_references sample_info). contains_path default_nix r"
  by code_simp+

lemma sample_fingerprint: "fingerprint no_base64 sample_signer sample_info = Inr sample_fp"
proof -
  obtain fp where "fingerprint no_base64 sample_signer sample_info = Inr fp"
    using sample_hash sample_contained unfolding fingerprint_Inr by (auto simp: sample_signer_def)
  then show ?thesis by (simp add: sample_fp_def)
qed



end
