(* ===== verification/Validation.thy ===== *)
theory Validation
  imports Signing
begin

text \<open>
  \<^verbatim>\<open>crates/depot-core/src/validation.rs\<close>: what a narinfo must satisfy to be published.
\<close>

datatype publish_error =
    StorePathOutsideStoreDir string string
  | InvalidStorePathHash string store_path_hash_error
  | InvalidDepotObjectPath string
  | UrlIsNotNarObject string
  | UnsupportedCompression string
  | CompressionMismatch string string
  | PublishInvalidNarHash string nix_hash_error
  | UrlDoesNotMatchNarHash string string
  | ReferenceOutsideStoreDir string string
  | InvalidReferenceStorePath string store_path_hash_error
  | DeriverOutsideStoreDir string string
  | InvalidDeriverStorePath string store_path_hash_error

definition parse_nar_url :: "regexes \<Rightarrow> string \<Rightarrow> publish_error + string \<times> nar_compression" where
  "parse_nar_url rx url =
     (case parse_depot_object_path rx url of
        Some (NarPath nar_hash_digest compression) \<Rightarrow> Inr (nar_hash_digest, compression)
      | Some _ \<Rightarrow> Inl (UrlIsNotNarObject url)
      | None \<Rightarrow> Inl (InvalidDepotObjectPath url))"

definition validate_store_path_inside_store_dir :: "store_dir \<Rightarrow> string \<Rightarrow> publish_error + unit" where
  "validate_store_path_inside_store_dir d path =
     (if contains_path d path then Inr () else Inl (StorePathOutsideStoreDir (store_dir_str d) path))"

definition validate_reference :: "store_dir \<Rightarrow> string \<Rightarrow> publish_error + unit" where
  "validate_reference d reference =
     (if \<not> contains_path d reference then Inl (ReferenceOutsideStoreDir (store_dir_str d) reference)
      else and_then (map_err (InvalidReferenceStorePath reference) (parse_from_store_path reference))
        (\<lambda>_. Inr ()))"

definition validate_deriver :: "store_dir \<Rightarrow> string \<Rightarrow> publish_error + unit" where
  "validate_deriver d deriver =
     (if \<not> contains_path d deriver then Inl (DeriverOutsideStoreDir (store_dir_str d) deriver)
      else and_then (map_err (InvalidDeriverStorePath deriver) (parse_from_store_path deriver))
        (\<lambda>_. Inr ()))"

fun validate_references :: "store_dir \<Rightarrow> string list \<Rightarrow> publish_error + unit" where
  "validate_references d [] = Inr ()"
| "validate_references d (r # rs) = and_then (validate_reference d r) (\<lambda>_. validate_references d rs)"

definition validate_publish_narinfo ::
    "regexes \<Rightarrow> b64_decoder \<Rightarrow> store_dir \<Rightarrow> nar_info \<Rightarrow> publish_error + store_path_hash" where
  "validate_publish_narinfo rx b64 d n =
     and_then (validate_store_path_inside_store_dir d (ni_store_path n)) (\<lambda>_.
     and_then (map_err (InvalidStorePathHash (ni_store_path n)) (parse_from_store_path (ni_store_path n)))
       (\<lambda>store_path_hash.
     and_then (parse_nar_url rx (ni_url n)) (\<lambda>(url_nar_hash_digest, url_compression).
     and_then (ok_or (UnsupportedCompression (ni_compression n)) (from_narinfo_compression (ni_compression n)))
       (\<lambda>compression.
     if compression \<noteq> url_compression
     then Inl (CompressionMismatch (ni_compression n) (narinfo_compression url_compression))
     else and_then (map_err (PublishInvalidNarHash (ni_store_path n)) (ni_normalized_nar_hash b64 n))
       (\<lambda>normalized.
     let expected_url = ''nar/'' @ nh_digest normalized @ file_suffix compression in
     if ni_url n \<noteq> expected_url \<or> url_nar_hash_digest \<noteq> nh_digest normalized
     then Inl (UrlDoesNotMatchNarHash (ni_url n) expected_url)
     else and_then (validate_references d (ni_references n)) (\<lambda>_.
     and_then (case ni_deriver n of None \<Rightarrow> Inr () | Some deriver \<Rightarrow> validate_deriver d deriver) (\<lambda>_.
     Inr store_path_hash)))))))"

subsection \<open>What validation accepts\<close>

text \<open>A path of the store: under the store directory, with a well-formed hash part.\<close>

definition valid_store_path :: "store_dir \<Rightarrow> string \<Rightarrow> bool" where
  "valid_store_path d p \<longleftrightarrow> contains_path d p \<and> is_ok (parse_from_store_path p)"

lemma validate_reference_Inr: "validate_reference d r = Inr u \<longleftrightarrow> valid_store_path d r"
  by (auto simp: validate_reference_def valid_store_path_def is_ok_iff)

lemma validate_deriver_Inr: "validate_deriver d r = Inr u \<longleftrightarrow> valid_store_path d r"
  by (auto simp: validate_deriver_def valid_store_path_def is_ok_iff)

lemma validate_references_Inr: "validate_references d rs = Inr u \<longleftrightarrow> list_all (valid_store_path d) rs"
  by (induction rs) (auto simp: validate_reference_Inr)

lemma parse_nar_url_Inr:
  "parse_nar_url rx url = Inr (dg, c) \<longleftrightarrow> parse_depot_object_path rx url = Some (NarPath dg c)"
  by (auto simp: parse_nar_url_def split: option.splits depot_object_path.splits)

context regex_engine
begin

lemma nar_url_iff: "parse_nar_url rx url = Inr (dg, c) \<longleftrightarrow> url = ''nar/'' @ dg @ file_suffix c \<and> digest_text dg"
  unfolding parse_nar_url_Inr using parse_nar parse_nar_inv by blast

lemma validate_iff:
  "validate_publish_narinfo rx b64 d n = Inr h \<longleftrightarrow>
   contains_path d (ni_store_path n) \<and> parse_from_store_path (ni_store_path n) = Inr h \<and>
   (\<exists>c nh. from_narinfo_compression (ni_compression n) = Some c \<and>
      ni_normalized_nar_hash b64 n = Inr nh \<and> digest_text (nh_digest nh) \<and>
      ni_url n = ''nar/'' @ nh_digest nh @ file_suffix c) \<and>
   list_all (valid_store_path d) (ni_references n) \<and>
   (case ni_deriver n of None \<Rightarrow> True | Some p \<Rightarrow> valid_store_path d p)"
proof -
  have d: "(case ni_deriver n of None \<Rightarrow> Inr () | Some deriver \<Rightarrow> validate_deriver d deriver) = Inr u \<longleftrightarrow>
      (case ni_deriver n of None \<Rightarrow> True | Some p \<Rightarrow> valid_store_path d p)" for u
    by (simp add: validate_deriver_Inr split: option.split)
  have u: "parse_nar_url rx (ni_url n) = Inr p \<longleftrightarrow>
      ni_url n = ''nar/'' @ fst p @ file_suffix (snd p) \<and> digest_text (fst p)" for p
    using nar_url_iff[of "ni_url n" "fst p" "snd p"] by simp
  show ?thesis
    unfolding validate_publish_narinfo_def and_then_Inr d u validate_references_Inr
    by (auto simp: validate_store_path_inside_store_dir_def Let_def and_then_Inr d
        validate_references_Inr split: if_splits)
qed

end

text \<open>C14 (publishing). A narinfo is accepted exactly when its store path, references and deriver
  are paths of the store with well-formed hashes, its compression is known, its NAR hash is a
  SHA-256 digest of the right length, and its URL is \<^verbatim>\<open>nar/<digest><suffix>\<close> for that digest and
  that compression; the result is the hash part of the store path. So a published object is
  always addressed by the hash of its content.\<close>

theorem validate_publish_iff:
  assumes "regexes_ok rx"
  shows "validate_publish_narinfo rx b64 d n = Inr h \<longleftrightarrow>
   contains_path d (ni_store_path n) \<and> parse_from_store_path (ni_store_path n) = Inr h \<and>
   (\<exists>c nh. from_narinfo_compression (ni_compression n) = Some c \<and>
      ni_normalized_nar_hash b64 n = Inr nh \<and> digest_text (nh_digest nh) \<and>
      ni_url n = ''nar/'' @ nh_digest nh @ file_suffix c) \<and>
   list_all (valid_store_path d) (ni_references n) \<and>
   (case ni_deriver n of None \<Rightarrow> True | Some p \<Rightarrow> valid_store_path d p)"
  using assms by (rule regex_engine.validate_iff[OF regex_engine.intro])

definition published_sample :: nar_info where
  "published_sample = sample_info\<lparr>ni_url := ''nar/'' @ replicate 52 (CHR ''0'') @ ''.nar.zst'',
     ni_references := [ni_store_path sample_info], ni_deriver := None\<rparr>"

lemma published_sample_valid:
  "validate_publish_narinfo std_regexes no_base64 default_nix published_sample =
   Inr (StorePathHash ''s66mzxpvicwk07gjbjfw9izjfa797vsw'')"
  by code_simp

theorem validate_publish_iff_witness:
  "\<exists>c nh. from_narinfo_compression (ni_compression published_sample) = Some c \<and>
     ni_normalized_nar_hash no_base64 published_sample = Inr nh \<and>
     ni_url published_sample = ''nar/'' @ nh_digest nh @ file_suffix c"
  using published_sample_valid unfolding validate_publish_iff[OF std_regexes_ok] by blast

text \<open>(accepted NAR URLs). The URL of an accepted narinfo parses as the path of the NAR it
  names, so the object can be registered and looked up under it.\<close>

theorem validated_url_is_object:
  assumes "regexes_ok rx" "validate_publish_narinfo rx b64 d n = Inr h"
  shows "\<exists>nh c. ni_normalized_nar_hash b64 n = Inr nh \<and>
    parse_depot_object_path rx (ni_url n) = Some (NarPath (nh_digest nh) c) \<and>
    from_narinfo_compression (ni_compression n) = Some c"
proof -
  obtain c nh where "from_narinfo_compression (ni_compression n) = Some c"
    "ni_normalized_nar_hash b64 n = Inr nh" "digest_text (nh_digest nh)"
    "ni_url n = ''nar/'' @ nh_digest nh @ file_suffix c"
    using assms(2) regex_engine.validate_iff[OF regex_engine.intro, OF assms(1)] by blast
  then show ?thesis
    using regex_engine.parse_nar[OF regex_engine.intro, OF assms(1)] by metis
qed

theorem validated_url_is_object_witness:
  "\<exists>c dg. parse_depot_object_path std_regexes (ni_url published_sample) = Some (NarPath dg c)"
  using validated_url_is_object[OF std_regexes_ok published_sample_valid] by blast

end
