(* ===== verification/CoreFacts.thy ===== *)
theory CoreFacts
  imports Validation
begin

text \<open>
  Properties of the vocabulary of \<^verbatim>\<open>crates/depot-core\<close>: store directories, hashes of store
  paths, the base-32 text of digests and object paths. Each is a short consequence of the lemmas
  of the component theories.
\<close>

subsection \<open>Digests\<close>

text \<open>C25 (base 32). The encoder, which cuts bits out of neighbouring bytes, computes the base-32
  numeral of the bytes read as one little-endian number: its digits, most significant first, have
  that value, and the text is those digits in the Nix alphabet. Its length is the least number of
  digits that holds all bits.\<close>

theorem base32_reference:
  "encode_nix_base32 bs = map ((!) NIX_BASE32_ALPHABET) (base32_digits bs) \<and>
   base32_value (base32_digits bs) = le_value bs \<and>
   length (base32_digits bs) = (length bs * 8 + 4) div 5"
proof -
  have "length (base32_digits bs) = length (encode_nix_base32 bs)" by (simp add: encode_digits)
  also have "\<dots> = (length bs * 8 + 4) div 5"
    by (cases bs) (simp_all add: length_encode base32_length_def encode_nix_base32_def)
  finally show ?thesis by (simp add: encode_digits base32_value_digits)
qed

text \<open>(digest texts). Digests of one length have different base-32 texts, and the text of a
  SHA-256 digest passes the validation of digest texts: normalising a base64 hash loses nothing.\<close>

theorem base32_injective:
  assumes "length xs = length ys"
  shows "(encode_nix_base32 xs = encode_nix_base32 ys \<longleftrightarrow> xs = ys) \<and>
    (length xs = 32 \<longrightarrow> validate_nix32_text_digest Sha256 (encode_nix_base32 xs) = Inr ())"
  using assms encode_inj encode_sha256 by blast

theorem base32_injective_witness:
  "encode_nix_base32 [1, 2] \<noteq> encode_nix_base32 [1, 3]"
  using base32_injective[of "[1, 2]" "[1, 3]"] by simp

text \<open>(unchecked digests). A base64 digest that does not decode to 32 bytes is normalised without
  an error, although the text of the result is rejected when it is parsed again: the length check
  of \<^verbatim>\<open>new\<close> is missing on the base64 path.\<close>

theorem base64_digest_length_unchecked:
  "\<exists>b64 h. normalize b64 (Structured Sha256 (Some Base64) ''AA=='') = Inr h \<and>
     \<not> is_ok (parse_text b64 (nar_hash_str h)) \<and> \<not> is_ok (nar_hash_new (nh_algorithm h) (nh_digest h))"
proof -
  let ?b64 = "\<lambda>_. Some [0 :: 8 word]"
  let ?h = "\<lparr>nh_algorithm = Sha256, nh_digest = ''00''\<rparr>"
  have "normalize ?b64 (Structured Sha256 (Some Base64) ''AA=='') = Inr ?h" by code_simp
  moreover have "\<not> is_ok (parse_text ?b64 (nar_hash_str ?h))" by code_simp
  moreover have "\<not> is_ok (nar_hash_new (nh_algorithm ?h) (nh_digest ?h))" by code_simp
  ultimately show ?thesis by blast
qed

subsection \<open>Store directories\<close>

text \<open>(store directory). A configured store directory is absolute and has no trailing slash unless
  it is the root; a relative display name expands to a path of the store, which is displayed as that
  name again, and expanding an expanded path changes nothing.\<close>

theorem store_dir_paths:
  assumes "store_dir_new path = Inr d" "r = [] \<or> hd r \<noteq> CHR ''/''"
  shows "absolute_dir d \<and> (store_dir_str d = ''/'' \<or> last (store_dir_str d) \<noteq> CHR ''/'') \<and>
    contains_path d (expand_display_path d r) \<and> display_path d (expand_display_path d r) = r \<and>
    expand_display_path d (expand_display_path d r) = expand_display_path d r"
proof -
  have p: "path \<noteq> []" "hd path = CHR ''/''" "store_dir_str d = pop_slashes path"
    using assms(1) by (cases path; auto simp: store_dir_new_def starts_with_iff split: if_splits)+
  then have d: "absolute_dir d" "store_dir_str d = ''/'' \<or> last (store_dir_str d) \<noteq> CHR ''/''"
    using pop_slashes_shape[of path] by (auto simp: absolute_dir_def)
  have e: "expand_display_path d r = store_dir_str d @ ''/'' @ r"
    using d(1) assms(2) relative_not_contained by (intro expand_display_append) (auto simp: absolute_dir_def)
  then have c: "contains_path d (expand_display_path d r)" by (auto simp: contains_path_iff)
  then have "expand_display_path d (expand_display_path d r) = expand_display_path d r"
    by (simp add: expand_display_path_def)
  then show ?thesis using c d e by simp
qed

theorem store_dir_paths_witness:
  "display_path (StoreDir ''/nix/store'') (expand_display_path (StoreDir ''/nix/store'') ''abc'') = ''abc''"
proof -
  have "store_dir_new ''/nix/store//'' = Inr (StoreDir ''/nix/store'')" by code_simp
  from store_dir_paths[OF this, of "''abc''"] show ?thesis by simp
qed

subsection \<open>Hashes of store paths\<close>

text \<open>(hash parts). For ASCII text, the check of a store path hash accepts exactly the texts of 32
  characters of the Nix base-32 alphabet.\<close>

theorem from_hash_exact:
  assumes "ascii h"
  shows "is_ok (from_hash h) \<longleftrightarrow> length h = 32 \<and> set h \<subseteq> set NIX_BASE32_ALPHABET"
  using from_hash_ascii[OF assms] by (auto simp: is_ok_iff hash_text_def HASH_LENGTH_def)

theorem from_hash_exact_witness: "\<not> is_ok (from_hash ''not a hash'')"
  using from_hash_exact[of "''not a hash''"] by (simp add: ascii_def)

text \<open>(hash parts, other text). The check casts characters to bytes before it looks them up, so a
  text of 16 characters U+0130 is accepted as a hash though none of them is in the alphabet.\<close>

theorem from_hash_accepts_non_ascii:
  "\<exists>h r. from_hash h = Inr r \<and> utf8_chars h = replicate 16 0x130 \<and> \<not> set h \<subseteq> set NIX_BASE32_ALPHABET"
proof -
  let ?h = "concat (replicate 16 [CHR 0xC4, CHR 0xB0])"
  have "from_hash ?h = Inr (StorePathHash ?h)" by code_simp
  moreover have "utf8_chars ?h = replicate 16 0x130" by code_simp
  moreover have "\<not> set ?h \<subseteq> set NIX_BASE32_ALPHABET" by code_simp
  ultimately show ?thesis by blast
qed

subsection \<open>Object paths\<close>

text \<open>C26 (object paths). The path \<^verbatim>\<open>nar/<digest><suffix>\<close> parses to the NAR of that digest and
  compression, and only such paths do; likewise \<^verbatim>\<open><hash>.narinfo\<close>.\<close>

theorem object_path_exact:
  assumes "regexes_ok rx"
  shows "(parse_depot_object_path rx p = Some (NarPath dg c) \<longleftrightarrow> p = ''nar/'' @ dg @ file_suffix c \<and> digest_text dg) \<and>
    (parse_depot_object_path rx p = Some (NarInfoPath x) \<longleftrightarrow> p = hash_str x @ ''.narinfo'' \<and> hash_text (hash_str x))"
proof -
  note rx = regex_engine.intro[OF assms]
  have "parse_depot_object_path rx p = Some (NarPath dg c) \<longleftrightarrow> p = ''nar/'' @ dg @ file_suffix c \<and> digest_text dg"
    using regex_engine.parse_nar[OF rx] regex_engine.parse_nar_inv[OF rx] by blast
  moreover have "parse_depot_object_path rx p = Some (NarInfoPath x) \<longleftrightarrow>
      p = hash_str x @ ''.narinfo'' \<and> hash_text (hash_str x)"
    using regex_engine.parse_narinfo_path[OF rx, of "hash_str x"] regex_engine.parse_narinfo_inv[OF rx] by auto
  ultimately show ?thesis ..
qed

theorem object_path_exact_witness:
  "parse_depot_object_path std_regexes (replicate 32 (CHR ''a'') @ ''.narinfo'') =
   Some (NarInfoPath (StorePathHash (replicate 32 (CHR ''a''))))"
  using object_path_exact[OF std_regexes_ok, of _ "[]" Zstd "StorePathHash (replicate 32 (CHR ''a''))"]
  by (simp add: hash_text_def HASH_LENGTH_def NIX_BASE32_ALPHABET_def)



end
