(* ===== verification/Sql.thy ===== *)
theory Sql
  imports Strings "HOL-Library.Product_Lexorder" "HOL-Library.Option_ord"
begin

text \<open>
  The SQL statements of \<^verbatim>\<open>crates/depot-db\<close> on tables as lists of rows, in row order. A table
  has a key (its primary key, or another unique index); a violated constraint is an error. The
  locale \<open>sql_table\<close> is the interface between the database record and the statements on
  one of its tables.
\<close>

datatype anyhow = Anyhow string

definition context_err :: "string \<Rightarrow> 'e + 'a \<Rightarrow> anyhow + 'a" where
  "context_err msg r = map_err (\<lambda>_. Anyhow msg) r"

lemma context_err_Inr [simp]: "context_err m r = Inr x \<longleftrightarrow> r = Inr x"
  by (simp add: context_err_def)

subsection \<open>Statements\<close>

definition has_key :: "('r \<Rightarrow> 'k) \<Rightarrow> 'k \<Rightarrow> 'r list \<Rightarrow> bool" where
  "has_key key k t = list_ex (\<lambda>r. key r = k) t"

text \<open>\<^verbatim>\<open>SELECT ... WHERE ... LIMIT 1\<close> with \<^verbatim>\<open>fetch_optional\<close>, and \<^verbatim>\<open>ORDER BY\<close>.\<close>

definition fetch_optional :: "('r \<Rightarrow> bool) \<Rightarrow> 'r list \<Rightarrow> 'r option" where
  "fetch_optional p t = find p t"

definition order_by :: "('r \<Rightarrow> 'k :: linorder) \<Rightarrow> 'r list \<Rightarrow> 'r list" where
  "order_by f t = sort_key f t"

definition order_by_desc :: "('r \<Rightarrow> 'k :: linorder) \<Rightarrow> 'r list \<Rightarrow> 'r list" where
  "order_by_desc f t = rev (sort_key f (rev t))"

text \<open>\<^verbatim>\<open>INSERT INTO\<close>: fails on a duplicate key.\<close>

definition insert_row :: "('r \<Rightarrow> 'k) \<Rightarrow> 'r \<Rightarrow> 'r list \<Rightarrow> anyhow + 'r list" where
  "insert_row key r t =
     (if has_key key (key r) t then Inl (Anyhow ''UNIQUE constraint failed'') else Inr (t @ [r]))"

text \<open>\<^verbatim>\<open>INSERT OR IGNORE INTO\<close>.\<close>

definition insert_ignore :: "('r \<Rightarrow> 'k) \<Rightarrow> 'r \<Rightarrow> 'r list \<Rightarrow> 'r list" where
  "insert_ignore key r t = (if has_key key (key r) t then t else t @ [r])"

text \<open>\<^verbatim>\<open>UPDATE ... SET ... WHERE ...\<close>, \<^verbatim>\<open>DELETE FROM ... WHERE ...\<close>.\<close>

definition update_rows :: "('r \<Rightarrow> bool) \<Rightarrow> ('r \<Rightarrow> 'r) \<Rightarrow> 'r list \<Rightarrow> 'r list" where
  "update_rows p f t = map (\<lambda>r. if p r then f r else r) t"

definition delete_rows :: "('r \<Rightarrow> bool) \<Rightarrow> 'r list \<Rightarrow> 'r list" where
  "delete_rows p t = filter (\<lambda>r. \<not> p r) t"

text \<open>\<^verbatim>\<open>INSERT ... ON CONFLICT(key) DO UPDATE SET ...\<close>: \<open>f\<close> updates the row in the table
  from the one that was to be inserted (\<^verbatim>\<open>excluded\<close>).\<close>

definition upsert_row :: "('r \<Rightarrow> 'k) \<Rightarrow> ('r \<Rightarrow> 'r \<Rightarrow> 'r) \<Rightarrow> 'r \<Rightarrow> 'r list \<Rightarrow> 'r list" where
  "upsert_row key f r t =
     (if has_key key (key r) t then update_rows (\<lambda>x. key x = key r) (\<lambda>x. f x r) t else t @ [r])"

definition foreign_key :: "bool \<Rightarrow> anyhow + unit" where
  "foreign_key b = ensure b (Anyhow ''FOREIGN KEY constraint failed'')"

lemma foreign_key_Inr [simp]: "foreign_key b = Inr u \<longleftrightarrow> b"
  by (simp add: foreign_key_def)

text \<open>\<^verbatim>\<open>Vec::dedup\<close>: drops repeats of neighbours.\<close>

fun dedup :: "'a list \<Rightarrow> 'a list" where
  "dedup (x # y # zs) = (if x = y then dedup (y # zs) else x # dedup (y # zs))"
| "dedup xs = xs"

subsection \<open>Unique keys\<close>

definition unique_key :: "('r \<Rightarrow> 'k) \<Rightarrow> 'r list \<Rightarrow> bool" where
  "unique_key key t \<longleftrightarrow> distinct (map key t)"

lemma has_key_iff: "has_key key k t \<longleftrightarrow> k \<in> key ` set t"
  by (auto simp: has_key_def list_ex_iff)

lemma fetch_optional_Some: "fetch_optional p t = Some r \<Longrightarrow> r \<in> set t \<and> p r"
  by (auto simp: fetch_optional_def find_Some_iff)

lemma fetch_optional_None: "fetch_optional p t = None \<longleftrightarrow> (\<forall>r\<in>set t. \<not> p r)"
  by (auto simp: fetch_optional_def find_None_iff)

lemma fetch_unique:
  assumes "unique_key key t"
  shows "fetch_optional (\<lambda>r. key r = k) t = Some r \<longleftrightarrow> r \<in> set t \<and> key r = k"
proof
  assume "r \<in> set t \<and> key r = k"
  then obtain x where x: "fetch_optional (\<lambda>r. key r = k) t = Some x"
    using fetch_optional_None[of "\<lambda>r. key r = k" t] by (cases "fetch_optional (\<lambda>r. key r = k) t") auto
  then have "x \<in> set t" "key x = k" using fetch_optional_Some by fastforce+
  moreover have "inj_on key (set t)" using assms by (simp add: unique_key_def distinct_map)
  ultimately show "fetch_optional (\<lambda>r. key r = k) t = Some r"
    using \<open>r \<in> set t \<and> key r = k\<close> x by (auto dest: inj_onD)
qed (use fetch_optional_Some in fastforce)

lemma unique_inj: "unique_key key t \<Longrightarrow> x \<in> set t \<Longrightarrow> y \<in> set t \<Longrightarrow> key x = key y \<Longrightarrow> x = y"
  by (auto simp: unique_key_def distinct_map inj_on_def)

lemma unique_insert: "unique_key key t \<Longrightarrow> insert_row key r t = Inr t' \<Longrightarrow> unique_key key t'"
  by (auto simp: unique_key_def insert_row_def has_key_iff split: if_splits)

lemma unique_ignore: "unique_key key t \<Longrightarrow> unique_key key (insert_ignore key r t)"
  by (auto simp: unique_key_def insert_ignore_def has_key_iff)

lemma map_update_key: "(\<And>x. x \<in> set t \<Longrightarrow> p x \<Longrightarrow> key (f x) = key x) \<Longrightarrow> map key (update_rows p f t) = map key t"
  by (auto simp: update_rows_def)

lemma unique_update:
  "unique_key key t \<Longrightarrow> (\<And>x. x \<in> set t \<Longrightarrow> p x \<Longrightarrow> key (f x) = key x) \<Longrightarrow> unique_key key (update_rows p f t)"
  by (simp add: unique_key_def map_update_key)

lemma unique_delete: "unique_key key t \<Longrightarrow> unique_key key (delete_rows p t)"
  by (auto simp: unique_key_def delete_rows_def distinct_map inj_on_def)

lemma unique_upsert:
  assumes "unique_key key t" "\<And>x. key x = key r \<Longrightarrow> key (f x r) = key x"
  shows "unique_key key (upsert_row key f r t)"
  using assms unique_update[of key t "\<lambda>x. key x = key r" "\<lambda>x. f x r"]
  by (auto simp: upsert_row_def unique_key_def has_key_iff)

lemma unique_append: "unique_key key t \<Longrightarrow> \<not> has_key key (key r) t \<Longrightarrow> unique_key key (t @ [r])"
  by (auto simp: unique_key_def has_key_iff)

lemma set_insert_row: "insert_row key r t = Inr t' \<Longrightarrow> set t' = insert r (set t)"
  by (auto simp: insert_row_def split: if_splits)

lemma set_insert_ignore: "set (insert_ignore key r t) \<subseteq> insert r (set t)"
  by (auto simp: insert_ignore_def)

lemma insert_ignore_key: "key ` set (insert_ignore key r t) = insert (key r) (key ` set t)"
  by (auto simp: insert_ignore_def has_key_iff)

lemma set_delete [simp]: "set (delete_rows p t) = {r \<in> set t. \<not> p r}"
  by (auto simp: delete_rows_def)

lemma set_update [simp]: "set (update_rows p f t) = (\<lambda>r. if p r then f r else r) ` set t"
  by (simp add: update_rows_def)

lemma update_rows_cases:
  assumes "x \<in> set (update_rows p f t)"
  obtains (same) "x \<in> set t" "\<not> p x" | (changed) y where "y \<in> set t" "p y" "x = f y"
  using assms by (auto split: if_splits)

lemma update_rows_same: "x \<in> set t \<Longrightarrow> \<not> p x \<Longrightarrow> x \<in> set (update_rows p f t)"
  by (auto intro!: image_eqI[of _ _ x])

lemma update_rows_changed: "x \<in> set t \<Longrightarrow> p x \<Longrightarrow> f x \<in> set (update_rows p f t)"
  by (auto intro!: image_eqI[of _ _ x])

lemma set_upsert:
  "set (upsert_row key f r t) =
   (if has_key key (key r) t then (\<lambda>x. if key x = key r then f x r else x) ` set t else insert r (set t))"
  by (auto simp: upsert_row_def)

lemma upsert_exists:
  "\<exists>x\<in>set (upsert_row key f r t). x = r \<or> (\<exists>y\<in>set t. key y = key r \<and> x = f y r)"
proof (cases "has_key key (key r) t")
  case True
  then obtain y where "y \<in> set t" "key y = key r" by (auto simp: has_key_iff)
  then have "f y r \<in> set (upsert_row key f r t)" using True by (force simp: set_upsert)
  then show ?thesis using \<open>y \<in> set t\<close> \<open>key y = key r\<close> by blast
qed (simp add: set_upsert)

lemma upsert_ex:
  "P r \<Longrightarrow> (\<And>y. key y = key r \<Longrightarrow> P (f y r)) \<Longrightarrow> \<exists>x\<in>set (upsert_row key f r t). P x"
  using upsert_exists[of key f r t] by blast

lemma upsert_from:
  "x \<in> set (upsert_row key f r t) \<Longrightarrow>
   x \<in> set t \<and> key x \<noteq> key r \<or> x = r \<or> (\<exists>y\<in>set t. key y = key r \<and> x = f y r)"
  by (auto simp: set_upsert has_key_iff image_iff split: if_splits)

lemma upsert_other:
  assumes "key x \<noteq> key r" "\<And>y. key y = key r \<Longrightarrow> key (f y r) = key r"
  shows "x \<in> set (upsert_row key f r t) \<longleftrightarrow> x \<in> set t"
proof
  assume "x \<in> set (upsert_row key f r t)"
  then show "x \<in> set t" using upsert_from[of x key f r t] assms by auto
next
  assume "x \<in> set t"
  then have "x \<in> (\<lambda>x. if key x = key r then f x r else x) ` set t"
    using assms(1) by (intro image_eqI[of _ _ x]) simp_all
  with \<open>x \<in> set t\<close> show "x \<in> set (upsert_row key f r t)" by (simp add: set_upsert)
qed

text \<open>After an upsert the row with the key is the updated one, every other row is unchanged.\<close>

lemma upsert_lookup:
  assumes "unique_key key t" "\<And>x. key x = key r \<Longrightarrow> key (f x r) = key r"
  shows "fetch_optional (\<lambda>x. key x = k) (upsert_row key f r t) =
    (if k = key r then Some (case fetch_optional (\<lambda>x. key x = k) t of None \<Rightarrow> r | Some x \<Rightarrow> f x r)
     else fetch_optional (\<lambda>x. key x = k) t)"
  using assms
proof (induction t)
  case Nil
  then show ?case by (simp add: upsert_row_def has_key_def fetch_optional_def)
next
  case (Cons y t)
  have u: "unique_key key t" "key y \<notin> key ` set t" using Cons.prems(1) by (auto simp: unique_key_def)
  show ?case
  proof (cases "key y = key r")
    case True
    then have "key x \<noteq> key r" if "x \<in> set t" for x using u(2) that by (metis image_eqI)
    then have "update_rows (\<lambda>x. key x = key r) (\<lambda>x. f x r) t = t"
      by (auto simp: update_rows_def intro: map_idI)
    then have e: "upsert_row key f r (y # t) = f y r # t"
      using True by (simp add: upsert_row_def has_key_def update_rows_def)
    show ?thesis using True Cons.prems(2)[of y] by (simp add: e fetch_optional_def)
  next
    case False
    then have "upsert_row key f r (y # t) = y # upsert_row key f r t"
      by (simp add: upsert_row_def has_key_def update_rows_def)
    with Cons.IH[OF u(1) Cons.prems(2)] False show ?thesis by (auto simp: fetch_optional_def)
  qed
qed

lemma find_append: "find p (xs @ ys) = (case find p xs of None \<Rightarrow> find p ys | Some x \<Rightarrow> Some x)"
  by (induction xs) auto

lemma insert_lookup:
  assumes "insert_row key r t = Inr t'"
  shows "fetch_optional (\<lambda>x. key x = k) t' =
    (if k = key r then Some r else fetch_optional (\<lambda>x. key x = k) t)"
proof -
  have t: "t' = t @ [r]" "key r \<notin> key ` set t"
    using assms by (auto simp: insert_row_def has_key_iff split: if_splits)
  then have "find (\<lambda>x. key x = key r) t = None" by (auto simp: find_None_iff image_iff)
  then show ?thesis by (auto simp: t fetch_optional_def find_append split: option.splits)
qed

lemma set_dedup [simp]: "set (dedup xs) = set xs"
  by (induction xs rule: dedup.induct) auto

lemma distinct_dedup: "sorted xs \<Longrightarrow> distinct (dedup xs)"
proof (induction xs rule: dedup.induct)
  case (1 x y zs)
  show ?case
  proof (cases "x = y")
    case False
    then have "x \<notin> set (y # zs)" using 1(3) by fastforce
    with 1 False show ?thesis by simp
  qed (use 1 in simp)
qed auto

lemma dedup_sort_sorted: "sorted xs \<Longrightarrow> sorted (dedup xs)"
proof (induction xs rule: dedup.induct)
  case (1 x y zs)
  then show ?case by (cases "x = y") auto
qed auto

lemma set_order_by [simp]: "set (order_by f t) = set t" "set (order_by_desc f t) = set t"
  by (simp_all add: order_by_def order_by_desc_def)

lemma length_order_by [simp]: "length (order_by f t) = length t" "length (order_by_desc f t) = length t"
  by (simp_all add: order_by_def order_by_desc_def)

subsection \<open>The interface of a table\<close>

text \<open>
  A table of the database: how to read it, how to replace it, and its key. The laws say that the
  table is a field of the state, so an operation on it changes nothing else. The lemmas give, for
  every table at once, what the statements do to the state.
\<close>

locale sql_table =
  fixes get :: "'s \<Rightarrow> 'r list" and put :: "'r list \<Rightarrow> 's \<Rightarrow> 's" and key :: "'r \<Rightarrow> 'k"
  assumes get_put: "get (put t s) = t"
    and put_get: "put (get s) s = s"
    and put_put: "put t' (put t s) = put t' s"
begin

lemma lookup_upsert:
  assumes "unique_key key (get s)" "\<And>x. key x = key r \<Longrightarrow> key (f x r) = key r"
  shows "fetch_optional (\<lambda>x. key x = key r) (get (put (upsert_row key f r (get s)) s)) =
    Some (case fetch_optional (\<lambda>x. key x = key r) (get s) of None \<Rightarrow> r | Some x \<Rightarrow> f x r)"
  using upsert_lookup[of key "get s" r f "key r"] assms by (simp add: get_put)

lemma lookup_upsert_other:
  assumes "unique_key key (get s)" "\<And>x. key x = key r \<Longrightarrow> key (f x r) = key r" "k \<noteq> key r"
  shows "fetch_optional (\<lambda>x. key x = k) (get (put (upsert_row key f r (get s)) s)) =
    fetch_optional (\<lambda>x. key x = k) (get s)"
  using upsert_lookup[of key "get s" r f k] assms by (simp add: get_put)

lemma upsert_keeps_unique:
  assumes "unique_key key (get s)" "\<And>x. key x = key r \<Longrightarrow> key (f x r) = key r"
  shows "unique_key key (get (put (upsert_row key f r (get s)) s))"
  using unique_upsert[of key "get s" r f] assms by (simp add: get_put)

lemma ignore_again:
  "put (insert_ignore key r (get (put (insert_ignore key r (get s)) s))) (put (insert_ignore key r (get s)) s)
   = put (insert_ignore key r (get s)) s"
  by (simp add: get_put put_put insert_ignore_def has_key_iff)

lemma delete_gone:
  "\<not> has_key key k (get (put (delete_rows (\<lambda>r. key r = k) (get s)) s))"
  by (auto simp: get_put has_key_iff)

lemma delete_other:
  "r \<in> set (get s) \<Longrightarrow> key r \<noteq> k \<Longrightarrow> r \<in> set (get (put (delete_rows (\<lambda>r. key r = k) (get s)) s))"
  by (simp add: get_put)

end

end
