(* ===== verification/DbModels.thy ===== *)
theory DbModels
  imports Sql CoreIds
begin

text \<open>
  \<^verbatim>\<open>crates/depot-db/src/models.rs\<close>, \<^verbatim>\<open>crates/depot-store/src/blob.rs\<close> and the tables of the
  migrations: rows as SQLite stores them (text and integers), the records of the program, and the
  checked conversions between them. The crates \<^verbatim>\<open>uuid\<close>, \<^verbatim>\<open>time\<close> and \<^verbatim>\<open>wildmatch\<close> and
  the date functions of SQLite are fields of a record \<open>platform\<close>.
\<close>

type_synonym datetime = int \<comment> \<open>\<^verbatim>\<open>OffsetDateTime\<close> in UTC: nanoseconds since the epoch\<close>

record platform =
  uuid_parse :: "string \<Rightarrow> uuid option" \<comment> \<open>\<^verbatim>\<open>Uuid::parse_str\<close>\<close>
  rfc3339_parse :: "string \<Rightarrow> datetime option"
  rfc3339_format :: "datetime \<Rightarrow> string option"
  sql_now :: "datetime \<Rightarrow> string" \<comment> \<open>\<^verbatim>\<open>strftime('%Y-%m-%dT%H:%M:%fZ', 'now')\<close>\<close>
  unixepoch :: "string \<Rightarrow> int option"
  wild_matches :: "string \<Rightarrow> string \<Rightarrow> bool" \<comment> \<open>\<^verbatim>\<open>WildMatch::new(p).matches(s)\<close>\<close>

text \<open>What is documented of them, for moments after the epoch.\<close>

definition platform_ok :: "platform \<Rightarrow> bool" where
  "platform_ok pf \<longleftrightarrow>
     (\<forall>t\<ge>0. rfc3339_parse pf (sql_now pf t) = Some (t div 1000000 * 1000000)) \<and>
     (\<forall>t\<ge>0. \<exists>s. rfc3339_format pf t = Some s \<and> rfc3339_parse pf s = Some t) \<and>
     (\<forall>t\<ge>0. unixepoch pf (sql_now pf t) = Some (t div 1000000000)) \<and>
     (\<forall>s. wild_matches pf ''*'' s)"

definition try_u32 :: "int \<Rightarrow> 32 word option" where
  "try_u32 x = (if 0 \<le> x \<and> x < 2 ^ 32 then Some (word_of_int x) else None)"

definition try_u64 :: "int \<Rightarrow> 64 word option" where
  "try_u64 x = (if 0 \<le> x \<and> x < 2 ^ 64 then Some (word_of_int x) else None)"

definition try_i64 :: "64 word \<Rightarrow> int option" where
  "try_i64 w = (if uint w < 2 ^ 63 then Some (uint w) else None)"

lemma try_i64_u64: "try_i64 w = Some x \<Longrightarrow> try_u64 x = Some w"
  using uint_nonnegative[of w] unsigned_less[of w, where ?'a = int] by (auto simp: try_i64_def try_u64_def split: if_splits)

lemma try_u32_uint [simp]: "try_u32 (uint (w :: 32 word)) = Some w"
proof -
  have "uint w < 2 ^ LENGTH(32)" by (rule unsigned_less)
  then show ?thesis by (simp add: try_u32_def)
qed

subsection \<open>Blob metadata\<close>

record blob_metadata =
  bm_content_type :: string
  bm_content_length :: "64 word option"
  bm_etag :: "string option"
  bm_last_modified :: "datetime option"

subsection \<open>Rows\<close>

record project_row =
  prow_id :: string
  prow_slug :: string
  prow_display_name :: string
  prow_public :: int
  prow_storage_id :: string
  prow_created_at :: string

record upstream_row =
  urow_id :: string
  urow_name :: string
  urow_base_url :: string
  urow_priority :: int
  urow_enabled :: int
  urow_created_at :: string

record path_info_row =
  pirow_hash :: string
  pirow_store_path :: string
  pirow_url :: string
  pirow_compression :: string
  pirow_nar_hash :: string
  pirow_nar_size :: int
  pirow_deriver :: "string option"
  pirow_ca :: "string option"

record path_text_row = \<comment> \<open>\<^verbatim>\<open>path_references\<close> and \<^verbatim>\<open>path_signatures\<close>\<close>
  pt_hash :: string
  pt_text :: string
  pt_ordinal :: int

record storage_object_row =
  so_storage_id :: string
  so_object_path :: string
  so_content_type :: string
  so_content_length :: "int option"
  so_etag :: "string option"
  so_last_modified :: "string option"
  so_deleted_at :: "string option"
  so_first_deleted_at :: "string option"

record build_row =
  brow_id :: string
  brow_project_id :: string
  brow_ref_name :: string
  brow_revision :: "string option"
  brow_status :: string
  brow_created_at :: string
  brow_finalized_at :: "string option"

record build_path_row =
  bp_build :: string
  bp_hash :: string

record project_ref_row =
  ref_project :: string
  ref_name :: string
  ref_build :: string
  ref_updated_at :: string

record path_object_row =
  po_hash :: string
  po_path :: string
  po_kind :: string

record pin_row =
  pin_scope :: string
  pin_name :: string
  pin_project :: "string option"
  pin_hash :: string
  pin_store_path :: string
  pin_created_at :: string
  pin_updated_at :: string

record oidc_identity_row =
  oi_project :: string
  oi_provider :: string
  oi_repository :: string
  oi_pattern :: string
  oi_created_at :: string

record access_token_row =
  at_id :: string
  at_token_hash :: string
  at_name :: string
  at_project :: string
  at_created_at :: string
  at_expires_at :: "string option"
  at_revoked_at :: "string option"

record token_pattern_row =
  tp_token :: string
  tp_pattern :: string

record retention_policy_row =
  rp_project :: string
  rp_keep :: int
  rp_grace :: int

record retention_rule_row =
  rr_id :: string
  rr_project :: string
  rr_priority :: int
  rr_pattern :: string
  rr_ttl :: "int option"
  rr_keep :: "int option"

record signing_key_row =
  sk_id :: string
  sk_project :: string
  sk_name :: string
  sk_public :: string
  sk_encrypted :: string
  sk_nonce :: string
  sk_created_at :: string
  sk_retired_at :: "string option"

subsection \<open>Records\<close>

record project_record =
  prj_id :: uuid
  prj_slug :: project_slug
  prj_display_name :: string
  prj_public :: bool
  prj_storage_id :: storage_id
  prj_created_at :: datetime

definition parse_slug :: "string \<Rightarrow> anyhow + project_slug" where
  "parse_slug s = map_err (\<lambda>_. Anyhow (''invalid project slug '' @ s)) (slug_parse s)"

definition parse_uuid :: "platform \<Rightarrow> string \<Rightarrow> string \<Rightarrow> anyhow + uuid" where
  "parse_uuid pf msg s = ok_or (Anyhow msg) (uuid_parse pf s)"

definition parse_time :: "platform \<Rightarrow> string \<Rightarrow> string \<Rightarrow> anyhow + datetime" where
  "parse_time pf msg s = ok_or (Anyhow msg) (rfc3339_parse pf s)"

definition parse_time_opt :: "platform \<Rightarrow> string \<Rightarrow> string option \<Rightarrow> anyhow + datetime option" where
  "parse_time_opt pf msg = transpose_res (parse_time pf msg)"

definition project_into_record :: "platform \<Rightarrow> project_row \<Rightarrow> anyhow + project_record" where
  "project_into_record pf r =
     and_then (parse_uuid pf ''parsing project id'' (prow_id r)) (\<lambda>i.
     and_then (parse_slug (prow_slug r)) (\<lambda>slug.
     and_then (context_err ''parsing project storage_id'' (storage_id_new (prow_storage_id r))) (\<lambda>sid.
     and_then (parse_time pf ''parsing project created_at'' (prow_created_at r)) (\<lambda>created.
     Inr \<lparr>prj_id = i, prj_slug = slug, prj_display_name = prow_display_name r,
          prj_public = (prow_public r \<noteq> 0), prj_storage_id = sid, prj_created_at = created\<rparr>))))"

record oidc_identity_record =
  oid_project_slug :: project_slug
  oid_provider :: string
  oid_repository :: string
  oid_ref_pattern :: "string option"
  oid_created_at :: datetime

text \<open>An empty stored pattern stands for no pattern.\<close>

definition pattern_option :: "string \<Rightarrow> string option" where
  "pattern_option p = (if p = [] then None else Some p)"

text \<open>The lookup rows that join a table with the project carry the slug as an argument.\<close>

definition oidc_into_record :: "platform \<Rightarrow> string \<Rightarrow> oidc_identity_row \<Rightarrow> anyhow + oidc_identity_record" where
  "oidc_into_record pf project_slug r =
     and_then (parse_slug project_slug) (\<lambda>slug.
     and_then (parse_time pf ''parsing project_oidc_identity created_at'' (oi_created_at r)) (\<lambda>created.
     Inr \<lparr>oid_project_slug = slug, oid_provider = oi_provider r, oid_repository = oi_repository r,
          oid_ref_pattern = pattern_option (oi_pattern r), oid_created_at = created\<rparr>))"

record access_token_record =
  atr_id :: string
  atr_name :: string
  atr_project_slug :: project_slug
  atr_ref_pattern :: "string option"
  atr_created_at :: datetime
  atr_expires_at :: "datetime option"
  atr_revoked_at :: "datetime option"

definition access_token_into_record ::
    "platform \<Rightarrow> access_token_row \<times> string \<times> string \<Rightarrow> anyhow + access_token_record" where
  "access_token_into_record pf = (\<lambda>(r, project_slug, ref_pattern).
     and_then (parse_slug project_slug) (\<lambda>slug.
     and_then (parse_time pf ''parsing access token created_at'' (at_created_at r)) (\<lambda>created.
     and_then (parse_time_opt pf ''parsing access token expires_at'' (at_expires_at r)) (\<lambda>expires.
     and_then (parse_time_opt pf ''parsing access token revoked_at'' (at_revoked_at r)) (\<lambda>revoked.
     Inr \<lparr>atr_id = at_id r, atr_name = at_name r, atr_project_slug = slug,
          atr_ref_pattern = pattern_option ref_pattern, atr_created_at = created,
          atr_expires_at = expires, atr_revoked_at = revoked\<rparr>)))))"

record upstream_record =
  ups_id :: uuid
  ups_name :: string
  ups_base_url :: string
  ups_priority :: "32 word"
  ups_enabled :: bool
  ups_created_at :: datetime

definition upstream_into_record :: "platform \<Rightarrow> upstream_row \<Rightarrow> anyhow + upstream_record" where
  "upstream_into_record pf r =
     and_then (parse_uuid pf ''parsing upstream id'' (urow_id r)) (\<lambda>i.
     and_then (ok_or (Anyhow ''converting upstream priority'') (try_u32 (urow_priority r))) (\<lambda>prio.
     and_then (parse_time pf ''parsing upstream created_at'' (urow_created_at r)) (\<lambda>created.
     Inr \<lparr>ups_id = i, ups_name = urow_name r, ups_base_url = urow_base_url r, ups_priority = prio,
          ups_enabled = (urow_enabled r \<noteq> 0), ups_created_at = created\<rparr>)))"

record upstream_cache = \<comment> \<open>\<^verbatim>\<open>depot-store/src/upstream.rs\<close>\<close>
  uc_id :: uuid
  uc_name :: string
  uc_base_url :: string
  uc_priority :: "32 word"

definition upstream_cache_new :: "uuid \<Rightarrow> string \<Rightarrow> string \<Rightarrow> 32 word \<Rightarrow> upstream_cache" where
  "upstream_cache_new i name base_url priority =
     \<lparr>uc_id = i, uc_name = name, uc_base_url = trim_end_char (CHR ''/'') base_url, uc_priority = priority\<rparr>"

definition to_runtime_config :: "upstream_record \<Rightarrow> upstream_cache" where
  "to_runtime_config r = upstream_cache_new (ups_id r) (ups_name r) (ups_base_url r) (ups_priority r)"

datatype build_status = Pending | Finalized

fun status_str :: "build_status \<Rightarrow> string" where
  "status_str Pending = ''pending''"
| "status_str Finalized = ''finalized''"

definition status_parse :: "string \<Rightarrow> anyhow + build_status" where
  "status_parse v = (if v = ''pending'' then Inr Pending else if v = ''finalized'' then Inr Finalized
     else Inl (Anyhow (''invalid build status '' @ v)))"

lemma status_parse_str [simp]: "status_parse (status_str x) = Inr x"
  by (cases x) (simp_all add: status_parse_def)

record build_record =
  bld_id :: uuid
  bld_project_id :: uuid
  bld_ref_name :: string
  bld_revision :: "string option"
  bld_status :: build_status
  bld_created_at :: datetime
  bld_finalized_at :: "datetime option"

definition build_into_record :: "platform \<Rightarrow> build_row \<Rightarrow> anyhow + build_record" where
  "build_into_record pf r =
     and_then (parse_uuid pf ''parsing build id'' (brow_id r)) (\<lambda>i.
     and_then (parse_uuid pf ''parsing build project_id'' (brow_project_id r)) (\<lambda>p.
     and_then (status_parse (brow_status r)) (\<lambda>status.
     and_then (parse_time pf ''parsing build created_at'' (brow_created_at r)) (\<lambda>created.
     and_then (parse_time_opt pf ''parsing build finalized_at'' (brow_finalized_at r)) (\<lambda>fin.
     Inr \<lparr>bld_id = i, bld_project_id = p, bld_ref_name = brow_ref_name r,
          bld_revision = brow_revision r, bld_status = status, bld_created_at = created,
          bld_finalized_at = fin\<rparr>)))))"

record build_context =
  ctx_build_id :: uuid
  ctx_project_id :: uuid
  ctx_project_slug :: project_slug
  ctx_ref_name :: string
  ctx_revision :: "string option"
  ctx_status :: build_status

definition context_into_record :: "platform \<Rightarrow> build_row \<times> project_row \<Rightarrow> anyhow + build_context" where
  "context_into_record pf = (\<lambda>(b, p).
     and_then (parse_uuid pf ''parsing build context build_id'' (brow_id b)) (\<lambda>bi.
     and_then (parse_uuid pf ''parsing build context project_id'' (prow_id p)) (\<lambda>pi.
     and_then (parse_slug (prow_slug p)) (\<lambda>slug.
     and_then (status_parse (brow_status b)) (\<lambda>status.
     Inr \<lparr>ctx_build_id = bi, ctx_project_id = pi, ctx_project_slug = slug,
          ctx_ref_name = brow_ref_name b, ctx_revision = brow_revision b, ctx_status = status\<rparr>)))))"

record pin_record =
  pn_scope_key :: string
  pn_name :: string
  pn_project_slug :: "project_slug option"
  pn_hash :: string
  pn_store_path :: string
  pn_created_at :: datetime
  pn_updated_at :: datetime

definition pin_into_record :: "platform \<Rightarrow> pin_row \<times> string option \<Rightarrow> anyhow + pin_record" where
  "pin_into_record pf = (\<lambda>(r, project_slug).
     and_then (transpose_res parse_slug project_slug) (\<lambda>slug.
     and_then (parse_time pf ''parsing pin created_at'' (pin_created_at r)) (\<lambda>created.
     and_then (parse_time pf ''parsing pin updated_at'' (pin_updated_at r)) (\<lambda>updated.
     Inr \<lparr>pn_scope_key = pin_scope r, pn_name = pin_name r, pn_project_slug = slug,
          pn_hash = pin_hash r, pn_store_path = pin_store_path r, pn_created_at = created,
          pn_updated_at = updated\<rparr>))))"

record signing_key_record =
  psk_id :: string
  psk_project_slug :: project_slug
  psk_name :: string
  psk_public :: string
  psk_encrypted :: string
  psk_nonce :: string
  psk_created_at :: datetime
  psk_retired_at :: "datetime option"

definition signing_key_into_record ::
    "platform \<Rightarrow> string \<Rightarrow> signing_key_row \<Rightarrow> anyhow + signing_key_record" where
  "signing_key_into_record pf project_slug r =
     and_then (parse_slug project_slug) (\<lambda>slug.
     and_then (parse_time pf ''parsing project signing key created_at'' (sk_created_at r)) (\<lambda>created.
     and_then (parse_time_opt pf ''parsing project signing key retired_at'' (sk_retired_at r)) (\<lambda>retired.
     Inr \<lparr>psk_id = sk_id r, psk_project_slug = slug, psk_name = sk_name r, psk_public = sk_public r,
          psk_encrypted = sk_encrypted r, psk_nonce = sk_nonce r, psk_created_at = created,
          psk_retired_at = retired\<rparr>)))"

record retention_rule =
  rule_priority :: "32 word"
  rule_pattern :: string
  rule_ttl :: "64 word option"
  rule_keep :: "32 word option"

record retention_policy =
  pol_project_slug :: project_slug
  pol_inherited :: bool
  pol_keep :: "32 word"
  pol_grace :: "64 word"
  pol_rules :: "retention_rule list"

definition policy_into_record ::
    "string \<Rightarrow> int \<Rightarrow> retention_policy_row \<Rightarrow> retention_rule list \<Rightarrow> anyhow + retention_policy" where
  "policy_into_record project_slug inherited_default r rules =
     and_then (parse_slug project_slug) (\<lambda>slug.
     and_then (ok_or (Anyhow ''converting keep_latest_builds_per_ref'') (try_u32 (rp_keep r))) (\<lambda>keep.
     and_then (ok_or (Anyhow ''converting object_delete_grace_seconds'') (try_u64 (rp_grace r))) (\<lambda>grace.
     Inr \<lparr>pol_project_slug = slug, pol_inherited = (inherited_default \<noteq> 0), pol_keep = keep,
          pol_grace = grace, pol_rules = rules\<rparr>)))"

definition rule_into_record :: "retention_rule_row \<Rightarrow> anyhow + retention_rule" where
  "rule_into_record r =
     and_then (ok_or (Anyhow ''converting retention priority'') (try_u32 (rr_priority r))) (\<lambda>prio.
     and_then (transpose_res (\<lambda>v. ok_or (Anyhow ''converting retention ttl_seconds'') (try_u64 v)) (rr_ttl r)) (\<lambda>ttl.
     and_then (transpose_res (\<lambda>v. ok_or (Anyhow ''converting retention keep_builds'') (try_u32 v)) (rr_keep r)) (\<lambda>keep.
     Inr \<lparr>rule_priority = prio, rule_pattern = rr_pattern r, rule_ttl = ttl, rule_keep = keep\<rparr>)))"

record storage_object_record =
  sor_storage_id :: storage_id
  sor_metadata :: blob_metadata

definition storage_object_into_record :: "platform \<Rightarrow> storage_object_row \<Rightarrow> anyhow + storage_object_record" where
  "storage_object_into_record pf r =
     and_then (parse_time_opt pf ''parsing storage object last_modified'' (so_last_modified r)) (\<lambda>last_modified.
     and_then (context_err ''parsing storage object storage_id'' (storage_id_new (so_storage_id r))) (\<lambda>sid.
     and_then (transpose_res (\<lambda>v. ok_or (Anyhow ''converting content_length to u64'') (try_u64 v))
         (so_content_length r)) (\<lambda>len.
     Inr \<lparr>sor_storage_id = sid, sor_metadata = \<lparr>bm_content_type = so_content_type r,
          bm_content_length = len, bm_etag = so_etag r, bm_last_modified = last_modified\<rparr>\<rparr>)))"

subsection \<open>A platform\<close>

text \<open>
  A concrete platform for which the contract holds: moments are written as decimal numbers and
  patterns match as the glob patterns of \<^verbatim>\<open>wildmatch\<close> do.
\<close>

fun glob :: "string \<Rightarrow> string \<Rightarrow> bool" where
  "glob [] [] = True"
| "glob [] (c # s) = False"
| "glob (p # ps) [] = (p = CHR ''*'' \<and> glob ps [])"
| "glob (p # ps) (c # s) =
     (if p = CHR ''*'' then glob ps (c # s) \<or> glob (p # ps) s
      else (p = CHR ''?'' \<or> p = c) \<and> glob ps s)"

lemma glob_star [simp]: "glob ''*'' s"
  by (induction s) auto

lemma glob_literal: "CHR ''*'' \<notin> set p \<Longrightarrow> CHR ''?'' \<notin> set p \<Longrightarrow> glob p s \<longleftrightarrow> s = p"
  by (induction p s rule: glob.induct) auto

definition std_platform :: platform where
  "std_platform = \<lparr>uuid_parse = Some, rfc3339_parse = (\<lambda>s. Some (int (digits_value s))),
     rfc3339_format = (\<lambda>t. Some (show_nat (nat t))),
     sql_now = (\<lambda>t. show_nat (nat (t div 1000000 * 1000000))),
     unixepoch = (\<lambda>s. Some (int (digits_value s) div 1000000000)), wild_matches = glob\<rparr>"

lemma std_platform_ok: "platform_ok std_platform"
proof -
  have "t div 1000000 * 1000000 div 1000000000 = t div 1000000000" for t :: int
  proof -
    have "t div 1000000000 = t div 1000000 div 1000" using zdiv_zmult2_eq[of 1000 t 1000000] by simp
    moreover have "t div 1000000 * 1000000 div (1000 * 1000000) = t div 1000000 div 1000"
      by (rule div_mult_mult2) simp
    ultimately show ?thesis by simp
  qed
  then show ?thesis
    by (simp add: platform_ok_def std_platform_def digits_value_show del: show_nat.simps)
qed

end
