(* ===== verification/BlobStore.thy ===== *)
theory BlobStore
  imports DbModels
begin

text \<open>
  \<^verbatim>\<open>crates/depot-store\<close>: the trait \<^verbatim>\<open>DepotStorage\<close> of \<^verbatim>\<open>local.rs\<close>, the catalog of the
  configured storages (\<^verbatim>\<open>catalog.rs\<close>) and the streams that are uploaded. A storage is a record of
  operations on the outside world, whose state is \<open>'w\<close>; the locale \<open>object_storage\<close> is what the
  program relies on.
\<close>

subsection \<open>Streams\<close>

text \<open>An asynchronous reader: the chunks that it delivers one after the other, and the error it ends
  with, if any. A read takes at most as many bytes as asked for and never crosses a chunk; no bytes mean
  the end of the stream.\<close>

record upload_reader =
  rd_chunks :: "bytes list"
  rd_error :: "string option"

fun read_chunks :: "nat \<Rightarrow> bytes list \<Rightarrow> bytes \<times> bytes list" where
  "read_chunks n [] = ([], [])"
| "read_chunks n (c # cs) = (if c = [] then read_chunks n cs else (take n c, drop n c # cs))"

definition reader_read :: "nat \<Rightarrow> upload_reader \<Rightarrow> (string + bytes) \<times> upload_reader" where
  "reader_read n r =
     (let (bs, cs) = read_chunks n (rd_chunks r) in
      if bs = [] \<and> rd_error r \<noteq> None then (Inl (the (rd_error r)), r\<lparr>rd_chunks := cs\<rparr>)
      else (Inr bs, r\<lparr>rd_chunks := cs\<rparr>))"

definition rd_bytes :: "upload_reader \<Rightarrow> bytes" where
  "rd_bytes r = concat (rd_chunks r)"

text \<open>An error of a call becomes an \<^verbatim>\<open>anyhow\<close> error with a context; \<^verbatim>\<open>str::split\<close>.\<close>

definition io_context :: "string \<Rightarrow> ('w, 'e, 'a) io \<Rightarrow> ('w, anyhow, 'a) io" where
  "io_context msg m = (\<lambda>w. case m w of (r, w') \<Rightarrow> (context_err msg r, w'))"

lemma io_context_eq: "io_context msg m w = (r, w') \<Longrightarrow> \<exists>r0. m w = (r0, w') \<and> r = context_err msg r0"
  by (auto simp: io_context_def split: prod.splits)

lemma is_ok_context [simp]: "is_ok (context_err msg r) = is_ok r"
  by (cases r) (simp_all add: context_err_def)

fun split_char :: "'a \<Rightarrow> 'a list \<Rightarrow> 'a list list" where
  "split_char d [] = [[]]"
| "split_char d (c # cs) =
     (if c = d then [] # split_char d cs
      else case split_char d cs of [] \<Rightarrow> [[c]] | w # ws \<Rightarrow> (c # w) # ws)"

lemma split_char_parts: "w \<in> set (split_char d s) \<Longrightarrow> d \<notin> set w"
  by (induction s arbitrary: w) (auto split: if_splits list.splits)

subsection \<open>The trait\<close>

type_synonym part_number = "32 word" \<comment> \<open>\<^verbatim>\<open>i32\<close>, read with \<^const>\<open>sint\<close>\<close>

record multipart_upload =
  mu_upload_id :: string
  mu_part_size :: "64 word"

record presigned_upload_part_url =
  pu_url :: string
  pu_expires_at :: datetime

record completed_multipart_upload_part =
  cp_part_number :: part_number
  cp_etag :: string

record completed_multipart_upload =
  cm_content_length :: "64 word"
  cm_e_tag :: "string option"

record 'w depot_storage =
  ds_head :: "string \<Rightarrow> ('w, anyhow, blob_metadata option) io"
  ds_get_bytes :: "string \<Rightarrow> ('w, anyhow, bytes option) io"
  ds_put_bytes :: "string \<Rightarrow> bytes \<Rightarrow> ('w, anyhow, unit) io"
  ds_put_stream :: "string \<Rightarrow> upload_reader \<Rightarrow> ('w, anyhow, 64 word) io"
  ds_create_multipart_upload :: "string \<Rightarrow> ('w, anyhow, multipart_upload option) io"
  ds_presign_multipart_upload_part ::
    "string \<Rightarrow> string \<Rightarrow> part_number \<Rightarrow> 64 word \<Rightarrow> int \<Rightarrow> ('w, anyhow, presigned_upload_part_url option) io"
  ds_complete_multipart_upload ::
    "string \<Rightarrow> string \<Rightarrow> completed_multipart_upload_part list \<Rightarrow> 64 word \<Rightarrow>
     ('w, anyhow, completed_multipart_upload) io"
  ds_abort_multipart_upload :: "string \<Rightarrow> string \<Rightarrow> ('w, anyhow, unit) io"
  ds_delete :: "string \<Rightarrow> ('w, anyhow, unit) io"

definition storage_contains :: "'w depot_storage \<Rightarrow> string \<Rightarrow> ('w, anyhow, bool) io" where
  "storage_contains st object_path = bind_io (ds_head st object_path) (\<lambda>m. return_io (m \<noteq> None))"

text \<open>The provided methods: without multipart uploads.\<close>

definition no_multipart :: anyhow where
  "no_multipart = Anyhow ''storage backend does not support multipart uploads''"

definition default_create_multipart_upload :: "string \<Rightarrow> ('w, anyhow, multipart_upload option) io" where
  "default_create_multipart_upload object_path = return_io None"

definition default_presign_multipart_upload_part ::
    "string \<Rightarrow> string \<Rightarrow> part_number \<Rightarrow> 64 word \<Rightarrow> int \<Rightarrow> ('w, anyhow, presigned_upload_part_url option) io" where
  "default_presign_multipart_upload_part object_path upload_id n len expires_in = return_io None"

definition default_complete_multipart_upload ::
    "string \<Rightarrow> string \<Rightarrow> completed_multipart_upload_part list \<Rightarrow> 64 word \<Rightarrow>
     ('w, anyhow, completed_multipart_upload) io" where
  "default_complete_multipart_upload object_path upload_id parts len = fail_io no_multipart"

definition default_abort_multipart_upload :: "string \<Rightarrow> string \<Rightarrow> ('w, anyhow, unit) io" where
  "default_abort_multipart_upload object_path upload_id = fail_io no_multipart"

subsection \<open>The catalog\<close>

text \<open>The backends by id; a \<^verbatim>\<open>BTreeMap\<close> is an association list with the ids in order.\<close>

record 'w storage_catalog =
  sc_default :: storage_id
  sc_backends :: "(storage_id \<times> 'w depot_storage) list"

definition catalog_new ::
    "storage_id \<Rightarrow> (storage_id \<times> 'w depot_storage) list \<Rightarrow> anyhow + 'w storage_catalog" where
  "catalog_new default_id backends =
     (if backends = [] then Inl (Anyhow ''at least one storage backend must be configured'')
      else if map_of backends default_id = None
      then Inl (Anyhow (''default storage backend '' @ storage_id_str default_id @ '' is not configured''))
      else Inr \<lparr>sc_default = default_id, sc_backends = backends\<rparr>)"

definition is_single_backend :: "'w storage_catalog \<Rightarrow> bool" where
  "is_single_backend c = (length (sc_backends c) = 1)"

definition catalog_storage :: "'w storage_catalog \<Rightarrow> storage_id \<Rightarrow> anyhow + 'w depot_storage" where
  "catalog_storage c sid =
     ok_or (Anyhow (''storage backend '' @ storage_id_str sid @ '' is not configured'')) (map_of (sc_backends c) sid)"

definition default_storage :: "'w storage_catalog \<Rightarrow> anyhow + 'w depot_storage" where
  "default_storage c = catalog_storage c (sc_default c)"

definition resolve_optional_storage_id ::
    "'w storage_catalog \<Rightarrow> storage_id option \<Rightarrow> anyhow + storage_id" where
  "resolve_optional_storage_id c sid =
     (case sid of
        Some sid \<Rightarrow> and_then (catalog_storage c sid) (\<lambda>_. Inr sid)
      | None \<Rightarrow> if is_single_backend c then Inr (sc_default c)
          else Inl (Anyhow ''storage id is required when multiple storage backends are configured''))"

lemma catalog_default_ok: "catalog_new d bs = Inr c \<Longrightarrow> \<exists>st. default_storage c = Inr st \<and> (sc_default c, st) \<in> set bs"
  by (auto simp: catalog_new_def default_storage_def catalog_storage_def split: if_splits dest: map_of_SomeD)

lemma resolve_storage_ok:
  "catalog_new d bs = Inr c \<Longrightarrow> resolve_optional_storage_id c sid = Inr i \<Longrightarrow> is_ok (catalog_storage c i)"
  using catalog_default_ok[of d bs c]
  by (auto simp: resolve_optional_storage_id_def default_storage_def is_ok_iff split: option.splits if_splits)

subsection \<open>The interface\<close>

text \<open>
  What a client relies on. \<open>contents\<close> is the content of the object under a path; two paths with the
  same \<open>key\<close> name the same object. The laws are about the paths of objects that clients use
  (\<open>visible\<close>): a storage may keep files of its own beside them. A call that fails may have had its
  effect on this object, but never another one; a stream that breaks off is never stored.
\<close>

definition written :: "bool \<Rightarrow> bool \<Rightarrow> 'a \<Rightarrow> 'a \<Rightarrow> 'a \<Rightarrow> bool" where
  "written success same new old now \<longleftrightarrow>
     (if success then now = (if same then new else old) else now = old \<or> same \<and> now = new)"

locale object_storage =
  fixes st :: "'w depot_storage" and contents :: "'w \<Rightarrow> string \<Rightarrow> bytes option" and key :: "string \<Rightarrow> 'k"
    and visible :: "string \<Rightarrow> bool" and ok :: "'w \<Rightarrow> bool"
  assumes get_ok: "ok w \<Longrightarrow> ds_get_bytes st p w = (r, w') \<Longrightarrow> ok w' \<and>
      (\<forall>q. contents w' q = contents w q) \<and> (\<forall>b. r = Inr b \<longrightarrow> b = contents w p)"
    and head_ok: "ok w \<Longrightarrow> ds_head st p w = (rh, w') \<Longrightarrow> ok w' \<and>
      (\<forall>q. contents w' q = contents w q) \<and> (\<forall>m. rh = Inr m \<longrightarrow> (m = None \<longleftrightarrow> contents w p = None))"
    and put_ok: "ok w \<Longrightarrow> visible p \<Longrightarrow> visible q \<Longrightarrow> ds_put_bytes st p b w = (ru, w') \<Longrightarrow> ok w' \<and>
      written (is_ok ru) (key q = key p) (Some b) (contents w q) (contents w' q)"
    and stream_ok: "ok w \<Longrightarrow> visible p \<Longrightarrow> visible q \<Longrightarrow> ds_put_stream st p s w = (rn, w') \<Longrightarrow> ok w' \<and>
      written (is_ok rn) (key q = key p) (Some (rd_bytes s)) (contents w q) (contents w' q) \<and>
      (rd_error s \<noteq> None \<longrightarrow> contents w' q = contents w q) \<and>
      (\<forall>n. rn = Inr n \<longrightarrow> rd_error s = None \<and> n = word_of_nat (length (rd_bytes s)))"
    and delete_ok: "ok w \<Longrightarrow> visible p \<Longrightarrow> visible q \<Longrightarrow> ds_delete st p w = (ru, w') \<Longrightarrow> ok w' \<and>
      written (is_ok ru) (key q = key p) None (contents w q) (contents w' q)"
    and key_contents: "key p = key q \<Longrightarrow> contents w p = contents w q"
begin

lemma get_after_put:
  assumes "ok w" "visible p" "ds_put_bytes st p b w = (Inr (), w1)" "ds_get_bytes st p w1 = (Inr r, w2)"
  shows "r = Some b"
  using put_ok[OF assms(1,2,2,3)] get_ok[OF _ assms(4)] by (simp add: written_def)

lemma get_after_stream:
  assumes "ok w" "visible p" "ds_put_stream st p s w = (Inr n, w1)" "ds_get_bytes st p w1 = (Inr r, w2)"
  shows "r = Some (rd_bytes s)"
  using stream_ok[OF assms(1,2,2,3)] get_ok[OF _ assms(4)] by (simp add: written_def)

text \<open>A read never sees anything but the old or the new content.\<close>

lemma put_atomic:
  assumes "ok w" "visible p" "visible q" "ds_put_stream st p s w = (r1, w1)" "ds_get_bytes st q w1 = (Inr r, w2)"
  shows "r = contents w q \<or> key q = key p \<and> r = Some (rd_bytes s) \<and> rd_error s = None"
  using stream_ok[OF assms(1-4)] get_ok[OF _ assms(5)] by (auto simp: written_def split: if_splits)

text \<open>Deleting a list of objects one after the other touches no other object.\<close>

lemma deletes:
  assumes "ok w" "list_all visible ps" "visible q" "for_io (ds_delete st) ps w = (r, w')"
  shows "ok w' \<and> (contents w' q = contents w q \<or> (\<exists>p\<in>set ps. key q = key p) \<and> contents w' q = None) \<and>
    (is_ok r \<longrightarrow> (\<exists>p\<in>set ps. key q = key p) \<longrightarrow> contents w' q = None)"
  using assms(1,2,4)
proof (induction ps arbitrary: w)
  case (Cons p ps)
  obtain r1 w1 where d: "ds_delete st p w = (r1, w1)" by fastforce
  have v: "visible p" "list_all visible ps" using Cons.prems by simp_all
  note one = delete_ok[OF Cons.prems(1) v(1) assms(3) d]
  show ?case
  proof (cases r1)
    case (Inl e)
    then show ?thesis using one Cons.prems(3) d by (auto simp: bind_io_def written_def)
  next
    case (Inr u)
    then have rest: "for_io (ds_delete st) ps w1 = (r, w')" using Cons.prems(3) d by (simp add: bind_io_def)
    note two = Cons.IH[OF conjunct1[OF one] v(2) rest]
    show ?thesis
      by (cases "key q = key p") (use one two Inr in \<open>auto simp: written_def\<close>)
  qed
qed (simp add: return_io_def)

end

end
