(* ===== verification/LocalStore.thy ===== *)
theory LocalStore
  imports BlobStore
begin

text \<open>
  The \<^verbatim>\<open>FilesystemStorage\<close> of \<^verbatim>\<open>crates/depot-store/src/local.rs\<close> on a model of the file system
  calls of the standard library that it makes, each of which may fail at any step. An object is
  written to a temporary file beside it, which is then renamed over it.
\<close>

subsection \<open>A file system\<close>

datatype fs_node = FsFile bytes | FsDir

datatype io_error = IoNotFound | IoNotADirectory | IoIsADirectory | IoOther string

text \<open>Paths are lists of components. \<open>fs_faults n = Some (e, k)\<close> makes the call number \<open>n\<close> fail with
  \<open>e\<close>; a write that fails has written \<open>k\<close> bytes.\<close>

record file_system =
  fs_nodes :: "string list \<Rightarrow> fs_node option"
  fs_step :: nat
  fs_faults :: "nat \<Rightarrow> (string \<times> nat) option"

definition fs_call ::
    "(nat \<Rightarrow> file_system \<Rightarrow> file_system) \<Rightarrow> (file_system \<Rightarrow> (io_error + 'a) \<times> file_system) \<Rightarrow>
     (file_system, io_error, 'a) io" where
  "fs_call partial call fs =
     (let fs' = fs\<lparr>fs_step := fs_step fs + 1\<rparr> in
      case fs_faults fs (fs_step fs) of
        Some (e, k) \<Rightarrow> (Inl (IoOther e), partial k fs')
      | None \<Rightarrow> call fs')"

fun fs_walk :: "(string list \<Rightarrow> fs_node option) \<Rightarrow> string list \<Rightarrow> string list \<Rightarrow> io_error + fs_node" where
  "fs_walk nodes d [] = ok_or IoNotFound (nodes d)"
| "fs_walk nodes d (c # cs) =
     (case nodes d of None \<Rightarrow> Inl IoNotFound | Some (FsFile _) \<Rightarrow> Inl IoNotADirectory
      | Some FsDir \<Rightarrow> fs_walk nodes (d @ [c]) cs)"

definition fs_lookup :: "file_system \<Rightarrow> string list \<Rightarrow> io_error + fs_node" where
  "fs_lookup fs path = fs_walk (fs_nodes fs) [] path"

definition fs_set :: "string list \<Rightarrow> fs_node option \<Rightarrow> file_system \<Rightarrow> file_system" where
  "fs_set path n fs = fs\<lparr>fs_nodes := (fs_nodes fs)(path := n)\<rparr>"

definition fs_metadata :: "string list \<Rightarrow> (file_system, io_error, fs_node) io" where
  "fs_metadata path = fs_call (\<lambda>k. id) (\<lambda>fs. (fs_lookup fs path, fs))"

definition fs_read :: "string list \<Rightarrow> (file_system, io_error, bytes) io" where
  "fs_read path = fs_call (\<lambda>k. id) (\<lambda>fs.
     (and_then (fs_lookup fs path) (\<lambda>n. case n of FsFile b \<Rightarrow> Inr b | FsDir \<Rightarrow> Inl IoIsADirectory), fs))"

text \<open>Whether a file can be written: its parent is a directory and it is none itself.\<close>

definition fs_writable :: "file_system \<Rightarrow> string list \<Rightarrow> io_error + unit" where
  "fs_writable fs path =
     (if path = [] then Inl IoIsADirectory
      else and_then (fs_lookup fs (butlast path)) (\<lambda>n. case n of FsFile _ \<Rightarrow> Inl IoNotADirectory
        | FsDir \<Rightarrow> if fs_nodes fs path = Some FsDir then Inl IoIsADirectory else Inr ()))"

definition fs_write :: "string list \<Rightarrow> bytes \<Rightarrow> (file_system, io_error, unit) io" where
  "fs_write path b = fs_call
     (\<lambda>k fs. if is_ok (fs_writable fs path) then fs_set path (Some (FsFile (take k b))) fs else fs)
     (\<lambda>fs. case fs_writable fs path of Inl e \<Rightarrow> (Inl e, fs)
       | Inr _ \<Rightarrow> (Inr (), fs_set path (Some (FsFile b)) fs))"

text \<open>\<^verbatim>\<open>tokio::io::copy\<close> from a reader into the open file: the bytes before an error of the reader are
  written.\<close>

definition fs_copy :: "upload_reader \<Rightarrow> string list \<Rightarrow> (file_system, io_error, 64 word) io" where
  "fs_copy r path = fs_call
     (\<lambda>k. fs_set path (Some (FsFile (take k (rd_bytes r)))))
     (\<lambda>fs. (case rd_error r of Some e \<Rightarrow> Inl (IoOther e) | None \<Rightarrow> Inr (word_of_nat (length (rd_bytes r))),
            fs_set path (Some (FsFile (rd_bytes r))) fs))"

definition fs_flush :: "(file_system, io_error, unit) io" where
  "fs_flush = fs_call (\<lambda>k. id) (\<lambda>fs. (Inr (), fs))"

definition fs_rename :: "string list \<Rightarrow> string list \<Rightarrow> (file_system, io_error, unit) io" where
  "fs_rename a b = fs_call (\<lambda>k. id)
     (\<lambda>fs. case and_then (fs_lookup fs a) (\<lambda>n. and_then (fs_writable fs b) (\<lambda>_. Inr n)) of
        Inl e \<Rightarrow> (Inl e, fs)
      | Inr n \<Rightarrow> (Inr (), fs_set b (Some n) (fs_set a None fs)))"

definition fs_remove_file :: "string list \<Rightarrow> (file_system, io_error, unit) io" where
  "fs_remove_file path = fs_call (\<lambda>k. id)
     (\<lambda>fs. case fs_lookup fs path of Inl e \<Rightarrow> (Inl e, fs) | Inr FsDir \<Rightarrow> (Inl IoIsADirectory, fs)
       | Inr (FsFile _) \<Rightarrow> (Inr (), fs_set path None fs))"

text \<open>\<^verbatim>\<open>create_dir_all\<close>: one component after the other from the root.\<close>

fun fs_mkdirs :: "string list \<Rightarrow> string list \<Rightarrow> file_system \<Rightarrow> (io_error + unit) \<times> file_system" where
  "fs_mkdirs d [] fs = (Inr (), fs)"
| "fs_mkdirs d (c # cs) fs =
     (case fs_nodes fs (d @ [c]) of
        None \<Rightarrow> fs_mkdirs (d @ [c]) cs (fs_set (d @ [c]) (Some FsDir) fs)
      | Some FsDir \<Rightarrow> fs_mkdirs (d @ [c]) cs fs
      | Some (FsFile _) \<Rightarrow> (Inl IoNotADirectory, fs))"

definition fs_create_dir_all :: "string list \<Rightarrow> (file_system, io_error, unit) io" where
  "fs_create_dir_all path = fs_call (\<lambda>k fs. snd (fs_mkdirs [] (take k path) fs)) (fs_mkdirs [] path)"

subsection \<open>The storage\<close>

record filesystem_storage =
  fst_root :: "string list"

text \<open>\<^verbatim>\<open>Path::components\<close>: the text is cut at the slashes, empty components and \<^verbatim>\<open>.\<close> are dropped
  (\<^verbatim>\<open>CurDir\<close> only stands at the start and is skipped by the code as well).\<close>

datatype component = NormalComponent string | RootDir | ParentDir

definition path_components :: "string \<Rightarrow> component list" where
  "path_components p =
     (if starts_with ''/'' p then [RootDir] else []) @
     map (\<lambda>c. if c = ''..'' then ParentDir else NormalComponent c)
       (filter (\<lambda>c. c \<noteq> [] \<and> c \<noteq> ''.'') (split_char (CHR ''/'') p))"

fun push_components :: "string list \<Rightarrow> component list \<Rightarrow> string list option" where
  "push_components resolved [] = Some resolved"
| "push_components resolved (NormalComponent c # cs) = push_components (resolved @ [c]) cs"
| "push_components resolved (RootDir # cs) = None"
| "push_components resolved (ParentDir # cs) = None"

definition resolve_object_path :: "filesystem_storage \<Rightarrow> string \<Rightarrow> anyhow + string list" where
  "resolve_object_path s object_path =
     ok_or (Anyhow (''invalid object path '' @ object_path))
       (push_components (fst_root s) (path_components object_path))"

text \<open>\<open>fresh\<close> is the id made by \<^verbatim>\<open>Uuid::now_v7\<close>. The file name of a path is its last component.\<close>

definition temporary_path_for :: "uuid \<Rightarrow> string list \<Rightarrow> string list" where
  "temporary_path_for fresh final_path =
     (let file_name = (if final_path = [] then ''object'' else last final_path) in
      butlast final_path @ [''.'' @ file_name @ ''.'' @ fresh @ ''.tmp''])"

definition prepare_write_path ::
    "uuid \<Rightarrow> filesystem_storage \<Rightarrow> string \<Rightarrow> (file_system, anyhow, string list \<times> string list) io" where
  "prepare_write_path fresh s object_path =
     bind_io (pure_io (resolve_object_path s object_path)) (\<lambda>final_path.
     if final_path = [] then fail_io (Anyhow ''resolved without parent'')
     else bind_io (io_context ''creating parent directories'' (fs_create_dir_all (butlast final_path))) (\<lambda>_.
       return_io (final_path, temporary_path_for fresh final_path)))"

definition cleanup_temp_file :: "string list \<Rightarrow> file_system \<Rightarrow> file_system" where
  "cleanup_temp_file temp_path fs = snd (fs_remove_file temp_path fs)"

definition with_cleanup :: "string list \<Rightarrow> (file_system, anyhow, 'a) io \<Rightarrow> (file_system, anyhow, 'a) io" where
  "with_cleanup temp_path m = (\<lambda>fs. case m fs of
     (Inl e, fs') \<Rightarrow> (Inl e, cleanup_temp_file temp_path fs') | (Inr x, fs') \<Rightarrow> (Inr x, fs'))"

definition local_head :: "filesystem_storage \<Rightarrow> string \<Rightarrow> (file_system, anyhow, blob_metadata option) io" where
  "local_head s object_path =
     bind_io (pure_io (resolve_object_path s object_path)) (\<lambda>path fs.
       case fs_metadata path fs of
         (Inr (FsFile b), fs') \<Rightarrow> (Inr (Some \<lparr>bm_content_type = ''application/octet-stream'',
             bm_content_length = Some (word_of_nat (length b)), bm_etag = None, bm_last_modified = None\<rparr>), fs')
       | (Inr FsDir, fs') \<Rightarrow> (Inr None, fs')
       | (Inl IoNotFound, fs') \<Rightarrow> (Inr None, fs')
       | (Inl e, fs') \<Rightarrow> (Inl (Anyhow ''reading filesystem metadata''), fs'))"

definition local_get_bytes :: "filesystem_storage \<Rightarrow> string \<Rightarrow> (file_system, anyhow, bytes option) io" where
  "local_get_bytes s object_path =
     bind_io (pure_io (resolve_object_path s object_path)) (\<lambda>path fs.
       case fs_read path fs of
         (Inr b, fs') \<Rightarrow> (Inr (Some b), fs')
       | (Inl IoNotFound, fs') \<Rightarrow> (Inr None, fs')
       | (Inl e, fs') \<Rightarrow> (Inl (Anyhow ''reading filesystem object''), fs'))"

definition local_put_bytes :: "uuid \<Rightarrow> filesystem_storage \<Rightarrow> string \<Rightarrow> bytes \<Rightarrow> (file_system, anyhow, unit) io" where
  "local_put_bytes fresh s object_path b =
     bind_io (prepare_write_path fresh s object_path) (\<lambda>(final_path, temp_path).
       with_cleanup temp_path
         (bind_io (io_context ''writing temporary object'' (fs_write temp_path b)) (\<lambda>_.
          io_context ''renaming'' (fs_rename temp_path final_path))))"

definition local_put_stream ::
    "uuid \<Rightarrow> filesystem_storage \<Rightarrow> string \<Rightarrow> upload_reader \<Rightarrow> (file_system, anyhow, 64 word) io" where
  "local_put_stream fresh s object_path reader =
     bind_io (prepare_write_path fresh s object_path) (\<lambda>(final_path, temp_path).
       with_cleanup temp_path
         (bind_io (io_context ''creating temporary object'' (fs_write temp_path [])) (\<lambda>_.
          bind_io (io_context ''streaming object'' (fs_copy reader temp_path)) (\<lambda>written.
          bind_io (io_context ''flushing temporary object'' fs_flush) (\<lambda>_.
          bind_io (io_context ''syncing temporary object'' fs_flush) (\<lambda>_.
          bind_io (io_context ''renaming'' (fs_rename temp_path final_path)) (\<lambda>_.
          return_io written)))))))"

definition local_delete :: "filesystem_storage \<Rightarrow> string \<Rightarrow> (file_system, anyhow, unit) io" where
  "local_delete s object_path =
     bind_io (pure_io (resolve_object_path s object_path)) (\<lambda>path fs.
       case fs_remove_file path fs of
         (Inr _, fs') \<Rightarrow> (Inr (), fs')
       | (Inl IoNotFound, fs') \<Rightarrow> (Inr (), fs')
       | (Inl e, fs') \<Rightarrow> (Inl (Anyhow ''deleting filesystem object''), fs'))"

definition local_storage :: "uuid \<Rightarrow> filesystem_storage \<Rightarrow> file_system depot_storage" where
  "local_storage fresh s =
     \<lparr>ds_head = local_head s, ds_get_bytes = local_get_bytes s, ds_put_bytes = local_put_bytes fresh s,
      ds_put_stream = local_put_stream fresh s,
      ds_create_multipart_upload = default_create_multipart_upload,
      ds_presign_multipart_upload_part = default_presign_multipart_upload_part,
      ds_complete_multipart_upload = default_complete_multipart_upload,
      ds_abort_multipart_upload = default_abort_multipart_upload, ds_delete = local_delete s\<rparr>"

subsection \<open>Well-formed file systems\<close>

text \<open>Every node lies in a directory.\<close>

definition fs_wf :: "file_system \<Rightarrow> bool" where
  "fs_wf fs \<longleftrightarrow> fs_nodes fs [] = Some FsDir \<and>
     (\<forall>d c. fs_nodes fs (d @ [c]) \<noteq> None \<longrightarrow> fs_nodes fs d = Some FsDir)"

definition files :: "file_system \<Rightarrow> string list \<Rightarrow> bytes option" where
  "files fs path = (case fs_nodes fs path of Some (FsFile b) \<Rightarrow> Some b | _ \<Rightarrow> None)"

lemma wf_prefix: "fs_wf fs \<Longrightarrow> fs_nodes fs (d @ e) \<noteq> None \<Longrightarrow> e \<noteq> [] \<Longrightarrow> fs_nodes fs d = Some FsDir"
proof (induction e rule: rev_induct)
  case (snoc c e)
  then have "fs_nodes fs ((d @ e) @ [c]) \<noteq> None" by simp
  then have "fs_nodes fs (d @ e) = Some FsDir" using snoc.prems(1) unfolding fs_wf_def by blast
  then show ?case using snoc by (cases "e = []") auto
qed simp

lemma walk_wf: "fs_wf fs \<Longrightarrow> fs_walk (fs_nodes fs) d cs = Inr n \<longleftrightarrow> fs_nodes fs (d @ cs) = Some n"
proof (induction cs arbitrary: d)
  case (Cons c cs)
  show ?case
  proof (cases "fs_nodes fs d = Some FsDir")
    case True
    then show ?thesis using Cons by simp
  next
    case False
    then have "fs_nodes fs (d @ c # cs) = None"
      using wf_prefix[OF Cons.prems, of d "c # cs"] by (cases "fs_nodes fs (d @ c # cs)") simp_all
    then show ?thesis using False by (auto split: option.splits fs_node.splits)
  qed
qed simp

lemma lookup_wf: "fs_wf fs \<Longrightarrow> fs_lookup fs path = Inr n \<longleftrightarrow> fs_nodes fs path = Some n"
  using walk_wf[of fs "[]"] by (simp add: fs_lookup_def)

lemma wf_set_file:
  assumes "fs_wf fs" "fs_nodes fs (butlast path) = Some FsDir" "path \<noteq> []" "fs_nodes fs path \<noteq> Some FsDir"
  shows "fs_wf (fs_set path (Some (FsFile b)) fs)"
proof -
  have "fs_nodes fs (path @ [c]) = None" for c
    using assms(1,4) unfolding fs_wf_def by (metis not_None_eq)
  then show ?thesis
    using assms unfolding fs_wf_def fs_set_def by (auto simp: fun_upd_def)
qed

lemma wf_unset_file:
  assumes "fs_wf fs" "fs_nodes fs path \<noteq> Some FsDir"
  shows "fs_wf (fs_set path None fs)"
proof -
  have "fs_nodes fs (path @ [c]) = None" for c
    using assms unfolding fs_wf_def by (metis not_None_eq)
  moreover have "path \<noteq> []" using assms by (auto simp: fs_wf_def)
  ultimately show ?thesis using assms unfolding fs_wf_def fs_set_def by (auto simp: fun_upd_def)
qed

lemma wf_set_dir:
  assumes "fs_wf fs" "fs_nodes fs d = Some FsDir" "fs_nodes fs (d @ [c]) = None"
  shows "fs_wf (fs_set (d @ [c]) (Some FsDir) fs)"
  using assms unfolding fs_wf_def fs_set_def by (auto simp: fun_upd_def)

lemma wf_step [simp]: "fs_wf (fs\<lparr>fs_step := n\<rparr>) = fs_wf fs"
  by (simp add: fs_wf_def)

lemma files_step [simp]: "files (fs\<lparr>fs_step := n\<rparr>) = files fs"
  by (simp add: files_def fun_eq_iff)

lemma files_set [simp]: "files (fs_set p n fs) =
    (files fs)(p := (case n of Some (FsFile b) \<Rightarrow> Some b | _ \<Rightarrow> None))"
  by (auto simp: files_def fs_set_def)

lemma lookup_step [simp]: "fs_lookup (fs\<lparr>fs_step := n\<rparr>) = fs_lookup fs"
  by (simp add: fs_lookup_def fun_eq_iff)

lemma writable_step [simp]: "fs_writable (fs\<lparr>fs_step := n\<rparr>) = fs_writable fs"
  by (simp add: fs_writable_def fun_eq_iff)

lemma writable_Inr:
  "fs_wf fs \<Longrightarrow> is_ok (fs_writable fs path) \<longleftrightarrow>
    path \<noteq> [] \<and> fs_nodes fs (butlast path) = Some FsDir \<and> fs_nodes fs path \<noteq> Some FsDir"
  using lookup_wf[of fs "butlast path"]
  by (cases "fs_lookup fs (butlast path)") (auto simp: fs_writable_def split: fs_node.splits)

subsection \<open>The calls\<close>

lemma fs_call_cases:
  assumes "fs_call partial call fs = (r, fs')"
  obtains (fault) e k where "r = Inl (IoOther e)" "fs' = partial k (fs\<lparr>fs_step := fs_step fs + 1\<rparr>)"
  | (run) "call (fs\<lparr>fs_step := fs_step fs + 1\<rparr>) = (r, fs')"
  using assms by (auto simp: fs_call_def Let_def split: option.splits)

lemma write_effect:
  assumes "fs_write path b fs = (r, fs')" "fs_wf fs"
  shows "fs_wf fs' \<and> (\<forall>q. q \<noteq> path \<longrightarrow> files fs' q = files fs q) \<and>
    (is_ok r \<longrightarrow> files fs' path = Some b \<and> fs_nodes fs' (butlast path) = Some FsDir)"
  using assms(1) unfolding fs_write_def
proof (cases rule: fs_call_cases)
  case (fault e k)
  show ?thesis
  proof (cases "is_ok (fs_writable fs path)")
    case True
    then have "fs_wf (fs_set path (Some (FsFile (take k b))) (fs\<lparr>fs_step := fs_step fs + 1\<rparr>))"
      using assms(2) writable_Inr[OF assms(2)] by (intro wf_set_file) simp_all
    then show ?thesis using fault True by simp
  qed (use fault assms(2) in simp)
next
  case run
  show ?thesis
  proof (cases "fs_writable fs path")
    case (Inr u)
    then have w: "path \<noteq> []" "fs_nodes fs (butlast path) = Some FsDir" "fs_nodes fs path \<noteq> Some FsDir"
      using writable_Inr[OF assms(2), of path] by simp_all
    then have "butlast path \<noteq> path" by (metis append_butlast_last_id not_Cons_self2 self_append_conv)
    moreover have "r = Inr ()" "fs' = fs_set path (Some (FsFile b)) (fs\<lparr>fs_step := fs_step fs + 1\<rparr>)"
      using run Inr by simp_all
    moreover have "fs_wf (fs_set path (Some (FsFile b)) (fs\<lparr>fs_step := fs_step fs + 1\<rparr>))"
      using w assms(2) by (intro wf_set_file) simp_all
    ultimately show ?thesis using w by (simp add: fs_set_def files_def)
  next
    case (Inl e)
    then have "r = Inl e" "fs' = fs\<lparr>fs_step := fs_step fs + 1\<rparr>" using run by simp_all
    then show ?thesis using assms(2) by simp
  qed
qed

lemma copy_effect:
  assumes "fs_copy s path fs = (r, fs')" "fs_wf fs" "files fs path = Some b"
  shows "fs_wf fs' \<and> (\<forall>q. q \<noteq> path \<longrightarrow> files fs' q = files fs q) \<and>
    (is_ok r \<longrightarrow> files fs' path = Some (rd_bytes s) \<and> rd_error s = None \<and>
       r = Inr (word_of_nat (length (rd_bytes s))))"
proof -
  have n: "fs_nodes fs path \<noteq> None" "fs_nodes fs path \<noteq> Some FsDir" using assms(3) by (auto simp: files_def split: option.splits)
  then have p: "path \<noteq> []" using assms(2) by (auto simp: fs_wf_def)
  then have d: "fs_nodes fs (butlast path) = Some FsDir"
    using wf_prefix[OF assms(2), of "butlast path" "[last path]"] n(1) by simp
  show ?thesis using assms(1) unfolding fs_copy_def
  proof (cases rule: fs_call_cases)
    case (fault e k)
    then show ?thesis using assms(2) n p d by (auto intro!: wf_set_file)
  next
    case run
    then show ?thesis using assms(2) n p d by (auto intro!: wf_set_file split: option.splits)
  qed
qed

lemma flush_effect: "fs_flush fs = (r, fs') \<Longrightarrow> fs_wf fs' = fs_wf fs \<and> files fs' = files fs"
  unfolding fs_flush_def by (erule fs_call_cases) auto

lemma rename_effect:
  assumes "fs_rename a b fs = (r, fs')" "fs_wf fs" "files fs a = Some c" "a \<noteq> b"
  shows "fs_wf fs' \<and> files fs' = (if is_ok r then (files fs)(a := None, b := Some c) else files fs)"
  using assms(1) unfolding fs_rename_def
proof (cases rule: fs_call_cases)
  case run
  have a: "fs_lookup fs a = Inr (FsFile c)" using assms(2,3) by (auto simp: lookup_wf files_def split: option.splits fs_node.splits)
  show ?thesis
  proof (cases "fs_writable fs b")
    case (Inr u)
    then have w: "b \<noteq> []" "fs_nodes fs (butlast b) = Some FsDir" "fs_nodes fs b \<noteq> Some FsDir"
      using writable_Inr[OF assms(2), of b] by simp_all
    have n: "fs_nodes fs a \<noteq> Some FsDir" using assms(3) by (auto simp: files_def)
    have "butlast b \<noteq> a" using w(2) n by auto
    then have "fs_wf (fs_set b (Some (FsFile c)) (fs_set a None fs))"
      using w n by (intro wf_set_file wf_unset_file assms(2)) (auto simp: fs_set_def)
    moreover have "r = Inr ()" "fs' = fs_set b (Some (FsFile c)) (fs_set a None (fs\<lparr>fs_step := fs_step fs + 1\<rparr>))"
      using run a Inr by auto
    ultimately show ?thesis by (auto simp: fs_set_def fs_wf_def files_def fun_eq_iff)
  next
    case (Inl e)
    then have "r = Inl e" "fs' = fs\<lparr>fs_step := fs_step fs + 1\<rparr>" using run a by simp_all
    then show ?thesis using assms(2) by simp
  qed
qed (use assms(2) in auto)

lemma remove_effect:
  assumes "fs_remove_file path fs = (r, fs')" "fs_wf fs"
  shows "fs_wf fs' \<and> files fs' = (if is_ok r then (files fs)(path := None) else files fs) \<and>
    (r = Inl IoNotFound \<longrightarrow> files fs path = None)"
  using assms(1) unfolding fs_remove_file_def
proof (cases rule: fs_call_cases)
  case run
  show ?thesis
  proof (cases "fs_lookup fs path")
    case (Inl e)
    have "files fs path = None"
    proof (rule ccontr)
      assume "files fs path \<noteq> None"
      then obtain n where "fs_nodes fs path = Some n" by (auto simp: files_def split: option.splits)
      then show False using Inl lookup_wf[OF assms(2), of path n] by simp
    qed
    then show ?thesis using run Inl assms(2) by auto
  next
    case (Inr n)
    then show ?thesis using run assms(2) lookup_wf[OF assms(2), of path n]
      by (cases n) (auto intro!: wf_unset_file)
  qed
qed (use assms(2) in auto)

lemma mkdirs_effect:
  "fs_wf fs \<Longrightarrow> fs_nodes fs d = Some FsDir \<Longrightarrow> fs_wf (snd (fs_mkdirs d cs fs)) \<and> files (snd (fs_mkdirs d cs fs)) = files fs"
proof (induction cs arbitrary: d fs)
  case (Cons c cs)
  show ?case
  proof (cases "fs_nodes fs (d @ [c])")
    case None
    then have w: "fs_wf (fs_set (d @ [c]) (Some FsDir) fs)" using Cons.prems by (intro wf_set_dir)
    moreover have "files (fs_set (d @ [c]) (Some FsDir) fs) = files fs"
      using None by (auto simp: files_def)
    ultimately show ?thesis using Cons.IH[OF w, of "d @ [c]"] None by (simp add: fs_set_def)
  next
    case (Some n)
    then show ?thesis using Cons.IH[of fs "d @ [c]"] Cons.prems by (cases n) simp_all
  qed
qed simp

lemma create_dir_all_effect:
  assumes "fs_create_dir_all path fs = (r, fs')" "fs_wf fs"
  shows "fs_wf fs' \<and> files fs' = files fs"
proof -
  let ?fs = "fs\<lparr>fs_step := fs_step fs + 1\<rparr>"
  have "fs_wf ?fs" "fs_nodes ?fs [] = Some FsDir" using assms(2) by (simp_all add: fs_wf_def)
  then have m: "fs_wf (snd (fs_mkdirs [] cs ?fs)) \<and> files (snd (fs_mkdirs [] cs ?fs)) = files fs" for cs
    using mkdirs_effect[of ?fs "[]" cs] by simp
  show ?thesis using assms(1) unfolding fs_create_dir_all_def
    by (cases rule: fs_call_cases) (use m in \<open>auto simp: prod_eq_iff[symmetric]\<close>, metis m snd_conv, metis m snd_conv)
qed

subsection \<open>The storage operations\<close>

definition local_contents :: "filesystem_storage \<Rightarrow> file_system \<Rightarrow> string \<Rightarrow> bytes option" where
  "local_contents s fs p = (case resolve_object_path s p of Inl _ \<Rightarrow> None | Inr path \<Rightarrow> files fs path)"

definition local_key :: "filesystem_storage \<Rightarrow> string \<Rightarrow> string list option" where
  "local_key s p = res_opt (resolve_object_path s p)"

text \<open>Paths without hidden components: the temporary files of the storage are hidden.\<close>

definition shown_component :: "component \<Rightarrow> bool" where
  "shown_component c = (case c of NormalComponent n \<Rightarrow> n \<noteq> [] \<and> hd n \<noteq> CHR ''.'' | _ \<Rightarrow> False)"

definition local_visible :: "string \<Rightarrow> bool" where
  "local_visible p \<longleftrightarrow> path_components p \<noteq> [] \<and> list_all shown_component (path_components p)"

lemma push_shown:
  "list_all shown_component cs \<Longrightarrow> \<exists>ns. push_components d cs = Some (d @ ns) \<and> length ns = length cs \<and>
     (\<forall>n\<in>set ns. n \<noteq> [] \<and> hd n \<noteq> CHR ''.'')"
proof (induction cs arbitrary: d)
  case (Cons c cs)
  then obtain n where n: "c = NormalComponent n" "n \<noteq> []" "hd n \<noteq> CHR ''.''"
    by (auto simp: shown_component_def split: component.splits)
  from Cons.IH[of "d @ [n]"] Cons.prems obtain ns where "push_components (d @ [n]) cs = Some ((d @ [n]) @ ns)"
    "length ns = length cs" "\<forall>n\<in>set ns. n \<noteq> [] \<and> hd n \<noteq> CHR ''.''" by auto
  then show ?case using n by (intro exI[of _ "n # ns"]) simp
qed simp

lemma visible_path:
  assumes "local_visible p"
  obtains path where "resolve_object_path s p = Inr path" "path \<noteq> []" "hd (last path) \<noteq> CHR ''.''"
proof -
  from assms obtain ns where "push_components (fst_root s) (path_components p) = Some (fst_root s @ ns)"
    "length ns = length (path_components p)" "\<forall>n\<in>set ns. n \<noteq> [] \<and> hd n \<noteq> CHR ''.''"
    using push_shown[of "path_components p" "fst_root s"] by (auto simp: local_visible_def)
  moreover from this(2) assms have "ns \<noteq> []" by (auto simp: local_visible_def)
  ultimately show ?thesis using that[of "fst_root s @ ns"] by (simp add: resolve_object_path_def)
qed

lemma temporary_hidden: "path \<noteq> [] \<Longrightarrow> temporary_path_for fresh path \<noteq> [] \<and>
    hd (last (temporary_path_for fresh path)) = CHR ''.'' "
  by (simp add: temporary_path_for_def Let_def)

text \<open>What writing one object does: the files but the temporary one are as before, apart from the
  object when the write succeeds.\<close>

definition writes :: "string list \<Rightarrow> string list \<Rightarrow> bytes \<Rightarrow> file_system \<Rightarrow> ('e + 'a) \<Rightarrow> file_system \<Rightarrow> bool" where
  "writes temp path b fs r fs' \<longleftrightarrow> fs_wf fs' \<and>
     (\<forall>q. q \<noteq> temp \<longrightarrow> files fs' q = (if is_ok r \<and> q = path then Some b else files fs q))"

lemma cleanup_writes:
  assumes "m fs = (r0, fs0) \<Longrightarrow> writes temp path b fs r0 fs0" "with_cleanup temp m fs = (r, fs')" "m fs = (r0, fs0)"
  shows "writes temp path b fs r fs'"
proof (cases r0)
  case (Inl e)
  then have r: "r = Inl e" "fs' = snd (fs_remove_file temp fs0)"
    using assms(2,3) by (simp_all add: with_cleanup_def cleanup_temp_file_def)
  obtain x fs1 where x: "fs_remove_file temp fs0 = (x, fs1)" by fastforce
  have w: "writes temp path b fs r0 fs0" using assms(1,3) by simp
  then have "fs_wf fs0" by (simp add: writes_def)
  from remove_effect[OF x this] show ?thesis using w r x Inl by (auto simp: writes_def)
qed (use assms in \<open>simp add: with_cleanup_def\<close>)

lemma put_body:
  assumes "fs_wf fs" "temp \<noteq> path"
    "bind_io (io_context m1 (fs_write temp b)) (\<lambda>_. io_context m2 (fs_rename temp path)) fs = (r, fs')"
  shows "writes temp path b fs r fs'"
proof -
  obtain r1 fs1 where w: "fs_write temp b fs = (r1, fs1)" by fastforce
  note e1 = write_effect[OF w assms(1)]
  show ?thesis
  proof (cases r1)
    case (Inl e)
    then show ?thesis using assms(3) w e1 by (auto simp: bind_io_def io_context_def context_err_def writes_def)
  next
    case (Inr u)
    obtain r2 fs2 where rn: "fs_rename temp path fs1 = (r2, fs2)" by fastforce
    have e2: "fs_wf fs2 \<and> files fs2 = (if is_ok r2 then (files fs1)(temp := None, path := Some b) else files fs1)"
      using e1 Inr by (intro rename_effect[OF rn]) (simp_all add: assms(2))
    have "r = context_err m2 r2" "fs' = fs2" using assms(3) w rn Inr
      by (simp_all add: bind_io_def io_context_def context_err_def)
    then show ?thesis using e1 e2 Inr by (simp add: writes_def)
  qed
qed

lemma stream_body:
  assumes "fs_wf fs" "temp \<noteq> path"
    "bind_io (io_context m1 (fs_write temp [])) (\<lambda>_. bind_io (io_context m2 (fs_copy s temp)) (\<lambda>n.
       bind_io (io_context m3 fs_flush) (\<lambda>_. bind_io (io_context m4 fs_flush) (\<lambda>_.
       bind_io (io_context m5 (fs_rename temp path)) (\<lambda>_. return_io n))))) fs = (r, fs')"
  shows "writes temp path (rd_bytes s) fs r fs' \<and> (\<forall>n. r = Inr n \<longrightarrow> rd_error s = None \<and> n = word_of_nat (length (rd_bytes s)))"
proof -
  obtain r1 fs1 where w: "fs_write temp [] fs = (r1, fs1)" by fastforce
  note e1 = write_effect[OF w assms(1)]
  obtain r2 fs2 where c: "fs_copy s temp fs1 = (r2, fs2)" by fastforce
  obtain r3 fs3 where f1: "fs_flush fs2 = (r3, fs3)" by fastforce
  obtain r4 fs4 where f2: "fs_flush fs3 = (r4, fs4)" by fastforce
  obtain r5 fs5 where rn: "fs_rename temp path fs4 = (r5, fs5)" by fastforce
  note e3 = flush_effect[OF f1] and e4 = flush_effect[OF f2]
  show ?thesis
  proof (cases "is_ok r1")
    case False
    then show ?thesis using assms(3) w e1
      by (cases r1) (auto simp: bind_io_def io_context_def context_err_def writes_def)
  next
    case ok1: True
    then have e2: "fs_wf fs2 \<and> (\<forall>q. q \<noteq> temp \<longrightarrow> files fs2 q = files fs1 q) \<and>
      (is_ok r2 \<longrightarrow> files fs2 temp = Some (rd_bytes s) \<and> rd_error s = None \<and>
        r2 = Inr (word_of_nat (length (rd_bytes s))))"
      using e1 copy_effect[OF c] by blast
    show ?thesis
    proof (cases "is_ok r2 \<and> is_ok r3 \<and> is_ok r4")
      case False
      then have "\<not> is_ok r \<and> (fs' = fs2 \<or> fs' = fs3 \<or> fs' = fs4)"
        using assms(3) w c f1 f2 ok1
        by (cases r1; cases r2; cases r3; cases r4) (auto simp: bind_io_def io_context_def context_err_def)
      then show ?thesis using e1 e2 e3 e4 by (auto simp: writes_def)
    next
      case True
      then have e5: "fs_wf fs5 \<and> files fs5 = (if is_ok r5 then (files fs4)(temp := None, path := Some (rd_bytes s)) else files fs4)"
        using e2 e3 e4 by (intro rename_effect[OF rn _ _ assms(2)]) simp_all
      have "is_ok r = is_ok r5 \<and> fs' = fs5 \<and> (\<forall>n. r = Inr n \<longrightarrow> rd_error s = None \<and> n = word_of_nat (length (rd_bytes s)))"
        using assms(3) w c f1 f2 rn ok1 True e2
        by (cases r1; cases r2; cases r3; cases r4; cases r5)
          (auto simp: bind_io_def io_context_def context_err_def return_io_def)
      then show ?thesis using e1 e2 e3 e4 e5 by (simp add: writes_def)
    qed
  qed
qed

lemma contents_cong: "files fs = files fs' \<Longrightarrow> local_contents s fs = local_contents s fs'"
proof (rule ext)
  fix p assume "files fs = files fs'"
  then show "local_contents s fs p = local_contents s fs' p"
    by (cases "resolve_object_path s p") (simp_all add: local_contents_def)
qed

text \<open>From the paths of the files to the paths of the objects.\<close>

lemma writes_contents:
  assumes "writes temp path b fs r fs'" "resolve_object_path s p = Inr path" "hd (last temp) = CHR ''.''"
    "local_visible q"
  shows "fs_wf fs' \<and> local_contents s fs' q =
    (if is_ok r \<and> local_key s q = local_key s p then Some b else local_contents s fs q)"
proof -
  from assms(4) obtain pq where pq: "resolve_object_path s q = Inr pq" "hd (last pq) \<noteq> CHR ''.''"
    by (rule visible_path)
  then have "pq \<noteq> temp" using assms(3) by auto
  then show ?thesis using assms(1,2) pq(1) by (simp add: writes_def local_contents_def local_key_def)
qed

lemma prepare_effect:
  assumes "prepare_write_path fresh s p fs = (r, fs')" "fs_wf fs" "resolve_object_path s p = Inr path" "path \<noteq> []"
  shows "fs_wf fs' \<and> files fs' = files fs \<and> (\<forall>x. r = Inr x \<longrightarrow> x = (path, temporary_path_for fresh path))"
proof -
  obtain r1 fs1 where c: "fs_create_dir_all (butlast path) fs = (r1, fs1)" by fastforce
  from create_dir_all_effect[OF this assms(2)] show ?thesis
    using assms(1,3,4) c by (cases r1) (auto simp: prepare_write_path_def bind_io_def pure_io_def io_context_def
        context_err_def return_io_def)
qed

lemma local_write_result:
  assumes "bind_io (prepare_write_path fresh s p) (\<lambda>(path, temp). with_cleanup temp (body path temp)) fs = (Inr x, fs')"
    "fs_wf fs" "local_visible p"
    "\<And>fs1 path temp fs0. fs_wf fs1 \<Longrightarrow> temp \<noteq> path \<Longrightarrow> body path temp fs1 = (Inr x, fs0) \<Longrightarrow> Q"
  shows Q
proof -
  from assms(3) obtain path where path: "resolve_object_path s p = Inr path" "path \<noteq> []" "hd (last path) \<noteq> CHR ''.''"
    by (rule visible_path)
  from assms(1) obtain z fs1 where pr: "prepare_write_path fresh s p fs = (Inr z, fs1)"
    "(\<lambda>(path, temp). with_cleanup temp (body path temp)) z fs1 = (Inr x, fs')" unfolding bind_io_Inr by blast
  note e = prepare_effect[OF pr(1) assms(2) path(1,2)]
  then have "body path (temporary_path_for fresh path) fs1 = (Inr x, fs')"
    using pr(2) by (auto simp: with_cleanup_def split: prod.splits sum.splits)
  moreover have "temporary_path_for fresh path \<noteq> path"
    using temporary_hidden[OF path(2), of fresh] path(3) by auto
  ultimately show Q using assms(4) e by blast
qed

lemma local_write_effect:
  assumes "bind_io (prepare_write_path fresh s p) (\<lambda>(path, temp). with_cleanup temp (body path temp)) fs = (r, fs')"
    "fs_wf fs" "local_visible p" "local_visible q"
    "\<And>fs1 path temp r0 fs0. fs_wf fs1 \<Longrightarrow> temp \<noteq> path \<Longrightarrow> body path temp fs1 = (r0, fs0) \<Longrightarrow> writes temp path b fs1 r0 fs0"
  shows "fs_wf fs' \<and> local_contents s fs' q =
    (if is_ok r \<and> local_key s q = local_key s p then Some b else local_contents s fs q)"
proof -
  from assms(3) obtain path where path: "resolve_object_path s p = Inr path" "path \<noteq> []" "hd (last path) \<noteq> CHR ''.''"
    by (rule visible_path)
  let ?t = "temporary_path_for fresh path"
  obtain r1 fs1 where pr: "prepare_write_path fresh s p fs = (r1, fs1)" by fastforce
  note e = prepare_effect[OF pr assms(2) path(1,2)]
  have same: "local_contents s fs1 = local_contents s fs" using e by (intro contents_cong) simp
  have t: "?t \<noteq> path" "hd (last ?t) = CHR ''.''" using temporary_hidden[OF path(2), of fresh] path(3) by auto
  show ?thesis
  proof (cases r1)
    case (Inl err)
    then have "r = Inl err" "fs' = fs1" using assms(1) pr by (simp_all add: bind_io_def)
    then show ?thesis using e same by simp
  next
    case (Inr x)
    then have run: "with_cleanup ?t (body path ?t) fs1 = (r, fs')" using assms(1) pr e by (simp add: bind_io_def)
    obtain r0 fs0 where b: "body path ?t fs1 = (r0, fs0)" by fastforce
    have w: "writes ?t path b fs1 r fs'"
      using cleanup_writes[OF _ run b] assms(5)[OF _ t(1) b] e by blast
    show ?thesis using writes_contents[OF w path(1) t(2) assms(4)] same by simp
  qed
qed

lemma contents_wf: "fs_wf fs \<Longrightarrow> resolve_object_path s p = Inr path \<Longrightarrow>
    local_contents s fs p = (case fs_lookup fs path of Inr (FsFile b) \<Rightarrow> Some b | _ \<Rightarrow> None)"
proof (cases "fs_lookup fs path")
  case (Inl e)
  assume "fs_wf fs" "resolve_object_path s p = Inr path"
  moreover from this have "fs_nodes fs path = None" using lookup_wf[of fs path] Inl by (cases "fs_nodes fs path") auto
  ultimately show ?thesis using Inl by (simp add: local_contents_def files_def)
next
  case (Inr n)
  assume "fs_wf fs" "resolve_object_path s p = Inr path"
  then show ?thesis using Inr lookup_wf[of fs path n] by (cases n) (simp_all add: local_contents_def files_def)
qed

lemma lookup_effect:
  assumes "fs_call (\<lambda>k. id) (\<lambda>fs. (f (fs_lookup fs path), fs)) fs = (r, fs')" "fs_wf fs"
  shows "fs_wf fs' \<and> local_contents s fs' = local_contents s fs \<and> (r = f (fs_lookup fs path) \<or> (\<exists>e. r = Inl (IoOther e)))"
  using assms(1) by (cases rule: fs_call_cases) (use assms(2) in \<open>auto intro: contents_cong\<close>)

lemma local_get_effect:
  assumes "local_get_bytes s p fs = (r, fs')" "fs_wf fs"
  shows "fs_wf fs' \<and> local_contents s fs' = local_contents s fs \<and> (\<forall>b. r = Inr b \<longrightarrow> b = local_contents s fs p)"
proof (cases "resolve_object_path s p")
  case (Inl e)
  then show ?thesis using assms by (auto simp: local_get_bytes_def bind_io_def pure_io_def)
next
  case (Inr path)
  obtain r1 fs1 where rd: "fs_read path fs = (r1, fs1)" by fastforce
  have e: "fs_wf fs1 \<and> local_contents s fs1 = local_contents s fs \<and>
      (r1 = and_then (fs_lookup fs path) (\<lambda>n. case n of FsFile b \<Rightarrow> Inr b | FsDir \<Rightarrow> Inl IoIsADirectory) \<or>
       (\<exists>e. r1 = Inl (IoOther e)))"
    using lookup_effect[of "\<lambda>l. and_then l (\<lambda>n. case n of FsFile b \<Rightarrow> Inr b | FsDir \<Rightarrow> Inl IoIsADirectory)",
        OF rd[unfolded fs_read_def] assms(2), of s] .
  have c: "local_contents s fs p = (case fs_lookup fs path of Inr (FsFile b) \<Rightarrow> Some b | _ \<Rightarrow> None)"
    by (rule contents_wf[OF assms(2) Inr])
  show ?thesis
  proof (cases r1)
    case (Inl err)
    then show ?thesis using assms(1) Inr rd e c
      by (cases err; cases "fs_lookup fs path") (auto simp: local_get_bytes_def bind_io_def pure_io_def split: fs_node.splits)
  next
    case (Inr b)
    then have l: "fs_lookup fs path = Inr (FsFile b)" using e
      by (cases "fs_lookup fs path") (auto split: fs_node.splits)
    show ?thesis using assms(1) \<open>resolve_object_path s p = Inr path\<close> rd e c Inr unfolding l
      by (auto simp: local_get_bytes_def bind_io_def pure_io_def)
  qed
qed

lemma local_head_effect:
  assumes "local_head s p fs = (r, fs')" "fs_wf fs"
  shows "fs_wf fs' \<and> local_contents s fs' = local_contents s fs \<and>
    (\<forall>m. r = Inr m \<longrightarrow> (m = None \<longleftrightarrow> local_contents s fs p = None))"
proof (cases "resolve_object_path s p")
  case (Inl e)
  then show ?thesis using assms by (auto simp: local_head_def bind_io_def pure_io_def)
next
  case (Inr path)
  obtain r1 fs1 where rd: "fs_metadata path fs = (r1, fs1)" by fastforce
  have e: "fs_wf fs1 \<and> local_contents s fs1 = local_contents s fs \<and> (r1 = fs_lookup fs path \<or> (\<exists>e. r1 = Inl (IoOther e)))"
    using lookup_effect[of "\<lambda>x. x", OF rd[unfolded fs_metadata_def] assms(2), of s] .
  have c: "local_contents s fs p = (case fs_lookup fs path of Inr (FsFile b) \<Rightarrow> Some b | _ \<Rightarrow> None)"
    by (rule contents_wf[OF assms(2) Inr])
  show ?thesis
  proof (cases r1)
    case (Inl err)
    then show ?thesis using assms(1) Inr rd e c
      by (cases err; cases "fs_lookup fs path") (auto simp: local_head_def bind_io_def pure_io_def split: fs_node.splits)
  next
    case (Inr n)
    then have l: "fs_lookup fs path = Inr n" using e by auto
    show ?thesis using assms(1) \<open>resolve_object_path s p = Inr path\<close> rd e c Inr unfolding l
      by (cases n) (auto simp: local_head_def bind_io_def pure_io_def)
  qed
qed

lemma local_delete_effect:
  assumes "local_delete s p fs = (r, fs')" "fs_wf fs" "local_visible p" "local_visible q"
  shows "fs_wf fs' \<and> local_contents s fs' q =
    (if is_ok r \<and> local_key s q = local_key s p then None else local_contents s fs q)"
proof -
  from assms(3) obtain path where path: "resolve_object_path s p = Inr path" by (rule visible_path)
  from assms(4) obtain pq where pq: "resolve_object_path s q = Inr pq" by (rule visible_path)
  obtain r1 fs1 where rm: "fs_remove_file path fs = (r1, fs1)" by fastforce
  note e = remove_effect[OF rm assms(2)]
  have "(is_ok r \<longleftrightarrow> is_ok r1 \<or> r1 = Inl IoNotFound) \<and> fs' = fs1"
    using assms(1) path rm by (cases r1; auto simp: local_delete_def bind_io_def pure_io_def split: io_error.splits)
  then show ?thesis using e path pq by (cases r1) (auto simp: local_contents_def local_key_def)
qed

lemma local_stream_effect:
  assumes "fs_wf fs" "local_visible p" "local_visible q" "local_put_stream fresh s p reader fs = (r, fs')"
  shows "fs_wf fs' \<and> local_contents s fs' q =
      (if is_ok r \<and> local_key s q = local_key s p then Some (rd_bytes reader) else local_contents s fs q) \<and>
    (\<forall>n. r = Inr n \<longrightarrow> rd_error reader = None \<and> n = word_of_nat (length (rd_bytes reader)))"
proof -
  let ?body = "\<lambda>final temp. bind_io (io_context ''creating temporary object'' (fs_write temp [])) (\<lambda>_.
          bind_io (io_context ''streaming object'' (fs_copy reader temp)) (\<lambda>written.
          bind_io (io_context ''flushing temporary object'' fs_flush) (\<lambda>_.
          bind_io (io_context ''syncing temporary object'' fs_flush) (\<lambda>_.
          bind_io (io_context ''renaming'' (fs_rename temp final)) (\<lambda>_.
          return_io written)))))"
  have run: "bind_io (prepare_write_path fresh s p) (\<lambda>(final, temp). with_cleanup temp (?body final temp)) fs = (r, fs')"
    using assms(4) by (simp add: local_put_stream_def)
  have "fs_wf fs' \<and> local_contents s fs' q =
    (if is_ok r \<and> local_key s q = local_key s p then Some (rd_bytes reader) else local_contents s fs q)"
    by (rule local_write_effect[OF run assms(1-3)]) (use stream_body in blast)
  moreover have "rd_error reader = None \<and> n = word_of_nat (length (rd_bytes reader))" if "r = Inr n" for n
    by (rule local_write_result[OF run[unfolded that] assms(1,2)]) (use stream_body in blast)
  ultimately show ?thesis by blast
qed

text \<open>The filesystem storage keeps the laws of the interface.\<close>

interpretation local_fs: object_storage "local_storage fresh s" "local_contents s" "local_key s" local_visible fs_wf
  for fresh s
proof (unfold_locales, goal_cases)
  case (1 w p r w')
  then show ?case using local_get_effect[of s p w r w'] by (simp add: local_storage_def)
next
  case (2 w p r w')
  then show ?case using local_head_effect[of s p w r w'] by (simp add: local_storage_def)
next
  case (3 w p q b r w')
  then show ?case
    using local_write_effect[of fresh s p "\<lambda>final temp. bind_io (io_context ''writing temporary object'' (fs_write temp b))
        (\<lambda>_. io_context ''renaming'' (fs_rename temp final))" w r w' q b] put_body
    by (simp add: local_storage_def local_put_bytes_def written_def)
next
  case (4 w p q s' r w')
  then show ?case using local_stream_effect[of w p q fresh s s' r w']
    by (cases r) (auto simp: local_storage_def written_def)
next
  case (5 w p q r w')
  then show ?case using local_delete_effect[of s p w r w' q] by (simp add: local_storage_def written_def)
next
  case (6 p q w)
  then show ?case by (auto simp: local_contents_def local_key_def split: sum.splits)
qed

subsection \<open>Confinement and atomicity\<close>

lemma push_components_Some:
  "push_components d cs = Some path \<longleftrightarrow> (\<exists>ns. cs = map NormalComponent ns \<and> path = d @ ns)"
proof (induction d cs arbitrary: path rule: push_components.induct)
  case (2 d c cs)
  then show ?case by (auto simp: Cons_eq_map_conv)
qed (auto simp: Cons_eq_map_conv)

text \<open>(confinement). Every path that the filesystem storage touches for an object lies under its
  root: the components after the root are not empty, contain no separator and are never \<^verbatim>\<open>..\<close> or \<^verbatim>\<open>.\<close>,
  whatever text was asked for.\<close>

theorem resolved_under_root:
  assumes "resolve_object_path s object_path = Inr path"
  shows "\<exists>ns. path = fst_root s @ ns \<and>
    (\<forall>n\<in>set ns. n \<noteq> [] \<and> CHR ''/'' \<notin> set n \<and> n \<noteq> ''..'' \<and> n \<noteq> ''.'')"
proof -
  from assms obtain ns where ns: "path_components object_path = map NormalComponent ns" "path = fst_root s @ ns"
    by (auto simp: resolve_object_path_def push_components_Some)
  have "n \<noteq> [] \<and> CHR ''/'' \<notin> set n \<and> n \<noteq> ''..'' \<and> n \<noteq> ''.''" if "n \<in> set ns" for n
  proof -
    have "NormalComponent n \<in> set (path_components object_path)" using ns(1) that by simp
    then show ?thesis using split_char_parts[of n "CHR ''/''" object_path]
      by (auto simp: path_components_def split: if_splits)
  qed
  then show ?thesis using ns(2) by blast
qed

text \<open>C34 (atomic writes). Whichever call of the file system fails, and at whatever byte, an upload either
  succeeds and every object but this one is as before, or it fails and every object is as before: no
  reader sees a part of an upload. The upload of a stream that breaks off never succeeds.\<close>

theorem local_write_atomic:
  assumes "fs_wf fs" "local_visible p" "local_visible q" "local_put_stream fresh s p reader fs = (r, fs')"
  shows "local_contents s fs' q =
      (if is_ok r \<and> local_key s q = local_key s p then Some (rd_bytes reader) else local_contents s fs q) \<and>
    (\<forall>x fs''. local_get_bytes s q fs' = (Inr x, fs'') \<longrightarrow> x = local_contents s fs' q) \<and>
    (\<forall>n. r = Inr n \<longrightarrow> rd_error reader = None \<and> n = word_of_nat (length (rd_bytes reader)))"
proof -
  note w = local_stream_effect[OF assms]
  have "x = local_contents s fs' q" if "local_get_bytes s q fs' = (Inr x, fs'')" for x fs''
    using local_get_effect[OF that] w by blast
  then show ?thesis using w by blast
qed

subsection \<open>Instances\<close>

text \<open>A file system with a root directory \<^verbatim>\<open>/data\<close> that holds one object; the call number 3 fails.\<close>

definition sample_fs :: file_system where
  "sample_fs = \<lparr>fs_nodes = (\<lambda>p. if p = [] \<or> p = [''data''] \<or> p = [''data'', ''nar''] then Some FsDir
       else if p = [''data'', ''nar'', ''x''] then Some (FsFile [1]) else None),
     fs_step = 0, fs_faults = (\<lambda>n. if n = 2 then Some (''disk full'', 1) else None)\<rparr>"

lemma sample_fs_wf: "fs_wf sample_fs"
  by (auto simp: fs_wf_def sample_fs_def append_eq_Cons_conv split: if_splits)

definition sample_local :: filesystem_storage where
  "sample_local = \<lparr>fst_root = [''data'']\<rparr>"

theorem resolved_under_root_witness:
  "resolve_object_path sample_local ''nar/./x'' = Inr [''data'', ''nar'', ''x''] \<and>
   (\<exists>ns. [''data'', ''nar'', ''x''] = [''data''] @ ns \<and> (\<forall>n\<in>set ns. n \<noteq> ''..''))"
proof -
  have r: "resolve_object_path sample_local ''nar/./x'' = Inr [''data'', ''nar'', ''x'']" by code_simp
  show ?thesis using r resolved_under_root[OF r] by (auto simp: sample_local_def)
qed

theorem local_write_atomic_witness:
  "local_contents sample_local (snd (local_put_stream ''u'' sample_local ''nar/x''
     \<lparr>rd_chunks = [[2], [3]], rd_error = None\<rparr> sample_fs)) ''nar/x'' = Some [1]"
proof -
  let ?r = "local_put_stream ''u'' sample_local ''nar/x'' \<lparr>rd_chunks = [[2], [3]], rd_error = None\<rparr> sample_fs"
  have v: "local_visible ''nar/x''" by code_simp
  have f: "\<not> is_ok (fst ?r)" by code_simp
  have c: "local_contents sample_local sample_fs ''nar/x'' = Some [1]" by code_simp
  show ?thesis
    using conjunct1[OF local_write_atomic[OF sample_fs_wf v v prod.collapse[symmetric], of sample_local "''u''"
        "\<lparr>rd_chunks = [[2], [3]], rd_error = None\<rparr>"]] f c by simp
qed

end
