(* ===== verification/Database.thy ===== *)
theory Database
  imports DbModels
begin

text \<open>
  The database of \<^verbatim>\<open>crates/depot-db\<close>: one list of rows for each table of the migrations, with
  its keys, and the operations of \<^verbatim>\<open>projects.rs\<close> and \<^verbatim>\<open>upstreams.rs\<close>. An operation that reads
  the clock or makes an id has the moment \<open>now\<close> and the id as arguments. Columns that only the
  database reads (the creation time of path and object rows) are left out.
\<close>

record database =
  db_projects :: "project_row list"
  db_upstreams :: "upstream_row list"
  db_project_upstreams :: "(string \<times> string) list"
  db_path_infos :: "path_info_row list"
  db_references :: "path_text_row list"
  db_signatures :: "path_text_row list"
  db_objects :: "storage_object_row list"
  db_builds :: "build_row list"
  db_build_paths :: "build_path_row list"
  db_refs :: "project_ref_row list"
  db_path_objects :: "path_object_row list"
  db_pins :: "pin_row list"
  db_oidc :: "oidc_identity_row list"
  db_tokens :: "access_token_row list"
  db_token_patterns :: "token_pattern_row list"
  db_policies :: "retention_policy_row list"
  db_rules :: "retention_rule_row list"
  db_keys :: "signing_key_row list"

definition empty_db :: database where
  "empty_db = \<lparr>db_projects = [], db_upstreams = [], db_project_upstreams = [], db_path_infos = [],
     db_references = [], db_signatures = [], db_objects = [], db_builds = [], db_build_paths = [],
     db_refs = [], db_path_objects = [], db_pins = [], db_oidc = [], db_tokens = [],
     db_token_patterns = [], db_policies = [], db_rules = [], db_keys = []\<rparr>"

type_synonym 'a db_op = "(database, anyhow, 'a) io"

subsection \<open>Keys\<close>

definition pt_key :: "path_text_row \<Rightarrow> string \<times> int" where
  "pt_key r = (pt_hash r, pt_ordinal r)"

definition so_key :: "storage_object_row \<Rightarrow> string \<times> string" where
  "so_key r = (so_storage_id r, so_object_path r)"

definition bp_key :: "build_path_row \<Rightarrow> string \<times> string" where
  "bp_key r = (bp_build r, bp_hash r)"

definition ref_key :: "project_ref_row \<Rightarrow> string \<times> string" where
  "ref_key r = (ref_project r, ref_name r)"

definition po_key :: "path_object_row \<Rightarrow> string \<times> string \<times> string" where
  "po_key r = (po_hash r, po_path r, po_kind r)"

definition pin_key :: "pin_row \<Rightarrow> string \<times> string" where
  "pin_key r = (pin_scope r, pin_name r)"

definition oi_key :: "oidc_identity_row \<Rightarrow> string \<times> string \<times> string \<times> string" where
  "oi_key r = (oi_project r, oi_provider r, oi_repository r, oi_pattern r)"

definition tp_key :: "token_pattern_row \<Rightarrow> string \<times> string" where
  "tp_key r = (tp_token r, tp_pattern r)"

definition rr_key :: "retention_rule_row \<Rightarrow> string \<times> int" where
  "rr_key r = (rr_project r, rr_priority r)"

lemmas key_defs = pt_key_def so_key_def bp_key_def ref_key_def po_key_def pin_key_def oi_key_def
  tp_key_def rr_key_def

interpretation projects: sql_table db_projects "\<lambda>t s. s\<lparr>db_projects := t\<rparr>" prow_slug
  by unfold_locales simp_all

interpretation upstreams: sql_table db_upstreams "\<lambda>t s. s\<lparr>db_upstreams := t\<rparr>" urow_name
  by unfold_locales simp_all

interpretation project_upstreams:
  sql_table db_project_upstreams "\<lambda>t s. s\<lparr>db_project_upstreams := t\<rparr>" "\<lambda>r. r"
  by unfold_locales simp_all

interpretation objects: sql_table db_objects "\<lambda>t s. s\<lparr>db_objects := t\<rparr>" so_key
  by unfold_locales simp_all

interpretation build_paths: sql_table db_build_paths "\<lambda>t s. s\<lparr>db_build_paths := t\<rparr>" bp_key
  by unfold_locales simp_all

interpretation refs: sql_table db_refs "\<lambda>t s. s\<lparr>db_refs := t\<rparr>" ref_key
  by unfold_locales simp_all

interpretation path_objects: sql_table db_path_objects "\<lambda>t s. s\<lparr>db_path_objects := t\<rparr>" po_key
  by unfold_locales simp_all

interpretation pins: sql_table db_pins "\<lambda>t s. s\<lparr>db_pins := t\<rparr>" pin_key
  by unfold_locales simp_all

interpretation policies: sql_table db_policies "\<lambda>t s. s\<lparr>db_policies := t\<rparr>" rp_project
  by unfold_locales simp_all

fun insert_rows :: "('r \<Rightarrow> 'k) \<Rightarrow> 'r list \<Rightarrow> 'r list \<Rightarrow> anyhow + 'r list" where
  "insert_rows key [] t = Inr t"
| "insert_rows key (r # rs) t = and_then (insert_row key r t) (insert_rows key rs)"

lemma insert_rows_Inr:
  "insert_rows key rs t = Inr t' \<Longrightarrow> t' = t @ rs"
  by (induction rs arbitrary: t) (fastforce simp: insert_row_def split: if_splits)+

lemma insert_rows_ok:
  "distinct (map key (t @ rs)) \<Longrightarrow> insert_rows key rs t = Inr (t @ rs)"
proof (induction rs arbitrary: t)
  case (Cons r rs)
  then have "\<not> has_key key (key r) t" by (auto simp: has_key_iff)
  then show ?case using Cons.IH[of "t @ [r]"] Cons.prems by (simp add: insert_row_def)
qed simp

lemma insert_rows_unique: "unique_key key t \<Longrightarrow> insert_rows key rs t = Inr t' \<Longrightarrow> unique_key key t'"
  by (induction rs arbitrary: t) (auto intro: unique_insert)

subsection \<open>Projects\<close>

text \<open>\<^verbatim>\<open>ON CONFLICT(slug) DO UPDATE\<close>; a clash of the fresh id with another project is an error.\<close>

definition insert_project ::
    "platform \<Rightarrow> datetime \<Rightarrow> uuid \<Rightarrow> project_slug \<Rightarrow> string \<Rightarrow> bool \<Rightarrow> storage_id \<Rightarrow> unit db_op" where
  "insert_project pf now fresh slug display_name public sid =
     tx_io (\<lambda>db.
       let row = \<lparr>prow_id = fresh, prow_slug = slug_str slug, prow_display_name = display_name,
           prow_public = (if public then 1 else 0), prow_storage_id = storage_id_str sid,
           prow_created_at = sql_now pf now\<rparr> in
       if \<not> has_key prow_slug (prow_slug row) (db_projects db) \<and> has_key prow_id fresh (db_projects db)
       then Inl (Anyhow ''inserting project'')
       else Inr ((), db\<lparr>db_projects := upsert_row prow_slug
         (\<lambda>old excluded. old\<lparr>prow_display_name := prow_display_name excluded,
            prow_public := prow_public excluded, prow_storage_id := prow_storage_id excluded\<rparr>)
         row (db_projects db)\<rparr>))"

definition find_project :: "project_slug \<Rightarrow> database \<Rightarrow> project_row option" where
  "find_project slug db = fetch_optional (\<lambda>r. prow_slug r = slug_str slug) (db_projects db)"

definition get_project_by_slug ::
    "platform \<Rightarrow> project_slug \<Rightarrow> database \<Rightarrow> anyhow + project_record option" where
  "get_project_by_slug pf slug db = transpose_res (project_into_record pf) (find_project slug db)"

definition list_projects :: "platform \<Rightarrow> database \<Rightarrow> anyhow + project_record list" where
  "list_projects pf db = collect_res (project_into_record pf) (order_by prow_slug (db_projects db))"

definition project_not_found :: "project_slug \<Rightarrow> anyhow" where
  "project_not_found slug = Anyhow (''project '' @ slug_str slug @ '' not found'')"

definition get_project_storage_id :: "project_slug \<Rightarrow> database \<Rightarrow> anyhow + storage_id" where
  "get_project_storage_id slug db =
     and_then (ok_or (project_not_found slug) (find_project slug db)) (\<lambda>r.
       context_err ''parsing project storage_id'' (storage_id_new (prow_storage_id r)))"

definition list_project_storage_ids :: "database \<Rightarrow> anyhow + (project_slug \<times> storage_id) list" where
  "list_project_storage_ids db =
     collect_res (\<lambda>r. and_then (parse_slug (prow_slug r)) (\<lambda>slug.
       and_then (context_err ''parsing project storage_id'' (storage_id_new (prow_storage_id r)))
         (\<lambda>sid. Inr (slug, sid)))) (order_by prow_slug (db_projects db))"

definition project_id_by_slug :: "project_slug \<Rightarrow> database \<Rightarrow> anyhow + string" where
  "project_id_by_slug slug db =
     and_then (ok_or (project_not_found slug) (find_project slug db)) (\<lambda>r. Inr (prow_id r))"

subsection \<open>Upstream caches\<close>

definition insert_upstream_cache ::
    "platform \<Rightarrow> datetime \<Rightarrow> upstream_cache \<Rightarrow> bool \<Rightarrow> unit db_op" where
  "insert_upstream_cache pf now u enabled =
     tx_io (\<lambda>db.
       let row = \<lparr>urow_id = uc_id u, urow_name = uc_name u, urow_base_url = uc_base_url u,
           urow_priority = uint (uc_priority u), urow_enabled = (if enabled then 1 else 0),
           urow_created_at = sql_now pf now\<rparr> in
       if list_ex (\<lambda>r. urow_name r = uc_name u \<and> urow_id r \<noteq> uc_id u) (db_upstreams db)
       then Inl (Anyhow ''inserting upstream cache'')
       else Inr ((), db\<lparr>db_upstreams := upsert_row urow_id
         (\<lambda>old excluded. old\<lparr>urow_name := urow_name excluded, urow_base_url := urow_base_url excluded,
            urow_priority := urow_priority excluded, urow_enabled := urow_enabled excluded\<rparr>)
         row (db_upstreams db)\<rparr>))"

definition upsert_upstream_cache_by_name ::
    "platform \<Rightarrow> datetime \<Rightarrow> uuid \<Rightarrow> string \<Rightarrow> string \<Rightarrow> 32 word \<Rightarrow> bool \<Rightarrow> unit db_op" where
  "upsert_upstream_cache_by_name pf now fresh name base_url priority enabled =
     tx_io (\<lambda>db.
       let existing_id = map_option urow_id (fetch_optional (\<lambda>r. urow_name r = name) (db_upstreams db));
           upstream_id = (case existing_id of Some i \<Rightarrow> i | None \<Rightarrow> fresh);
           row = \<lparr>urow_id = upstream_id, urow_name = name,
             urow_base_url = trim_end_char (CHR ''/'') base_url, urow_priority = uint priority,
             urow_enabled = (if enabled then 1 else 0), urow_created_at = sql_now pf now\<rparr> in
       if existing_id = None \<and> has_key urow_id upstream_id (db_upstreams db)
       then Inl (Anyhow ''upserting upstream cache by name'')
       else Inr ((), db\<lparr>db_upstreams := upsert_row urow_name
         (\<lambda>old excluded. old\<lparr>urow_base_url := urow_base_url excluded,
            urow_priority := urow_priority excluded, urow_enabled := urow_enabled excluded\<rparr>)
         row (db_upstreams db)\<rparr>))"

definition upstream_order :: "upstream_row \<Rightarrow> int \<times> string" where
  "upstream_order r = (urow_priority r, urow_name r)"

definition list_upstream_caches :: "platform \<Rightarrow> database \<Rightarrow> anyhow + upstream_record list" where
  "list_upstream_caches pf db =
     collect_res (upstream_into_record pf) (order_by upstream_order (db_upstreams db))"

definition get_upstream_cache_by_name ::
    "platform \<Rightarrow> string \<Rightarrow> database \<Rightarrow> anyhow + upstream_record option" where
  "get_upstream_cache_by_name pf name db =
     transpose_res (upstream_into_record pf) (fetch_optional (\<lambda>r. urow_name r = name) (db_upstreams db))"

definition set_upstream_enabled :: "string \<Rightarrow> bool \<Rightarrow> bool db_op" where
  "set_upstream_enabled name enabled =
     tx_io (\<lambda>db. Inr (has_key urow_name name (db_upstreams db),
       db\<lparr>db_upstreams := update_rows (\<lambda>r. urow_name r = name)
         (\<lambda>r. r\<lparr>urow_enabled := (if enabled then 1 else 0)\<rparr>) (db_upstreams db)\<rparr>))"

definition link_project_upstream :: "project_slug \<Rightarrow> uuid \<Rightarrow> unit db_op" where
  "link_project_upstream slug upstream_id =
     tx_io (\<lambda>db.
       and_then (project_id_by_slug slug db) (\<lambda>project_id.
       and_then (foreign_key (has_key urow_id upstream_id (db_upstreams db))) (\<lambda>_.
       Inr ((), db\<lparr>db_project_upstreams :=
         insert_ignore (\<lambda>r. r) (project_id, upstream_id) (db_project_upstreams db)\<rparr>))))"

definition link_project_upstream_by_name :: "platform \<Rightarrow> project_slug \<Rightarrow> string \<Rightarrow> bool db_op" where
  "link_project_upstream_by_name pf slug upstream_name =
     bind_io (query_io (get_upstream_cache_by_name pf upstream_name)) (\<lambda>found.
       case found of None \<Rightarrow> return_io False
       | Some upstream \<Rightarrow> bind_io (link_project_upstream slug (ups_id upstream)) (\<lambda>_. return_io True))"

definition unlink_project_upstream_by_name :: "project_slug \<Rightarrow> string \<Rightarrow> bool db_op" where
  "unlink_project_upstream_by_name slug upstream_name =
     tx_io (\<lambda>db.
       and_then (project_id_by_slug slug db) (\<lambda>project_id.
       let upstream_id = map_option urow_id
             (fetch_optional (\<lambda>r. urow_name r = upstream_name) (db_upstreams db));
           matches = (\<lambda>(p, u). p = project_id \<and> Some u = upstream_id) in
       Inr (list_ex matches (db_project_upstreams db),
            db\<lparr>db_project_upstreams := delete_rows matches (db_project_upstreams db)\<rparr>)))"

definition list_enabled_upstreams :: "platform \<Rightarrow> database \<Rightarrow> anyhow + upstream_record list" where
  "list_enabled_upstreams pf db =
     collect_res (upstream_into_record pf)
       (order_by upstream_order (filter (\<lambda>r. urow_enabled r = 1) (db_upstreams db)))"

text \<open>The join of upstreams with the links of the projects of a slug.\<close>

definition project_upstream_rows :: "project_slug \<Rightarrow> database \<Rightarrow> upstream_row list" where
  "project_upstream_rows slug db =
     concat (map (\<lambda>uc. concat (map (\<lambda>(project_id, upstream_id).
       if upstream_id = urow_id uc
       then concat (map (\<lambda>p. if prow_id p = project_id \<and> prow_slug p = slug_str slug then [uc] else [])
              (db_projects db))
       else []) (db_project_upstreams db))) (db_upstreams db))"

definition list_upstreams_for_project ::
    "platform \<Rightarrow> project_slug \<Rightarrow> database \<Rightarrow> anyhow + upstream_record list" where
  "list_upstreams_for_project pf slug db =
     collect_res (upstream_into_record pf) (order_by upstream_order (project_upstream_rows slug db))"

definition list_enabled_upstreams_for_project ::
    "platform \<Rightarrow> project_slug \<Rightarrow> database \<Rightarrow> anyhow + upstream_record list" where
  "list_enabled_upstreams_for_project pf slug db =
     collect_res (upstream_into_record pf)
       (order_by upstream_order (filter (\<lambda>r. urow_enabled r = 1) (project_upstream_rows slug db)))"

lemma project_upstream_rows_iff:
  "u \<in> set (project_upstream_rows slug db) \<longleftrightarrow> u \<in> set (db_upstreams db) \<and>
   (\<exists>p\<in>set (db_projects db). prow_slug p = slug_str slug \<and>
      (prow_id p, urow_id u) \<in> set (db_project_upstreams db))"
  by (auto simp: project_upstream_rows_def split: if_splits)

end
