(* ===== verification/Backends.thy ===== *)
theory Backends
  imports LocalStore Database
begin

text \<open>
  The services work on the database and on the storages of the catalog together. The state of both is a
  pair; the locale \<open>storage_backends\<close> is the contract of a catalog whose backends share nothing.
\<close>

subsection \<open>The state of a service\<close>

type_synonym 'w world = "database \<times> 'w"

definition on_db :: "'a db_op \<Rightarrow> ('w world, anyhow, 'a) io" where
  "on_db m = (\<lambda>(db, w). case m db of (r, db') \<Rightarrow> (r, db', w))"

definition on_storage :: "('w, anyhow, 'a) io \<Rightarrow> ('w world, anyhow, 'a) io" where
  "on_storage m = (\<lambda>(db, w). case m w of (r, w') \<Rightarrow> (r, db, w'))"

lemma on_db_eq [simp]: "on_db m (db, w) = (r, s') \<longleftrightarrow> (\<exists>db'. m db = (r, db') \<and> s' = (db', w))"
  by (auto simp: on_db_def split: prod.splits)

lemma on_storage_eq [simp]: "on_storage m (db, w) = (r, s') \<longleftrightarrow> (\<exists>w'. m w = (r, w') \<and> s' = (db, w'))"
  by (auto simp: on_storage_def split: prod.splits)

lemma bind_io_cases:
  assumes "bind_io m f s = (r, s')"
  obtains e where "m s = (Inl e, s')" "r = Inl e"
    | x s1 where "m s = (Inr x, s1)" "f x s1 = (r, s')"
  using assms by (cases "m s"; cases "fst (m s)") (auto simp: bind_io_def)

subsection \<open>The contract of a catalog\<close>

text \<open>A call of a storage.\<close>

inductive storage_call :: "'w depot_storage \<Rightarrow> 'w \<Rightarrow> 'w \<Rightarrow> bool" for st where
  call_head: "storage_call st w (snd (ds_head st p w))"
| call_get: "storage_call st w (snd (ds_get_bytes st p w))"
| call_put: "storage_call st w (snd (ds_put_bytes st p b w))"
| call_stream: "storage_call st w (snd (ds_put_stream st p rd w))"
| call_delete: "storage_call st w (snd (ds_delete st p w))"

locale storage_backends =
  fixes cat :: "'w storage_catalog" and contents :: "storage_id \<Rightarrow> 'w \<Rightarrow> string \<Rightarrow> bytes option"
    and key :: "storage_id \<Rightarrow> string \<Rightarrow> 'k" and visible :: "string \<Rightarrow> bool" and ok :: "'w \<Rightarrow> bool"
  assumes backend: "catalog_storage cat i = Inr st \<Longrightarrow> object_storage st (contents i) (key i) visible ok"
    and other_backend: "catalog_storage cat i = Inr st \<Longrightarrow> storage_call st w w' \<Longrightarrow> ok w \<Longrightarrow> j \<noteq> i \<Longrightarrow>
      contents j w' q = contents j w q"
begin

lemma delete_backend:
  assumes "catalog_storage cat i = Inr st" "ds_delete st p w = (r, w')" "ok w" "visible p" "visible q"
  shows "ok w' \<and> written (is_ok r) (i = j \<and> key j q = key i p) None (contents j w q) (contents j w' q)"
proof -
  note d = object_storage.delete_ok[OF backend[OF assms(1)] assms(3,4) assms(5,2)]
  have "storage_call st w w'" using call_delete[of st w p] assms(2) by simp
  from other_backend[OF assms(1) this assms(3), of j q] d show ?thesis
    by (cases "j = i") (simp_all add: written_def)
qed

end

subsection \<open>Backends on file systems of their own\<close>

text \<open>A storage on the part \<open>i\<close> of a family of worlds.\<close>

definition at_part :: "'i \<Rightarrow> ('w, 'e, 'a) io \<Rightarrow> ('i \<Rightarrow> 'w, 'e, 'a) io" where
  "at_part i m = (\<lambda>w. case m (w i) of (r, x) \<Rightarrow> (r, w(i := x)))"

definition part_storage :: "'i \<Rightarrow> 'w depot_storage \<Rightarrow> ('i \<Rightarrow> 'w) depot_storage" where
  "part_storage i st =
     \<lparr>ds_head = (\<lambda>p. at_part i (ds_head st p)), ds_get_bytes = (\<lambda>p. at_part i (ds_get_bytes st p)),
      ds_put_bytes = (\<lambda>p b. at_part i (ds_put_bytes st p b)),
      ds_put_stream = (\<lambda>p rd. at_part i (ds_put_stream st p rd)),
      ds_create_multipart_upload = (\<lambda>p. at_part i (ds_create_multipart_upload st p)),
      ds_presign_multipart_upload_part = (\<lambda>p u n len t. at_part i (ds_presign_multipart_upload_part st p u n len t)),
      ds_complete_multipart_upload = (\<lambda>p u ps len. at_part i (ds_complete_multipart_upload st p u ps len)),
      ds_abort_multipart_upload = (\<lambda>p u. at_part i (ds_abort_multipart_upload st p u)),
      ds_delete = (\<lambda>p. at_part i (ds_delete st p))\<rparr>"

lemma at_part_eq: "at_part i m w = (r, w') \<longleftrightarrow> (\<exists>x. m (w i) = (r, x) \<and> w' = w(i := x))"
  by (auto simp: at_part_def split: prod.splits)

lemma at_part_other: "j \<noteq> i \<Longrightarrow> snd (at_part i m w) j = w j"
  by (simp add: at_part_def split: prod.splits)

lemma part_call_other: "storage_call (part_storage i st) w w' \<Longrightarrow> j \<noteq> i \<Longrightarrow> w' j = w j"
  by (cases rule: storage_call.cases) (auto simp: part_storage_def at_part_other)

lemma part_object_storage:
  assumes "object_storage st c k v ok"
  shows "object_storage (part_storage i st) (\<lambda>w. c (w i)) k v (\<lambda>w. ok (w i) \<and> (\<forall>j. j \<noteq> i \<longrightarrow> P j (w j)))"
proof (unfold_locales, goal_cases)
  case (1 w p r w')
  then obtain x where x: "ds_get_bytes st p (w i) = (r, x)" "w' = w(i := x)" by (auto simp: part_storage_def at_part_eq)
  show ?case unfolding x(2) using object_storage.get_ok[OF assms conjunct1[OF 1(1)] x(1)] 1(1) by (metis fun_upd_apply)
next
  case (2 w p r w')
  then obtain x where x: "ds_head st p (w i) = (r, x)" "w' = w(i := x)" by (auto simp: part_storage_def at_part_eq)
  show ?case unfolding x(2) using object_storage.head_ok[OF assms conjunct1[OF 2(1)] x(1)] 2(1) by (metis fun_upd_apply)
next
  case (3 w p q b r w')
  then obtain x where x: "ds_put_bytes st p b (w i) = (r, x)" "w' = w(i := x)" by (auto simp: part_storage_def at_part_eq)
  show ?case unfolding x(2) using object_storage.put_ok[OF assms conjunct1[OF 3(1)] 3(2,3) x(1)] 3(1) by (metis fun_upd_apply)
next
  case (4 w p q rd r w')
  then obtain x where x: "ds_put_stream st p rd (w i) = (r, x)" "w' = w(i := x)" by (auto simp: part_storage_def at_part_eq)
  show ?case unfolding x(2) using object_storage.stream_ok[OF assms conjunct1[OF 4(1)] 4(2,3) x(1)] 4(1) by (metis fun_upd_apply)
next
  case (5 w p q r w')
  then obtain x where x: "ds_delete st p (w i) = (r, x)" "w' = w(i := x)" by (auto simp: part_storage_def at_part_eq)
  show ?case unfolding x(2) using object_storage.delete_ok[OF assms conjunct1[OF 5(1)] 5(2,3) x(1)] 5(1) by (metis fun_upd_apply)
next
  case (6 p q w)
  then show ?case by (rule object_storage.key_contents[OF assms])
qed

text \<open>Filesystem storages, each on a file system of its own, keep the contract of a catalog. \<open>fresh\<close> is the
  id that the temporary files of an upload get.\<close>

definition local_backends :: "uuid \<Rightarrow> (storage_id \<times> filesystem_storage) list \<Rightarrow>
    (storage_id \<times> (storage_id \<Rightarrow> file_system) depot_storage) list" where
  "local_backends fresh bs = map (\<lambda>(i, s). (i, part_storage i (local_storage fresh s))) bs"

definition backend_at :: "(storage_id \<times> filesystem_storage) list \<Rightarrow> storage_id \<Rightarrow> filesystem_storage" where
  "backend_at bs i = (case map_of bs i of Some s \<Rightarrow> s | None \<Rightarrow> \<lparr>fst_root = []\<rparr>)"

lemma local_backend:
  "catalog_storage \<lparr>sc_default = d, sc_backends = local_backends fresh bs\<rparr> i = Inr st \<Longrightarrow>
   st = part_storage i (local_storage fresh (backend_at bs i))"
proof -
  have "map_of (local_backends fresh bs) i = map_option (\<lambda>s. part_storage i (local_storage fresh s)) (map_of bs i)" for i
    by (induction bs) (auto simp: local_backends_def)
  then show "catalog_storage \<lparr>sc_default = d, sc_backends = local_backends fresh bs\<rparr> i = Inr st \<Longrightarrow> ?thesis"
    by (auto simp: catalog_storage_def backend_at_def)
qed

interpretation local_catalog: storage_backends "\<lparr>sc_default = d, sc_backends = local_backends fresh bs\<rparr>"
  "\<lambda>i w. local_contents (backend_at bs i) (w i)" "\<lambda>i. local_key (backend_at bs i)" local_visible "\<lambda>w. \<forall>i. fs_wf (w i)"
  for d fresh bs
proof (rule storage_backends.intro, goal_cases)
  case (1 i st)
  have "(\<lambda>w. fs_wf (w i) \<and> (\<forall>j. j \<noteq> i \<longrightarrow> fs_wf (w j))) = (\<lambda>w. \<forall>i. fs_wf (w i))" by (rule ext) metis
  then show ?case
    using part_object_storage[OF local_fs.object_storage_axioms, of i fresh "backend_at bs i" "\<lambda>_. fs_wf"] local_backend[OF 1]
    by simp
next
  case (2 i st w w' j q)
  then show ?case using part_call_other[of i "local_storage fresh (backend_at bs i)" w w' j] local_backend[OF 2(1)] by simp
qed

end
