(* ===== verification/Upstream.thy ===== *)
theory Upstream
  imports Backends Signing
begin

text \<open>
  \<^verbatim>\<open>crates/depot-store/src/upstream.rs\<close>: clients of the upstream caches. The HTTP client is a
  parameter: what it answers to a request, from the state of the outside world.
\<close>

subsection \<open>Responses\<close>

text \<open>Header names are in lower case. \<open>hr_content_length\<close> is what \<^verbatim>\<open>Response::content_length\<close> reports;
  reading the body can fail.\<close>

record http_response =
  hr_status :: nat
  hr_headers :: "(string \<times> string) list"
  hr_content_length :: "64 word option"
  hr_body :: "string + bytes"

record 'w http_client =
  hc_get :: "string \<Rightarrow> ('w, string, http_response) io"
  hc_head :: "string \<Rightarrow> ('w, string, http_response) io"
  hc_text :: "bytes \<Rightarrow> string" \<comment> \<open>the decoding of \<^verbatim>\<open>Response::text\<close>\<close>

text \<open>\<^verbatim>\<open>HeaderValue::to_str\<close> accepts visible ASCII, spaces and tabs.\<close>

definition header_to_str :: "string \<Rightarrow> string option" where
  "header_to_str v = (if list_all (\<lambda>c. byte_of c = 9 \<or> 32 \<le> byte_of c \<and> byte_of c < 127) v then Some v else None)"

definition blob_metadata_from_response :: "http_response \<Rightarrow> blob_metadata" where
  "blob_metadata_from_response response =
     \<lparr>bm_content_type = (case Option.bind (map_of (hr_headers response) ''content-type'') header_to_str of
        Some t \<Rightarrow> t | None \<Rightarrow> ''application/octet-stream''),
      bm_content_length = hr_content_length response,
      bm_etag = Option.bind (map_of (hr_headers response) ''etag'') header_to_str,
      bm_last_modified = None\<rparr>"

subsection \<open>The clients\<close>

definition narinfo_url :: "upstream_cache \<Rightarrow> store_path_hash \<Rightarrow> string" where
  "narinfo_url u h = uc_base_url u @ ''/'' @ hash_str h @ ''.narinfo''"

definition object_url :: "upstream_cache \<Rightarrow> string \<Rightarrow> string" where
  "object_url u object_path = uc_base_url u @ ''/'' @ object_path"

record 'w upstream_client =
  ucl_fetch_narinfo_text :: "upstream_cache \<Rightarrow> store_path_hash \<Rightarrow> ('w, anyhow, string option) io"
  ucl_head_object :: "upstream_cache \<Rightarrow> string \<Rightarrow> ('w, anyhow, blob_metadata option) io"
  ucl_get_object :: "upstream_cache \<Rightarrow> string \<Rightarrow> ('w, anyhow, (blob_metadata \<times> bytes) option) io"

definition unexpected_status :: "upstream_cache \<Rightarrow> http_response \<Rightarrow> string \<Rightarrow> anyhow" where
  "unexpected_status u response what =
     Anyhow (''upstream '' @ uc_name u @ '' returned unexpected status '' @ show_nat (hr_status response) @ what)"

definition reqwest_fetch_narinfo_text ::
    "'w http_client \<Rightarrow> upstream_cache \<Rightarrow> store_path_hash \<Rightarrow> ('w, anyhow, string option) io" where
  "reqwest_fetch_narinfo_text client u h =
     bind_io (io_context ''fetching narinfo from upstream'' (hc_get client (narinfo_url u h))) (\<lambda>response.
     if hr_status response = 200 then
       bind_io (pure_io (context_err ''reading narinfo body'' (hr_body response))) (\<lambda>body.
       return_io (Some (hc_text client body)))
     else if hr_status response = 404 then return_io None
     else fail_io (unexpected_status u response '' for narinfo''))"

definition reqwest_get_object ::
    "'w http_client \<Rightarrow> upstream_cache \<Rightarrow> string \<Rightarrow> ('w, anyhow, (blob_metadata \<times> bytes) option) io" where
  "reqwest_get_object client u object_path =
     bind_io (io_context ''fetching object from upstream'' (hc_get client (object_url u object_path))) (\<lambda>response.
     if hr_status response = 200 then
       bind_io (pure_io (context_err ''reading object body'' (hr_body response))) (\<lambda>body.
       return_io (Some (blob_metadata_from_response response, body)))
     else if hr_status response = 404 then return_io None
     else fail_io (unexpected_status u response '' for object''))"

text \<open>An upstream without \<^verbatim>\<open>HEAD\<close> is asked with \<^verbatim>\<open>GET\<close>.\<close>

definition reqwest_head_object ::
    "'w http_client \<Rightarrow> upstream_cache \<Rightarrow> string \<Rightarrow> ('w, anyhow, blob_metadata option) io" where
  "reqwest_head_object client u object_path =
     bind_io (io_context ''heading object from upstream'' (hc_head client (object_url u object_path))) (\<lambda>response.
     if hr_status response = 200 then return_io (Some (blob_metadata_from_response response))
     else if hr_status response = 404 then return_io None
     else if hr_status response = 405 then
       bind_io (reqwest_get_object client u object_path) (\<lambda>found. return_io (map_option fst found))
     else fail_io (unexpected_status u response '' for HEAD object''))"

definition reqwest_upstream_client :: "'w http_client \<Rightarrow> 'w upstream_client" where
  "reqwest_upstream_client client =
     \<lparr>ucl_fetch_narinfo_text = reqwest_fetch_narinfo_text client,
      ucl_head_object = reqwest_head_object client, ucl_get_object = reqwest_get_object client\<rparr>"

text \<open>The client that holds its answers in memory.\<close>

record in_memory_upstream =
  imu_narinfos :: "uuid \<times> string \<Rightarrow> string option"
  imu_objects :: "uuid \<times> string \<Rightarrow> (blob_metadata \<times> bytes) option"

definition insert_upstream_narinfo :: "uuid \<Rightarrow> string \<Rightarrow> string \<Rightarrow> in_memory_upstream \<Rightarrow> in_memory_upstream" where
  "insert_upstream_narinfo i h t c = c\<lparr>imu_narinfos := (imu_narinfos c)((i, h) \<mapsto> t)\<rparr>"

definition insert_upstream_object ::
    "uuid \<Rightarrow> string \<Rightarrow> blob_metadata \<Rightarrow> bytes \<Rightarrow> in_memory_upstream \<Rightarrow> in_memory_upstream" where
  "insert_upstream_object i p m b c = c\<lparr>imu_objects := (imu_objects c)((i, p) \<mapsto> (m, b))\<rparr>"

definition in_memory_client :: "in_memory_upstream \<Rightarrow> 'w upstream_client" where
  "in_memory_client c =
     \<lparr>ucl_fetch_narinfo_text = (\<lambda>u h. return_io (imu_narinfos c (uc_id u, hash_str h))),
      ucl_head_object = (\<lambda>u p. return_io (map_option fst (imu_objects c (uc_id u, p)))),
      ucl_get_object = (\<lambda>u p. return_io (imu_objects c (uc_id u, p)))\<rparr>"

subsection \<open>The contract\<close>

text \<open>
  What a service relies on. The requests leave what \<open>kept\<close> observes of the world as it is; what the
  upstreams hold is \<open>held\<close>, a narinfo text or an object.
\<close>

locale upstream_service =
  fixes cl :: "'w upstream_client" and narinfos :: "upstream_cache \<Rightarrow> store_path_hash \<Rightarrow> string option"
    and held :: "upstream_cache \<Rightarrow> string \<Rightarrow> (blob_metadata \<times> bytes) option" and kept :: "'w \<Rightarrow> 'c"
  assumes fetch_text: "ucl_fetch_narinfo_text cl u h w = (rt, w') \<Longrightarrow> kept w' = kept w \<and>
      (\<forall>t. rt = Inr t \<longrightarrow> t = narinfos u h)"
    and head_held: "ucl_head_object cl u p w = (rm, w') \<Longrightarrow> kept w' = kept w \<and>
      (\<forall>m. rm = Inr m \<longrightarrow> (m = None) = (held u p = None))"
    and get_held: "ucl_get_object cl u p w = (rb, w') \<Longrightarrow> kept w' = kept w \<and>
      (\<forall>x. rb = Inr x \<longrightarrow> map_option snd x = map_option snd (held u p))"

text \<open>An HTTP client over fixed answers: whether the first attempt of a request gets through, and what
  the servers answer.\<close>

locale http_service =
  fixes client :: "'w http_client" and page :: "string \<Rightarrow> http_response" and has_head :: "string \<Rightarrow> bool" and kept :: "'w \<Rightarrow> 'c"
  assumes get_page: "hc_get client url w = (r, w') \<Longrightarrow> kept w' = kept w \<and> (\<forall>x. r = Inr x \<longrightarrow> x = page url)"
    and head_page: "hc_head client url w = (r, w') \<Longrightarrow> kept w' = kept w \<and>
      (\<forall>x. r = Inr x \<longrightarrow> hr_status x = (if has_head url then hr_status (page url) else 405))"

definition page_object :: "(string \<Rightarrow> http_response) \<Rightarrow> upstream_cache \<Rightarrow> string \<Rightarrow> (blob_metadata \<times> bytes) option" where
  "page_object page u p =
     (let response = page (object_url u p) in
      if hr_status response = 200
      then Some (blob_metadata_from_response response, case hr_body response of Inr b \<Rightarrow> b | Inl _ \<Rightarrow> []) else None)"

definition page_narinfo :: "'w http_client \<Rightarrow> (string \<Rightarrow> http_response) \<Rightarrow> upstream_cache \<Rightarrow> store_path_hash \<Rightarrow> string option" where
  "page_narinfo client page u h =
     (let response = page (narinfo_url u h) in
      if hr_status response = 200
      then Some (hc_text client (case hr_body response of Inr b \<Rightarrow> b | Inl _ \<Rightarrow> [])) else None)"

lemma io_context_Inr: "io_context msg m w = (Inr x, w') \<longleftrightarrow> m w = (Inr x, w')"
  by (auto simp: io_context_def split: prod.splits)

lemma io_context_state: "io_context msg m w = (r, w') \<Longrightarrow> \<exists>r0. m w = (r0, w')"
  by (auto simp: io_context_def split: prod.splits)

context http_service
begin

lemma get_object_page:
  assumes "reqwest_get_object client u p w = (r, w')"
  shows "kept w' = kept w \<and> (\<forall>x. r = Inr x \<longrightarrow> x = page_object page u p)"
  using assms unfolding reqwest_get_object_def
proof (cases rule: bind_io_cases)
  case (1 e)
  then obtain r0 where "hc_get client (object_url u p) w = (r0, w')" using io_context_state[OF 1(1)] by blast
  then show ?thesis using get_page 1(2) by blast
next
  case (2 x w1)
  then have "kept w1 = kept w" "x = page (object_url u p)" using get_page by (auto simp: io_context_Inr)
  moreover have "w' = w1" using 2(2) by (auto simp: io_defs split: if_splits sum.splits)
  ultimately show ?thesis using 2(2)
    by (cases "hr_body x") (auto simp: page_object_def io_defs context_err_def split: if_splits)
qed

lemma head_object_page:
  assumes "reqwest_head_object client u p w = (r, w')"
  shows "kept w' = kept w \<and> (\<forall>m. r = Inr m \<longrightarrow> (m = None) = (page_object page u p = None))"
  using assms unfolding reqwest_head_object_def
proof (cases rule: bind_io_cases)
  case (1 e)
  then obtain r0 where "hc_head client (object_url u p) w = (r0, w')" using io_context_state[OF 1(1)] by blast
  then show ?thesis using head_page 1(2) by blast
next
  case (2 x w1)
  then have h: "kept w1 = kept w" "hr_status x = (if has_head (object_url u p) then hr_status (page (object_url u p)) else 405)"
    using head_page by (auto simp: io_context_Inr)
  show ?thesis
  proof (cases "hr_status x = 405")
    case True
    from 2(2) True have "bind_io (reqwest_get_object client u p) (\<lambda>found. return_io (map_option fst found)) w1 = (r, w')" by simp
    then show ?thesis
    proof (cases rule: bind_io_cases)
      case (1 e)
      then show ?thesis using get_object_page[OF 1(1)] h(1) by simp
    next
      case (2 y w2)
      then show ?thesis using get_object_page[OF 2(1)] h(1) by (auto simp: return_io_def)
    qed
  next
    case False
    then show ?thesis using 2(2) h by (auto simp: page_object_def Let_def io_defs split: if_splits)
  qed
qed

lemma fetch_text_page:
  assumes "reqwest_fetch_narinfo_text client u h w = (r, w')"
  shows "kept w' = kept w \<and> (\<forall>x. r = Inr x \<longrightarrow> x = page_narinfo client page u h)"
  using assms unfolding reqwest_fetch_narinfo_text_def
proof (cases rule: bind_io_cases)
  case (1 e)
  then obtain r0 where "hc_get client (narinfo_url u h) w = (r0, w')" using io_context_state[OF 1(1)] by blast
  then show ?thesis using get_page 1(2) by blast
next
  case (2 x w1)
  then have "kept w1 = kept w" "x = page (narinfo_url u h)" using get_page by (auto simp: io_context_Inr)
  moreover have "w' = w1" using 2(2) by (auto simp: io_defs split: if_splits sum.splits)
  ultimately show ?thesis using 2(2)
    by (cases "hr_body x") (auto simp: page_narinfo_def io_defs context_err_def split: if_splits)
qed

end

text \<open>The client of the server keeps the contract whenever the servers answer consistently.\<close>

sublocale http_service \<subseteq> reqwest: upstream_service "reqwest_upstream_client client" "page_narinfo client page"
  "page_object page" kept
  by unfold_locales (auto simp: reqwest_upstream_client_def dest: fetch_text_page head_object_page get_object_page)

text \<open>A client whose servers answer from a table, and the client in memory.\<close>

definition table_client :: "(string \<Rightarrow> http_response) \<Rightarrow> 'w http_client" where
  "table_client page =
     \<lparr>hc_get = (\<lambda>url. return_io (page url)), hc_head = (\<lambda>url. return_io (page url)), hc_text = bytes_text\<rparr>"

interpretation table_http: http_service "table_client page" page "\<lambda>_. True" kept for page kept
  by unfold_locales (auto simp: table_client_def return_io_def)

interpretation in_memory: upstream_service "in_memory_client c" "\<lambda>u h. imu_narinfos c (uc_id u, hash_str h)"
  "\<lambda>u p. imu_objects c (uc_id u, p)" kept for c kept
  by unfold_locales (auto simp: in_memory_client_def return_io_def)

end
