(* ===== verification/Auth.thy ===== *)
theory Auth
  imports Upstream
begin

text \<open>
  \<^verbatim>\<open>crates/depot-auth\<close>: who presents a bearer token. An authorizer is an operation on a state of its own;
  there are one for a configured token (\<^verbatim>\<open>static_token.rs\<close>), one for OIDC tokens (\<^verbatim>\<open>oidc.rs\<close>,
  \<^verbatim>\<open>oidc_claims.rs\<close>, \<^verbatim>\<open>oidc_config.rs\<close>, \<^verbatim>\<open>oidc_http.rs\<close>) and the chain of several (\<^verbatim>\<open>chain.rs\<close>).
  The crates \<^verbatim>\<open>jsonwebtoken\<close>, \<^verbatim>\<open>serde_json\<close>, \<^verbatim>\<open>base64\<close> and the URL parser are parameters.
\<close>

subsection \<open>Claims\<close>

datatype json =
    JNull
  | JBool bool
  | JNumber string \<comment> \<open>by its text\<close>
  | JString string
  | JArray "json list"
  | JObject "(string \<times> json) list"

fun as_str :: "json \<Rightarrow> string option" where
  "as_str (JString s) = Some s"
| "as_str _ = None"

fun as_object :: "json \<Rightarrow> (string \<times> json) list option" where
  "as_object (JObject m) = Some m"
| "as_object _ = None"

text \<open>\<^verbatim>\<open>Value::to_string\<close>: the compact text.\<close>

definition hex_nibble :: "nat \<Rightarrow> char" where
  "hex_nibble n = (if n < 10 then char_of (48 + n) else char_of (87 + n))"

definition escape_char :: "char \<Rightarrow> string" where
  "escape_char c =
     (if c = CHR 0x22 then [CHR 0x5C, CHR 0x22] else if c = CHR 0x5C then [CHR 0x5C, CHR 0x5C]
      else if byte_of c = 8 then [CHR 0x5C, CHR ''b''] else if byte_of c = 9 then [CHR 0x5C, CHR ''t'']
      else if byte_of c = 10 then [CHR 0x5C, CHR ''n''] else if byte_of c = 12 then [CHR 0x5C, CHR ''f'']
      else if byte_of c = 13 then [CHR 0x5C, CHR ''r'']
      else if byte_of c < 32
      then CHR 0x5C # ''u00'' @ [hex_nibble (byte_of c div 16), hex_nibble (byte_of c mod 16)]
      else [c])"

definition quoted :: "string \<Rightarrow> string" where
  "quoted s = CHR 0x22 # concat (map escape_char s) @ [CHR 0x22]"

fun comma_joined :: "string list \<Rightarrow> string" where
  "comma_joined [] = []"
| "comma_joined [x] = x"
| "comma_joined (x # xs) = x @ '','' @ comma_joined xs"

fun json_text :: "json \<Rightarrow> string" where
  "json_text JNull = ''null''"
| "json_text (JBool b) = (if b then ''true'' else ''false'')"
| "json_text (JNumber n) = n"
| "json_text (JString s) = quoted s"
| "json_text (JArray xs) = ''['' @ comma_joined (map json_text xs) @ '']''"
| "json_text (JObject m) = ''{'' @ comma_joined (map (\<lambda>(k, v). quoted k @ '':'' @ json_text v) m) @ ''}''"

type_synonym claims = "(string \<times> json) list"

fun walk_claim :: "json \<Rightarrow> string list \<Rightarrow> json option" where
  "walk_claim current [] = Some current"
| "walk_claim current (part # parts) =
     Option.bind (as_object current) (\<lambda>m. Option.bind (map_of m part) (\<lambda>v. walk_claim v parts))"

text \<open>A claim by its name, or else along the path that its name spells with dots.\<close>

definition get_claim :: "claims \<Rightarrow> string \<Rightarrow> json option" where
  "get_claim claims name =
     (case map_of claims name of
        Some v \<Rightarrow> Some v
      | None \<Rightarrow>
          let parts = split_char (CHR ''.'') name in
          if length parts = 1 then None
          else Option.bind (map_of claims (hd parts)) (\<lambda>v. walk_claim v (tl parts)))"

definition get_string_claim :: "claims \<Rightarrow> string \<Rightarrow> string option" where
  "get_string_claim claims name = Option.bind (get_claim claims name) as_str"

definition normalize_to_string_vec :: "json \<Rightarrow> string list" where
  "normalize_to_string_vec v =
     (case v of
        JString s \<Rightarrow> [s]
      | JArray vs \<Rightarrow> List.map_filter as_str vs
      | JNull \<Rightarrow> []
      | _ \<Rightarrow> [json_text v])"

datatype oidc_claims_error =
    MissingClaim string
  | ClaimMismatch string "string list" "string list"
  | SubjectMismatch string "string list"

fun validate_bound_claims ::
    "platform \<Rightarrow> claims \<Rightarrow> (string \<times> string list) list \<Rightarrow> oidc_claims_error + unit" where
  "validate_bound_claims pf claims [] = Inr ()"
| "validate_bound_claims pf claims ((claim_name, allowed_patterns) # bound_claims) =
     and_then (ok_or (MissingClaim claim_name) (get_claim claims claim_name)) (\<lambda>v.
     let values = normalize_to_string_vec v in
     if values = [] then Inl (MissingClaim claim_name)
     else if \<not> list_ex (\<lambda>v. list_ex (\<lambda>pattern. wild_matches pf pattern v) allowed_patterns) values
     then Inl (ClaimMismatch claim_name values allowed_patterns)
     else validate_bound_claims pf claims bound_claims)"

definition validate_bound_subject :: "platform \<Rightarrow> claims \<Rightarrow> string list \<Rightarrow> oidc_claims_error + unit" where
  "validate_bound_subject pf claims bound_subject =
     (if bound_subject = [] then Inr ()
      else and_then (ok_or (MissingClaim ''sub'') (get_string_claim claims ''sub'')) (\<lambda>subject.
        if list_ex (\<lambda>pattern. wild_matches pf pattern subject) bound_subject then Inr ()
        else Inl (SubjectMismatch subject bound_subject)))"

subsection \<open>Identities and errors\<close>

record oidc_identity =
  oidc_issuer :: string
  oidc_repository :: "string option"
  oidc_ref_name :: "string option"
  oidc_claims :: claims

datatype identity_kind = BootstrapAdmin | Oidc oidc_identity | AccessToken (token_id: string)

record authenticated_identity =
  aid_subject :: string
  aid_provider :: "string option"
  aid_kind :: identity_kind

definition bootstrap_admin :: authenticated_identity where
  "bootstrap_admin =
     \<lparr>aid_subject = ''static-token'', aid_provider = Some ''static-token'', aid_kind = BootstrapAdmin\<rparr>"

definition identity_oidc ::
    "string \<Rightarrow> string \<Rightarrow> string \<Rightarrow> string option \<Rightarrow> string option \<Rightarrow> claims \<Rightarrow> authenticated_identity" where
  "identity_oidc provider subject issuer repository rname claims =
     \<lparr>aid_subject = subject, aid_provider = Some provider, aid_kind = Oidc \<lparr>oidc_issuer = issuer,
        oidc_repository = repository, oidc_ref_name = rname, oidc_claims = claims\<rparr>\<rparr>"

definition identity_access_token :: "string \<Rightarrow> string \<Rightarrow> authenticated_identity" where
  "identity_access_token i subject =
     \<lparr>aid_subject = subject, aid_provider = Some ''access-token'', aid_kind = AccessToken i\<rparr>"

datatype auth_error = Disabled | Unavailable string | MissingToken | InvalidToken

type_synonym 's authorizer = "string option \<Rightarrow> ('s, auth_error, authenticated_identity) io"

definition static_token_authorizer :: "string option \<Rightarrow> 's authorizer" where
  "static_token_authorizer configured_token bearer_token =
     pure_io (and_then (ok_or Disabled configured_token) (\<lambda>configured.
       and_then (ok_or MissingToken bearer_token) (\<lambda>provided.
       if provided = configured then Inr bootstrap_admin else Inl InvalidToken)))"

subsection \<open>The chain\<close>

record chain_seen =
  seen_enabled :: bool
  seen_missing :: bool
  seen_invalid :: bool
  seen_unavailable :: "string option"

definition chain_error :: "chain_seen \<Rightarrow> auth_error" where
  "chain_error n =
     (if \<not> seen_enabled n then Disabled
      else case seen_unavailable n of
        Some message \<Rightarrow> Unavailable message
      | None \<Rightarrow> if seen_invalid n then InvalidToken else if seen_missing n then MissingToken else Disabled)"

definition note_error :: "auth_error \<Rightarrow> chain_seen \<Rightarrow> chain_seen" where
  "note_error e n =
     (case e of
        Disabled \<Rightarrow> n
      | MissingToken \<Rightarrow> n\<lparr>seen_enabled := True, seen_missing := True\<rparr>
      | InvalidToken \<Rightarrow> n\<lparr>seen_enabled := True, seen_invalid := True\<rparr>
      | Unavailable message \<Rightarrow> n\<lparr>seen_enabled := True, seen_unavailable :=
          (case seen_unavailable n of None \<Rightarrow> Some message | Some m \<Rightarrow> Some m)\<rparr>)"

fun chain_from :: "chain_seen \<Rightarrow> 's authorizer list \<Rightarrow> 's authorizer" where
  "chain_from n [] bearer_token = fail_io (chain_error n)"
| "chain_from n (a # as) bearer_token = (\<lambda>st.
     case a bearer_token st of
       (Inr identity, st) \<Rightarrow> (Inr identity, st)
     | (Inl e, st) \<Rightarrow> chain_from (note_error e n) as bearer_token st)"

definition chain_authorizer :: "'s authorizer list \<Rightarrow> 's authorizer" where
  "chain_authorizer authorizers = chain_from
     \<lparr>seen_enabled = False, seen_missing = False, seen_invalid = False, seen_unavailable = None\<rparr> authorizers"

subsection \<open>The configuration of OIDC\<close>

record oidc_provider_config =
  opc_issuer :: string
  opc_audience :: string
  opc_repository_claim :: "string option"
  opc_ref_claim :: "string option"
  opc_bound_claims :: "(string \<times> string list) list"
  opc_bound_subject :: "string list"

record oidc_config =
  oc_providers :: "(string \<times> oidc_provider_config) list" \<comment> \<open>by name\<close>
  oc_allow_insecure :: bool

text \<open>An absolute URL: its scheme and its host.\<close>

type_synonym url_parser = "string \<Rightarrow> string + (string \<times> string option)"

datatype oidc_config_error = OidcConfigRead string string | OidcConfigParse string string | OidcConfigInvalid string

definition provider_error :: "string \<Rightarrow> string \<Rightarrow> oidc_config_error + 'a" where
  "provider_error name what = Inl (OidcConfigInvalid (''provider '' @ quoted name @ what))"

fun check_claim_names :: "string \<Rightarrow> (string \<times> string option) list \<Rightarrow> oidc_config_error + unit" where
  "check_claim_names name [] = Inr ()"
| "check_claim_names name ((field_name, claim_name) # rest) =
     (case claim_name of
        Some c \<Rightarrow> if trim c = [] then provider_error name ('': '' @ field_name @ '' must not be empty'')
          else check_claim_names name rest
      | None \<Rightarrow> check_claim_names name rest)"

fun validate_providers ::
    "url_parser \<Rightarrow> bool \<Rightarrow> (string \<times> string) list \<Rightarrow> (string \<times> oidc_provider_config) list \<Rightarrow> oidc_config_error + unit" where
  "validate_providers url insecure issuers [] = Inr ()"
| "validate_providers url insecure issuers ((name, provider) # providers) =
     (if trim (opc_issuer provider) = [] then provider_error name '': missing issuer''
      else case url (opc_issuer provider) of
        Inl e \<Rightarrow> provider_error name ('': invalid issuer URL '' @ quoted (opc_issuer provider) @ '': '' @ e)
      | Inr (scheme, host) \<Rightarrow>
          if scheme = [] \<or> host = None
          then provider_error name ('': issuer URL '' @ quoted (opc_issuer provider) @ '' must be absolute with scheme and host'')
          else if scheme \<noteq> ''https'' \<and> \<not> insecure
          then provider_error name ('': issuer URL '' @ quoted (opc_issuer provider) @ '' must use HTTPS'')
          else if trim (opc_audience provider) = [] then provider_error name '': missing audience''
          else and_then (check_claim_names name [(''repository_claim'', opc_repository_claim provider),
              (''ref_claim'', opc_ref_claim provider)]) (\<lambda>_.
            case map_of issuers (opc_issuer provider) of
              Some existing \<Rightarrow> provider_error name ('': duplicate issuer already used by '' @ quoted existing)
            | None \<Rightarrow> validate_providers url insecure ((opc_issuer provider, name) # issuers) providers))"

definition oidc_config_validate :: "url_parser \<Rightarrow> oidc_config \<Rightarrow> oidc_config_error + unit" where
  "oidc_config_validate url c =
     (if oc_providers c = [] then Inl (OidcConfigInvalid ''no providers configured'')
      else validate_providers url (oc_allow_insecure c) [] (oc_providers c))"

text \<open>\<^verbatim>\<open>load_from_path\<close>, over what reading the file gives and the parser of \<^verbatim>\<open>serde_json\<close>.\<close>

definition load_oidc_config ::
    "url_parser \<Rightarrow> (string \<Rightarrow> string + oidc_config) \<Rightarrow> string \<Rightarrow> string + string \<Rightarrow> oidc_config_error + oidc_config" where
  "load_oidc_config url parse path_text contents =
     and_then (map_err (OidcConfigRead path_text) contents) (\<lambda>raw.
     and_then (map_err (OidcConfigParse path_text) (parse raw)) (\<lambda>config.
     and_then (oidc_config_validate url config) (\<lambda>_. Inr config)))"

definition provider_for_issuer :: "oidc_config \<Rightarrow> string \<Rightarrow> (string \<times> oidc_provider_config) option" where
  "provider_for_issuer c issuer = find (\<lambda>(name, provider). opc_issuer provider = issuer) (oc_providers c)"

subsection \<open>HTTP\<close>

datatype oidc_http_error = OidcRequest string string | OidcStatus string nat string

definition oidc_http_error_text :: "oidc_http_error \<Rightarrow> string" where
  "oidc_http_error_text e =
     (case e of
        OidcRequest url message \<Rightarrow> ''request failed for '' @ url @ '': '' @ message
      | OidcStatus url status body \<Rightarrow>
          ''unexpected status '' @ show_nat status @ '' for '' @ url @ '': '' @ body)"

type_synonym 's oidc_http_client = "string \<Rightarrow> ('s, oidc_http_error, string) io"

definition reqwest_fetch_text :: "'s http_client \<Rightarrow> 's oidc_http_client" where
  "reqwest_fetch_text client url = (\<lambda>st.
     case hc_get client url st of
       (Inl e, st) \<Rightarrow> (Inl (OidcRequest url e), st)
     | (Inr response, st) \<Rightarrow>
         (case hr_body response of
            Inl e \<Rightarrow> Inl (OidcRequest url e)
          | Inr body \<Rightarrow>
              if 200 \<le> hr_status response \<and> hr_status response < 300 then Inr (hc_text client body)
              else Inl (OidcStatus url (hr_status response) (hc_text client body)), st))"

definition static_fetch_text :: "(string \<Rightarrow> string option) \<Rightarrow> 's oidc_http_client" where
  "static_fetch_text responses url = pure_io (ok_or (OidcStatus url 404 ''not found'') (responses url))"

definition map_http_error :: "oidc_http_error \<Rightarrow> auth_error" where
  "map_http_error e = Unavailable (oidc_http_error_text e)"

subsection \<open>OIDC tokens\<close>

record discovery_document =
  dd_issuer :: string
  dd_jwks_uri :: string

text \<open>A key set is a list of keys \<open>'j\<close>; what the crates do with tokens and documents. \<open>jwt_decode\<close> is
  \<^verbatim>\<open>jsonwebtoken::decode\<close> with RS256 for a key, an audience and an issuer, with the expiry and the
  not-before time checked at the moment of the call.\<close>

record 'j jwt_library =
  jwt_b64_no_pad :: "string \<Rightarrow> bytes option"
  jwt_b64 :: "string \<Rightarrow> bytes option"
  jwt_json :: "bytes \<Rightarrow> json option"
  jwt_header :: "string \<Rightarrow> string option option" \<comment> \<open>\<^verbatim>\<open>decode_header(token)\<close>: its \<^verbatim>\<open>kid\<close>\<close>
  jwt_discovery :: "string \<Rightarrow> string + discovery_document"
  jwt_keys :: "string \<Rightarrow> string + 'j list"
  jwk_key_id :: "'j \<Rightarrow> string option"
  jwk_usable :: "'j \<Rightarrow> bool" \<comment> \<open>\<^verbatim>\<open>DecodingKey::from_jwk\<close>\<close>
  jwt_decode :: "'j \<Rightarrow> string \<Rightarrow> string \<Rightarrow> string \<Rightarrow> json option"

record 'j provider_state =
  pst_discovery :: discovery_document
  pst_jwks :: "'j list"

text \<open>The cache of provider states by name is part of the state of the authorizer.\<close>

type_synonym 'j oidc_cache = "string \<Rightarrow> 'j provider_state option"

definition on_http :: "('s, 'e, 'a) io \<Rightarrow> ('c \<times> 's, 'e, 'a) io" where
  "on_http m = (\<lambda>(cache, st). case m st of (r, st) \<Rightarrow> (r, cache, st))"

definition fetch_discovery ::
    "'j jwt_library \<Rightarrow> 's oidc_http_client \<Rightarrow> oidc_provider_config \<Rightarrow> ('s, auth_error, discovery_document) io" where
  "fetch_discovery jl http provider = (\<lambda>st.
     case http (trim_end_char (CHR ''/'') (opc_issuer provider) @ ''/.well-known/openid-configuration'') st of
       (body, st) \<Rightarrow>
         (and_then (map_err map_http_error body) (\<lambda>body.
          and_then (map_err (\<lambda>e. Unavailable (''invalid discovery document: '' @ e)) (jwt_discovery jl body)) (\<lambda>discovery.
          if dd_issuer discovery \<noteq> opc_issuer provider then Inl InvalidToken else Inr discovery)), st))"

definition fetch_jwks :: "'j jwt_library \<Rightarrow> 's oidc_http_client \<Rightarrow> string \<Rightarrow> ('s, auth_error, 'j list) io" where
  "fetch_jwks jl http jwks_uri = (\<lambda>st.
     case http jwks_uri st of
       (body, st) \<Rightarrow>
         (and_then (map_err map_http_error body) (\<lambda>body.
          map_err (\<lambda>e. Unavailable (''invalid JWKS document: '' @ e)) (jwt_keys jl body)), st))"

definition refresh_provider_state ::
    "'j jwt_library \<Rightarrow> 's oidc_http_client \<Rightarrow> string \<times> oidc_provider_config \<Rightarrow>
     ('j oidc_cache \<times> 's, auth_error, 'j provider_state) io" where
  "refresh_provider_state jl http provider =
     bind_io (on_http (fetch_discovery jl http (snd provider))) (\<lambda>discovery.
     bind_io (on_http (fetch_jwks jl http (dd_jwks_uri discovery))) (\<lambda>jwks.
     let state = \<lparr>pst_discovery = discovery, pst_jwks = jwks\<rparr> in
     (\<lambda>(cache, st). (Inr state, cache(fst provider \<mapsto> state), st))))"

definition cached_or_fetch_provider_state ::
    "'j jwt_library \<Rightarrow> 's oidc_http_client \<Rightarrow> string \<times> oidc_provider_config \<Rightarrow>
     ('j oidc_cache \<times> 's, auth_error, 'j provider_state) io" where
  "cached_or_fetch_provider_state jl http provider = (\<lambda>(cache, st).
     case cache (fst provider) of
       Some state \<Rightarrow> (Inr state, cache, st)
     | None \<Rightarrow> refresh_provider_state jl http provider (cache, st))"

definition select_jwk :: "'j jwt_library \<Rightarrow> 'j list \<Rightarrow> string \<Rightarrow> 'j option" where
  "select_jwk jl jwks kid = find (\<lambda>jwk. jwk_key_id jl jwk = Some kid) jwks"

text \<open>The second part of the token; \<^verbatim>\<open>split('.')\<close> always has a first.\<close>

definition decode_claims_unverified :: "'j jwt_library \<Rightarrow> string \<Rightarrow> auth_error + claims" where
  "decode_claims_unverified jl token =
     (case split_char (CHR ''.'') token of
        _ # claims # _ # _ \<Rightarrow>
          and_then (ok_or InvalidToken (case jwt_b64_no_pad jl claims of Some b \<Rightarrow> Some b | None \<Rightarrow> jwt_b64 jl claims)) (\<lambda>decoded.
          and_then (ok_or InvalidToken (jwt_json jl decoded)) (\<lambda>v. ok_or InvalidToken (as_object v)))
      | _ \<Rightarrow> Inl InvalidToken)"

definition unwrap_or :: "'a option \<Rightarrow> 'a \<Rightarrow> 'a" where
  "unwrap_or x d = (case x of Some y \<Rightarrow> y | None \<Rightarrow> d)"

text \<open>The state of the provider and the key of the token; the keys are fetched again when the key is not
  among those in the cache.\<close>

definition find_key ::
    "'j jwt_library \<Rightarrow> 's oidc_http_client \<Rightarrow> string \<times> oidc_provider_config \<Rightarrow> string \<Rightarrow>
     ('j oidc_cache \<times> 's, auth_error, 'j provider_state \<times> 'j) io" where
  "find_key jl http provider kid =
     bind_io (cached_or_fetch_provider_state jl http provider) (\<lambda>state.
     case select_jwk jl (pst_jwks state) kid of
       Some jwk \<Rightarrow> return_io (state, jwk)
     | None \<Rightarrow>
         bind_io (refresh_provider_state jl http provider) (\<lambda>state.
         bind_io (pure_io (ok_or InvalidToken (select_jwk jl (pst_jwks state) kid))) (\<lambda>jwk. return_io (state, jwk))))"

definition verified_identity ::
    "platform \<Rightarrow> 'j jwt_library \<Rightarrow> string \<times> oidc_provider_config \<Rightarrow> 'j provider_state \<Rightarrow> 'j \<Rightarrow> string \<Rightarrow>
     auth_error + authenticated_identity" where
  "verified_identity pf jl provider state jwk token =
     (let config = snd provider; issuer = dd_issuer (pst_discovery state) in
      if \<not> jwk_usable jl jwk then Inl InvalidToken
      else and_then (ok_or InvalidToken (jwt_decode jl jwk (opc_audience config) issuer token)) (\<lambda>verified.
      and_then (ok_or InvalidToken (as_object verified)) (\<lambda>claims.
      and_then (map_err (\<lambda>_. InvalidToken) (validate_bound_subject pf claims (opc_bound_subject config))) (\<lambda>_.
      and_then (map_err (\<lambda>_. InvalidToken) (validate_bound_claims pf claims (opc_bound_claims config))) (\<lambda>_.
      and_then (ok_or InvalidToken (get_string_claim claims ''sub'')) (\<lambda>subject.
      Inr (identity_oidc (fst provider) subject issuer
        (get_string_claim claims (unwrap_or (opc_repository_claim config) ''repository''))
        (get_string_claim claims (unwrap_or (opc_ref_claim config) ''ref'')) claims)))))))"

definition oidc_authorizer ::
    "platform \<Rightarrow> 'j jwt_library \<Rightarrow> 's oidc_http_client \<Rightarrow> oidc_config \<Rightarrow> ('j oidc_cache \<times> 's) authorizer" where
  "oidc_authorizer pf jl http config bearer_token =
     bind_io (pure_io (ok_or MissingToken bearer_token)) (\<lambda>token.
     bind_io (pure_io (decode_claims_unverified jl token)) (\<lambda>unverified_claims.
     bind_io (pure_io (ok_or InvalidToken (get_string_claim unverified_claims ''iss''))) (\<lambda>issuer.
     bind_io (pure_io (ok_or InvalidToken (provider_for_issuer config issuer))) (\<lambda>provider.
     bind_io (pure_io (ok_or InvalidToken (jwt_header jl token))) (\<lambda>header.
     bind_io (pure_io (ok_or InvalidToken header)) (\<lambda>kid.
     bind_io (find_key jl http provider kid) (\<lambda>(state, jwk).
     pure_io (verified_identity pf jl provider state jwk token))))))))"

subsection \<open>The contract of an authorizer\<close>

text \<open>An authorizer keeps its invariant and what \<open>kept\<close> observes of the state; the identity it returns is
  one that the token vouches for.\<close>

locale authorizer =
  fixes auth :: "'s authorizer" and genuine :: "'c \<Rightarrow> string \<Rightarrow> authenticated_identity \<Rightarrow> bool"
    and inv :: "'s \<Rightarrow> bool" and kept :: "'s \<Rightarrow> 'c"
  assumes authorized: "inv s \<Longrightarrow> auth t s = (r, s') \<Longrightarrow> inv s' \<and> kept s' = kept s \<and>
    (\<forall>x. r = Inr x \<longrightarrow> (\<exists>tok. t = Some tok \<and> genuine (kept s) tok x))"
begin

lemma no_token: "inv s \<Longrightarrow> fst (auth None s) \<noteq> Inr x"
  using authorized[of s None "fst (auth None s)" "snd (auth None s)"] by auto

end

definition static_genuine :: "string option \<Rightarrow> 'c \<Rightarrow> string \<Rightarrow> authenticated_identity \<Rightarrow> bool" where
  "static_genuine configured_token c tok x \<longleftrightarrow> configured_token = Some tok \<and> x = bootstrap_admin"

interpretation static_token: authorizer "static_token_authorizer configured_token" "static_genuine configured_token"
  "\<lambda>s. True" kept for configured_token kept
  by unfold_locales (auto simp: static_token_authorizer_def static_genuine_def pure_io_def ok_or.simps split: if_splits)

lemma authorizer_mono:
  assumes "authorizer a g i k" "\<And>c tok x. g c tok x \<Longrightarrow> g' c tok x"
  shows "authorizer a g' i k"
proof (rule authorizer.intro)
  fix s t r s' assume "i s" "a t s = (r, s')"
  note l = authorizer.authorized[OF assms(1) this]
  have "\<exists>tok. t = Some tok \<and> g' (k s) tok x" if "r = Inr x" for x
    using l assms(2)[of "k s" _ x] that by auto
  then show "i s' \<and> k s' = k s \<and> (\<forall>x. r = Inr x \<longrightarrow> (\<exists>tok. t = Some tok \<and> g' (k s) tok x))" using l by simp
qed

lemma chain_from_sound:
  assumes "\<forall>a\<in>set as. authorizer a g i k" "i s" "chain_from n as t s = (r, s')"
  shows "i s' \<and> k s' = k s \<and> (\<forall>x. r = Inr x \<longrightarrow> (\<exists>tok. t = Some tok \<and> g (k s) tok x))"
  using assms
proof (induction as arbitrary: n s)
  case (Cons a as)
  obtain r1 s1 where a: "a t s = (r1, s1)" by (cases "a t s")
  have "authorizer a g i k" using Cons.prems(1) by simp
  note l = authorizer.authorized[OF this Cons.prems(2) a]
  show ?case
  proof (cases r1)
    case (Inl e)
    then have "chain_from (note_error e n) as t s1 = (r, s')" using Cons.prems(3) a by simp
    from Cons.IH[OF _ _ this] show ?thesis using Cons.prems(1) l by simp
  next
    case (Inr x)
    then show ?thesis using Cons.prems(3) a l by simp
  qed
qed (auto simp: fail_io_def)

lemma chain_sound: "\<forall>a\<in>set as. authorizer a g i k \<Longrightarrow> authorizer (chain_authorizer as) g i k"
  unfolding chain_authorizer_def by (rule authorizer.intro) (rule chain_from_sound)

text \<open>What the chain answers, from the errors of its authorizers in order: it is disabled when all are;
  otherwise the first unavailability counts, then an invalid token, then a missing one.\<close>

definition chain_verdict :: "auth_error list \<Rightarrow> auth_error" where
  "chain_verdict es =
     (if \<forall>e\<in>set es. e = Disabled then Disabled
      else case List.map_filter (\<lambda>e. case e of Unavailable m \<Rightarrow> Some m | _ \<Rightarrow> None) es of
        m # _ \<Rightarrow> Unavailable m
      | [] \<Rightarrow> if InvalidToken \<in> set es then InvalidToken else MissingToken)"

text \<open>The runs of the authorizers one after the other, up to the first success.\<close>

fun run_chain :: "'s authorizer list \<Rightarrow> string option \<Rightarrow> 's \<Rightarrow> auth_error list \<times> authenticated_identity option \<times> 's" where
  "run_chain [] t s = ([], None, s)"
| "run_chain (a # as) t s =
     (case a t s of
        (Inr x, s) \<Rightarrow> ([], Some x, s)
      | (Inl e, s) \<Rightarrow> (case run_chain as t s of (es, x, s) \<Rightarrow> (e # es, x, s)))"

definition seen_of :: "auth_error list \<Rightarrow> chain_seen" where
  "seen_of es = \<lparr>seen_enabled = (\<exists>e\<in>set es. e \<noteq> Disabled), seen_missing = (MissingToken \<in> set es),
     seen_invalid = (InvalidToken \<in> set es),
     seen_unavailable = (case List.map_filter (\<lambda>e. case e of Unavailable m \<Rightarrow> Some m | _ \<Rightarrow> None) es of
        [] \<Rightarrow> None | m # _ \<Rightarrow> Some m)\<rparr>"

lemma note_seen: "note_error e (seen_of es) = seen_of (es @ [e])"
  by (cases e; cases "List.map_filter (\<lambda>e. case e of Unavailable m \<Rightarrow> Some m | _ \<Rightarrow> None) es")
    (auto simp: note_error_def seen_of_def List.map_filter_def)

lemma chain_error_seen: "chain_error (seen_of es) = chain_verdict es"
proof (cases "\<forall>e\<in>set es. e = Disabled")
  case False
  then obtain e where e: "e \<in> set es" "e \<noteq> Disabled" by blast
  show ?thesis
  proof (cases "List.map_filter (\<lambda>e. case e of Unavailable m \<Rightarrow> Some m | _ \<Rightarrow> None) es")
    case Nil
    then have "\<forall>m. Unavailable m \<notin> set es" by (force simp: List.map_filter_def filter_empty_conv)
    then have "e \<in> {MissingToken, InvalidToken}" using e by (cases e) auto
    then show ?thesis using Nil e False by (auto simp: chain_error_def seen_of_def chain_verdict_def)
  qed (use e False in \<open>auto simp: chain_error_def seen_of_def chain_verdict_def\<close>)
qed (auto simp: chain_error_def seen_of_def chain_verdict_def)

lemma chain_from_run:
  "chain_from (seen_of fs) as t s = (case run_chain as t s of (es, x, s) \<Rightarrow>
     (case x of Some y \<Rightarrow> Inr y | None \<Rightarrow> Inl (chain_verdict (fs @ es)), s))"
proof (induction as arbitrary: fs s)
  case (Cons a as)
  obtain r1 s1 where a: "a t s = (r1, s1)" by (cases "a t s")
  obtain es x s2 where run: "run_chain as t s1 = (es, x, s2)" by (cases "run_chain as t s1") auto
  show ?case
  proof (cases r1)
    case (Inl e)
    then show ?thesis using Cons.IH[of "fs @ [e]" s1] a run by (cases x) (simp_all add: note_seen)
  qed (simp add: a)
qed (simp add: fail_io_def chain_error_seen)

text \<open>C38 (the chain). The chain answers with the first identity that one of its authorizers returns; when
  none does, with the verdict over their errors, whatever their order among the other kinds.\<close>

theorem chain_is_first_success:
  "chain_authorizer as t s = (case run_chain as t s of (es, x, s) \<Rightarrow>
     (case x of Some y \<Rightarrow> Inr y | None \<Rightarrow> Inl (chain_verdict es), s))"
proof -
  have "\<lparr>seen_enabled = False, seen_missing = False, seen_invalid = False, seen_unavailable = None\<rparr> = seen_of []"
    by (simp add: seen_of_def List.map_filter_def)
  then show ?thesis unfolding chain_authorizer_def using chain_from_run[of "[]" as t s, unfolded append_Nil] by (rule ssubst)
qed

subsection \<open>What an OIDC identity rests on\<close>

text \<open>A document that the client can obtain at a URL, and the state of a provider that it served: a discovery
  document of the configured issuer, and the key set at the address this document names.\<close>

definition answers :: "'s oidc_http_client \<Rightarrow> string \<Rightarrow> string \<Rightarrow> bool" where
  "answers http url body \<longleftrightarrow> (\<exists>st. fst (http url st) = Inr body)"

definition discovery_url :: "oidc_provider_config \<Rightarrow> string" where
  "discovery_url provider = trim_end_char (CHR ''/'') (opc_issuer provider) @ ''/.well-known/openid-configuration''"

definition provider_trusted ::
    "'j jwt_library \<Rightarrow> 's oidc_http_client \<Rightarrow> oidc_provider_config \<Rightarrow> 'j provider_state \<Rightarrow> bool" where
  "provider_trusted jl http provider state \<longleftrightarrow>
     (\<exists>body. answers http (discovery_url provider) body \<and> jwt_discovery jl body = Inr (pst_discovery state)) \<and>
     dd_issuer (pst_discovery state) = opc_issuer provider \<and>
     (\<exists>body. answers http (dd_jwks_uri (pst_discovery state)) body \<and> jwt_keys jl body = Inr (pst_jwks state))"

definition cache_ok :: "'j jwt_library \<Rightarrow> 's oidc_http_client \<Rightarrow> oidc_config \<Rightarrow> 'j oidc_cache \<Rightarrow> bool" where
  "cache_ok jl http config cache \<longleftrightarrow>
     (\<forall>(name, provider) \<in> set (oc_providers config). \<forall>state. cache name = Some state \<longrightarrow> provider_trusted jl http provider state)"

text \<open>A claim is bound when one of its values matches one of the patterns.\<close>

definition bound_claim :: "platform \<Rightarrow> claims \<Rightarrow> string \<times> string list \<Rightarrow> bool" where
  "bound_claim pf claims = (\<lambda>(name, patterns). \<exists>v. get_claim claims name = Some v \<and>
     (\<exists>value\<in>set (normalize_to_string_vec v). \<exists>pattern\<in>set patterns. wild_matches pf pattern value))"

lemma validate_bound_claims_iff:
  "validate_bound_claims pf claims bound = Inr () \<longleftrightarrow> (\<forall>b\<in>set bound. bound_claim pf claims b)"
proof (induction bound)
  case (Cons b bound)
  obtain name patterns where b: "b = (name, patterns)" by (cases b)
  show ?case
  proof (cases "get_claim claims name")
    case (Some v)
    then show ?thesis using Cons.IH b by (auto simp: bound_claim_def list_ex_iff Let_def)
  qed (simp add: b bound_claim_def)
qed simp

lemma validate_bound_subject_iff:
  "validate_bound_subject pf claims bound = Inr () \<longleftrightarrow>
     (bound = [] \<or> (\<exists>subject. get_string_claim claims ''sub'' = Some subject \<and>
        (\<exists>pattern\<in>set bound. wild_matches pf pattern subject)))"
  by (auto simp: validate_bound_subject_def list_ex_iff)

definition oidc_genuine ::
    "platform \<Rightarrow> 'j jwt_library \<Rightarrow> 's oidc_http_client \<Rightarrow> oidc_config \<Rightarrow> string \<Rightarrow> authenticated_identity \<Rightarrow> bool" where
  "oidc_genuine pf jl http config token x \<longleftrightarrow>
     (\<exists>name provider state jwk claims subject.
        (name, provider) \<in> set (oc_providers config) \<and> provider_trusted jl http provider state \<and>
        jwk \<in> set (pst_jwks state) \<and> jwt_header jl token = Some (jwk_key_id jl jwk) \<and>
        jwt_decode jl jwk (opc_audience provider) (opc_issuer provider) token = Some (JObject claims) \<and>
        validate_bound_subject pf claims (opc_bound_subject provider) = Inr () \<and>
        (\<forall>b\<in>set (opc_bound_claims provider). bound_claim pf claims b) \<and>
        get_string_claim claims ''sub'' = Some subject \<and>
        x = identity_oidc name subject (opc_issuer provider)
          (get_string_claim claims (unwrap_or (opc_repository_claim provider) ''repository''))
          (get_string_claim claims (unwrap_or (opc_ref_claim provider) ''ref'')) claims)"

lemma refresh_trusted:
  assumes "refresh_provider_state jl http (name, provider) (cache, st) = (r, cache', st')"
  shows "(\<exists>e. r = Inl e \<and> cache' = cache) \<or>
    (\<exists>state. r = Inr state \<and> cache' = cache(name \<mapsto> state) \<and> provider_trusted jl http provider state)"
proof -
  obtain d st1 where d: "fetch_discovery jl http provider st = (d, st1)" by (cases "fetch_discovery jl http provider st")
  show ?thesis
  proof (cases d)
    case (Inl e)
    then show ?thesis using assms d by (auto simp: refresh_provider_state_def bind_io_def on_http_def)
  next
    case (Inr disc)
    obtain k st2 where k: "fetch_jwks jl http (dd_jwks_uri disc) st1 = (k, st2)"
      by (cases "fetch_jwks jl http (dd_jwks_uri disc) st1")
    show ?thesis
    proof (cases k)
      case (Inl e)
      then show ?thesis using assms d Inr k by (auto simp: refresh_provider_state_def bind_io_def on_http_def)
    next
      case (Inr jwks)
      have "\<exists>body. answers http (discovery_url provider) body \<and> jwt_discovery jl body = Inr disc"
          "dd_issuer disc = opc_issuer provider"
        using d \<open>d = Inr disc\<close>
        by (auto simp: fetch_discovery_def answers_def discovery_url_def split: prod.splits if_splits)
          (metis fst_conv)
      moreover have "\<exists>body. answers http (dd_jwks_uri disc) body \<and> jwt_keys jl body = Inr jwks"
        using k Inr by (auto simp: fetch_jwks_def answers_def split: prod.splits) (metis fst_conv)
      ultimately have "provider_trusted jl http provider \<lparr>pst_discovery = disc, pst_jwks = jwks\<rparr>"
        by (simp add: provider_trusted_def)
      then show ?thesis using assms d \<open>d = Inr disc\<close> k Inr
        by (auto simp: refresh_provider_state_def bind_io_def on_http_def Let_def)
    qed
  qed
qed

lemma refresh_kept:
  assumes "\<And>url. keeps (\<lambda>st. kept st = c) (http url)"
  shows "keeps (\<lambda>(cache, st). kept st = c) (refresh_provider_state jl http provider)"
proof -
  have http: "keeps (\<lambda>(cache, st). kept st = c) (on_http m)" if "keeps (\<lambda>st. kept st = c) m"
    for m :: "('a, 'e, 'x) io"
    using that by (auto simp: keeps_def on_http_def split: prod.splits)
  have f: "keeps (\<lambda>st. kept st = c) (fetch_discovery jl http p)" "keeps (\<lambda>st. kept st = c) (fetch_jwks jl http u)" for p u
    using assms by (auto simp: keeps_def fetch_discovery_def fetch_jwks_def split: prod.splits) (metis snd_conv)+
  show ?thesis unfolding refresh_provider_state_def Let_def
    by (intro inv_intros http f) (simp add: keeps_def)
qed

lemma cache_insert:
  assumes "cache_ok jl http config cache" "distinct (map fst (oc_providers config))"
    "(name, provider) \<in> set (oc_providers config)" "provider_trusted jl http provider state"
  shows "cache_ok jl http config (cache(name \<mapsto> state))"
  unfolding cache_ok_def
proof (safe)
  fix n p s assume n: "(n, p) \<in> set (oc_providers config)" "(cache(name \<mapsto> state)) n = Some s"
  show "provider_trusted jl http p s"
  proof (cases "n = name")
    case True
    then have "p = provider" using assms(2,3) n(1) by (metis eq_key_imp_eq_value)
    then show ?thesis using n(2) True assms(4) by simp
  next
    case False
    then show ?thesis using assms(1) n by (auto simp: cache_ok_def)
  qed
qed

lemma find_key_trusted:
  assumes "find_key jl http (name, provider) kid (cache, st) = (r, cache', st')" "cache_ok jl http config cache"
    "distinct (map fst (oc_providers config))" "(name, provider) \<in> set (oc_providers config)"
  shows "cache_ok jl http config cache' \<and>
    (\<forall>state jwk. r = Inr (state, jwk) \<longrightarrow>
      provider_trusted jl http provider state \<and> jwk \<in> set (pst_jwks state) \<and> jwk_key_id jl jwk = Some kid)"
proof -
  have sel: "jwk \<in> set ks \<and> jwk_key_id jl jwk = Some kid" if "select_jwk jl ks kid = Some jwk" for ks jwk
    using that unfolding select_jwk_def by (metis (mono_tags, lifting) find_Some_iff nth_mem)
  have refresh: "cache_ok jl http config c2 \<and> (\<forall>state. q = Inr state \<longrightarrow> provider_trusted jl http provider state)"
    if "refresh_provider_state jl http (name, provider) (c1, t1) = (q, c2, t2)" "cache_ok jl http config c1" for c1 t1 q c2 t2
    using refresh_trusted[OF that(1)] that(2) cache_insert[OF that(2) assms(3,4)] by auto
  obtain q c1 t1 where c: "cached_or_fetch_provider_state jl http (name, provider) (cache, st) = (q, c1, t1)"
    by (cases "cached_or_fetch_provider_state jl http (name, provider) (cache, st)") auto
  have q: "cache_ok jl http config c1" "q = Inr state \<Longrightarrow> provider_trusted jl http provider state" for state
    using c refresh[OF _ assms(2)] assms(2,4)
    by (auto simp: cached_or_fetch_provider_state_def cache_ok_def split: option.splits)
  show ?thesis
  proof (cases q)
    case (Inl e)
    then show ?thesis using assms(1) c q(1) by (auto simp: find_key_def bind_io_def)
  next
    case (Inr state)
    show ?thesis
    proof (cases "select_jwk jl (pst_jwks state) kid")
      case (Some jwk)
      then show ?thesis using assms(1) c q Inr sel by (auto simp: find_key_def bind_io_def return_io_def)
    next
      case None
      obtain q2 c2 t2 where r2: "refresh_provider_state jl http (name, provider) (c1, t1) = (q2, c2, t2)"
        by (cases "refresh_provider_state jl http (name, provider) (c1, t1)") auto
      note k = refresh[OF r2 q(1)]
      show ?thesis
      proof (cases q2)
        case (Inl e)
        then show ?thesis using assms(1) c Inr None r2 k by (auto simp: find_key_def bind_io_def)
      next
        case (Inr state2)
        then show ?thesis using assms(1) c \<open>q = Inr state\<close> None r2 k sel
          by (cases "select_jwk jl (pst_jwks state2) kid")
            (auto simp: find_key_def bind_io_def return_io_def pure_io_def)
      qed
    qed
  qed
qed

lemma find_key_kept:
  assumes "\<And>url. keeps (\<lambda>st. kept st = c) (http url)"
  shows "keeps (\<lambda>(cache, st). kept st = c) (find_key jl http provider kid)"
proof -
  note r = refresh_kept[of kept c, OF assms]
  have "keeps (\<lambda>(cache, st). kept st = c) (cached_or_fetch_provider_state jl http provider)"
    using r[where provider = provider and jl = jl] by (auto simp: keeps_def cached_or_fetch_provider_state_def split: option.splits)
  then show ?thesis unfolding find_key_def
    by (intro keeps_bind) (auto intro!: inv_intros r split: option.splits)
qed

lemma verified_genuine:
  assumes "verified_identity pf jl (name, provider) state jwk token = Inr x" "provider_trusted jl http provider state"
    "jwk \<in> set (pst_jwks state)" "jwt_header jl token = Some (jwk_key_id jl jwk)"
    "(name, provider) \<in> set (oc_providers config)"
  shows "oidc_genuine pf jl http config token x"
proof -
  obtain v claims subject where v: "jwt_decode jl jwk (opc_audience provider) (opc_issuer provider) token = Some v"
    "as_object v = Some claims" "validate_bound_subject pf claims (opc_bound_subject provider) = Inr ()"
    "validate_bound_claims pf claims (opc_bound_claims provider) = Inr ()"
    "get_string_claim claims ''sub'' = Some subject"
    "x = identity_oidc name subject (opc_issuer provider)
      (get_string_claim claims (unwrap_or (opc_repository_claim provider) ''repository''))
      (get_string_claim claims (unwrap_or (opc_ref_claim provider) ''ref'')) claims"
    using assms(1,2) by (auto simp: verified_identity_def provider_trusted_def Let_def split: if_splits)
  have "v = JObject claims" using v(2) by (cases v) auto
  then show ?thesis unfolding oidc_genuine_def using assms(2-5) v validate_bound_claims_iff[of pf claims] by blast
qed

lemma oidc_authorizer_ok:
  assumes "oidc_authorizer pf jl http config t (cache, st) = (r, cache', st')" "cache_ok jl http config cache"
    "distinct (map fst (oc_providers config))"
  shows "cache_ok jl http config cache' \<and>
    (\<forall>x. r = Inr x \<longrightarrow> (\<exists>tok. t = Some tok \<and> oidc_genuine pf jl http config tok x))"
proof -
  have step: "(\<exists>e. r = Inl e \<and> s' = s) \<or> (\<exists>y. q = Inr y \<and> f y s = (r, s'))" if "bind_io (pure_io q) f s = (r, s')"
    for q :: "'e + 'x" and f and s s' :: 's and r :: "'e + 'y"
    using that by (auto simp: bind_io_def pure_io_def split: sum.splits)
  show ?thesis
  proof (cases "cache' = cache \<and> (\<exists>e. r = Inl e)")
    case True
    then show ?thesis using assms(2) by auto
  next
    case False
    obtain tok uc iss np header kid where a: "t = Some tok" "decode_claims_unverified jl tok = Inr uc"
        "get_string_claim uc ''iss'' = Some iss" "provider_for_issuer config iss = Some np"
        "jwt_header jl tok = Some header" "header = Some kid"
        "bind_io (find_key jl http np kid) (\<lambda>(state, jwk). pure_io (verified_identity pf jl np state jwk tok)) (cache, st)
          = (r, cache', st')"
      using assms(1) False unfolding oidc_authorizer_def
      by (auto dest!: step)
    obtain name provider where np: "np = (name, provider)" by (cases np)
    have mem: "(name, provider) \<in> set (oc_providers config)"
      using a(4) np unfolding provider_for_issuer_def by (metis find_Some_iff nth_mem)
    obtain q c1 t1 where k: "find_key jl http np kid (cache, st) = (q, c1, t1)"
      by (cases "find_key jl http np kid (cache, st)") auto
    note f = find_key_trusted[OF k[unfolded np] assms(2,3) mem]
    show ?thesis
    proof (cases q)
      case (Inl e)
      then show ?thesis using a(7) k f by (auto simp: bind_io_def)
    next
      case (Inr sj)
      obtain state jwk where sj: "sj = (state, jwk)" by (cases sj)
      have "r = verified_identity pf jl (name, provider) state jwk tok" "cache' = c1"
        using a(7) k Inr sj np by (auto simp: bind_io_def pure_io_def)
      then show ?thesis using f Inr sj a(1,5,6) mem verified_genuine[of pf jl name provider state jwk tok _ http config]
        by auto
    qed
  qed
qed

lemma oidc_authorizer_kept:
  assumes "\<And>url. keeps (\<lambda>st. kept st = c) (http url)"
  shows "keeps (\<lambda>(cache, st). kept st = c) (oidc_authorizer pf jl http config t)"
  unfolding oidc_authorizer_def by (intro inv_intros find_key_kept assms) (auto intro!: inv_intros)

lemma oidc_is_authorizer:
  assumes "distinct (map fst (oc_providers config))" "\<And>url c. keeps (\<lambda>st. kept st = c) (http url)"
  shows "authorizer (oidc_authorizer pf jl http config) (\<lambda>_. oidc_genuine pf jl http config)
    (\<lambda>s. cache_ok jl http config (fst s)) (\<lambda>s. kept (snd s))"
proof (rule authorizer.intro)
  fix s t r s'
  assume i: "cache_ok jl http config (fst s)" and a: "oidc_authorizer pf jl http config t s = (r, s')"
  obtain cache st cache' st' where s: "s = (cache, st)" "s' = (cache', st')" by (cases s, cases s')
  show "cache_ok jl http config (fst s') \<and> kept (snd s') = kept (snd s) \<and>
      (\<forall>x. r = Inr x \<longrightarrow> (\<exists>tok. t = Some tok \<and> oidc_genuine pf jl http config tok x))"
    using oidc_authorizer_ok[of pf jl http config t cache st r cache' st'] assms(1) a i s
      keepsD[OF oidc_authorizer_kept[of kept "kept st" http, OF assms(2)], of "(cache, st)" pf jl config t] by auto
qed

text \<open>The caches of a running server: empty at the start, then changed by the authorizer alone, whatever the
  tokens and the answers of the network.\<close>

inductive oidc_reached :: "platform \<Rightarrow> 'j jwt_library \<Rightarrow> 's oidc_http_client \<Rightarrow> oidc_config \<Rightarrow> 'j oidc_cache \<Rightarrow> bool"
  for pf jl http config where
  start: "oidc_reached pf jl http config (\<lambda>_. None)"
| step: "oidc_reached pf jl http config cache \<Longrightarrow>
    oidc_authorizer pf jl http config t (cache, st) = (r, cache', st') \<Longrightarrow> oidc_reached pf jl http config cache'"

lemma reached_cache_ok:
  assumes "oidc_reached pf jl http config cache" "distinct (map fst (oc_providers config))"
  shows "cache_ok jl http config cache"
  using assms(1)
proof induction
  case start
  show ?case by (simp add: cache_ok_def)
next
  case (step cache t st r cache' st')
  from oidc_authorizer_ok[OF step.hyps(2) step.IH assms(2)] show ?case by simp
qed

text \<open>C37 (OIDC). Whatever tokens were presented before, an identity that the OIDC authorizer returns is genuine:
  the token verifies under a key of the key set that the discovery document of a configured issuer names, for
  the configured audience and issuer, its verified claims satisfy the bound subject and every bound claim of
  this provider, and the identity carries the name of the provider and those claims.\<close>

theorem oidc_identity_genuine:
  assumes "distinct (map fst (oc_providers config))" "oidc_reached pf jl http config cache"
    "oidc_authorizer pf jl http config t (cache, st) = (Inr x, cache', st')"
  shows "\<exists>tok. t = Some tok \<and> oidc_genuine pf jl http config tok x"
  using oidc_authorizer_ok[OF assms(3) reached_cache_ok[OF assms(2,1)] assms(1)] by simp

definition demo_claims :: claims where
  "demo_claims = [(''sub'', JString ''repo:o/r''), (''repository'', JString ''o/r''), (''ref'', JString ''main'')]"

definition demo_provider :: oidc_provider_config where
  "demo_provider = \<lparr>opc_issuer = ''i'', opc_audience = ''a'', opc_repository_claim = None, opc_ref_claim = None,
     opc_bound_claims = [(''repository'', [''o/*''])], opc_bound_subject = [''repo:*'']\<rparr>"

definition demo_oidc :: oidc_config where
  "demo_oidc = \<lparr>oc_providers = [(''ci'', demo_provider)], oc_allow_insecure = False\<rparr>"

text \<open>A key is its name; the one token \<open>h.c.s\<close> verifies.\<close>

definition demo_jwt :: "string jwt_library" where
  "demo_jwt = \<lparr>jwt_b64_no_pad = (\<lambda>_. Some []), jwt_b64 = (\<lambda>_. None),
     jwt_json = (\<lambda>_. Some (JObject [(''iss'', JString ''i'')])),
     jwt_header = (\<lambda>_. Some (Some ''k'')),
     jwt_discovery = (\<lambda>_. Inr \<lparr>dd_issuer = ''i'', dd_jwks_uri = ''keys''\<rparr>), jwt_keys = (\<lambda>_. Inr [''k'']),
     jwk_key_id = Some, jwk_usable = (\<lambda>_. True),
     jwt_decode = (\<lambda>key aud iss token. if aud = ''a'' \<and> iss = ''i'' \<and> token = ''h.c.s'' then Some (JObject demo_claims) else None)\<rparr>"

definition demo_answers :: "string \<Rightarrow> string option" where
  "demo_answers url = (if url \<in> {''i/.well-known/openid-configuration'', ''keys''} then Some [] else None)"

definition demo_identity :: authenticated_identity where
  "demo_identity = identity_oidc ''ci'' ''repo:o/r'' ''i'' (Some ''o/r'') (Some ''main'') demo_claims"

definition demo_state :: "string provider_state" where
  "demo_state = \<lparr>pst_discovery = \<lparr>dd_issuer = ''i'', dd_jwks_uri = ''keys''\<rparr>, pst_jwks = [''k'']\<rparr>"

lemma demo_verified: "verified_identity std_platform demo_jwt (''ci'', demo_provider) demo_state ''k'' ''h.c.s'' = Inr demo_identity"
  by code_simp

lemma demo_token: "decode_claims_unverified demo_jwt ''h.c.s'' = Inr [(''iss'', JString ''i'')]"
  by code_simp

lemma demo_refresh: "refresh_provider_state demo_jwt (static_fetch_text demo_answers) (''ci'', demo_provider) (c, ()) =
    (Inr demo_state, c(''ci'' \<mapsto> demo_state), ())"
proof -
  have "trim_end_char (CHR ''/'') ''i'' = ''i''" by code_simp
  then show ?thesis
    by (simp add: refresh_provider_state_def fetch_discovery_def fetch_jwks_def bind_io_def on_http_def demo_provider_def
      demo_jwt_def demo_answers_def static_fetch_text_def pure_io_def demo_state_def Let_def)
qed

lemma demo_authorized: "oidc_authorizer std_platform demo_jwt (static_fetch_text demo_answers) demo_oidc (Some ''h.c.s'')
    (\<lambda>_. None, ()) = (Inr demo_identity, [''ci'' \<mapsto> demo_state], ())"
proof -
  have "provider_for_issuer demo_oidc ''i'' = Some (''ci'', demo_provider)" by code_simp
  moreover have "get_string_claim [(''iss'', JString ''i'')] ''iss'' = Some ''i''" by code_simp
  moreover have "select_jwk demo_jwt (pst_jwks demo_state) ''k'' = Some ''k''" by code_simp
  moreover have "jwt_header demo_jwt ''h.c.s'' = Some (Some ''k'')" by (simp add: demo_jwt_def)
  ultimately show ?thesis
    by (simp add: oidc_authorizer_def find_key_def cached_or_fetch_provider_state_def bind_io_def pure_io_def return_io_def
      demo_token demo_refresh demo_verified)
qed

theorem oidc_identity_genuine_witness:
  "oidc_genuine std_platform demo_jwt (static_fetch_text demo_answers :: unit oidc_http_client) demo_oidc ''h.c.s''
     demo_identity"
  using oidc_identity_genuine[OF _ oidc_reached.start demo_authorized] by (simp add: demo_oidc_def)

end
