(* ===== verification/DbPaths.thy ===== *)
theory DbPaths
  imports Database NarInfo
begin

text \<open>
  \<^verbatim>\<open>crates/depot-db/src/paths.rs\<close>, \<^verbatim>\<open>objects.rs\<close> and the visibility views of the migrations:
  path infos with their references and signatures, storage objects, links between them, and
  which of them a project or the aggregate view shows.
\<close>

subsection \<open>Visibility views\<close>

definition project_visible_paths :: "database \<Rightarrow> (string \<times> string) list" where
  "project_visible_paths db =
     concat (map (\<lambda>pr. concat (map (\<lambda>bp. if bp_build bp = ref_build pr
        then [(ref_project pr, bp_hash bp)] else []) (db_build_paths db))) (db_refs db)) @
     concat (map (\<lambda>pin. concat (map (\<lambda>p. if pin_project pin = Some (prow_id p)
        then [(prow_id p, pin_hash pin)] else []) (db_projects db))) (db_pins db))"

definition aggregate_visible_paths :: "database \<Rightarrow> string list" where
  "aggregate_visible_paths db =
     concat (map (\<lambda>pr. concat (map (\<lambda>bp. if bp_build bp = ref_build pr
        then concat (map (\<lambda>p. if prow_id p = ref_project pr \<and> prow_public p = 1
               then [bp_hash bp] else []) (db_projects db))
        else []) (db_build_paths db))) (db_refs db)) @
     concat (map (\<lambda>pin. if pin_project pin = None then [pin_hash pin] else []) (db_pins db))"

definition visible_in_project :: "database \<Rightarrow> project_slug \<Rightarrow> string \<Rightarrow> bool" where
  "visible_in_project db slug h =
     list_ex (\<lambda>p. prow_slug p = slug_str slug \<and> (prow_id p, h) \<in> set (project_visible_paths db))
       (db_projects db)"

definition visible_in_aggregate :: "database \<Rightarrow> string \<Rightarrow> bool" where
  "visible_in_aggregate db h = (h \<in> set (aggregate_visible_paths db))"

subsection \<open>Path infos\<close>

definition inflate_narinfo :: "path_info_row \<Rightarrow> database \<Rightarrow> anyhow + nar_info" where
  "inflate_narinfo r db =
     (let references = order_by pt_ordinal (filter (\<lambda>x. pt_hash x = pirow_hash r) (db_references db));
          signatures = order_by pt_ordinal (filter (\<lambda>x. pt_hash x = pirow_hash r) (db_signatures db)) in
      and_then (ok_or (Anyhow ''converting nar_size to u64'') (try_u64 (pirow_nar_size r))) (\<lambda>nar_size.
      Inr \<lparr>ni_store_path = pirow_store_path r, ni_url = pirow_url r, ni_compression = pirow_compression r,
           ni_nar_hash = Raw (pirow_nar_hash r), ni_nar_size = nar_size,
           ni_references = map pt_text references, ni_deriver = pirow_deriver r,
           ni_signatures = map pt_text signatures, ni_ca = map_option CaRaw (pirow_ca r)\<rparr>))"

definition inflate_optional :: "path_info_row option \<Rightarrow> database \<Rightarrow> anyhow + nar_info option" where
  "inflate_optional row db = transpose_res (\<lambda>r. inflate_narinfo r db) row"

definition get_path_info_by_hash :: "store_path_hash \<Rightarrow> database \<Rightarrow> anyhow + nar_info option" where
  "get_path_info_by_hash h db =
     inflate_optional (fetch_optional (\<lambda>r. pirow_hash r = hash_str h) (db_path_infos db)) db"

definition get_project_narinfo ::
    "project_slug \<Rightarrow> store_path_hash \<Rightarrow> database \<Rightarrow> anyhow + nar_info option" where
  "get_project_narinfo slug h db =
     inflate_optional (fetch_optional
       (\<lambda>r. visible_in_project db slug (pirow_hash r) \<and> pirow_hash r = hash_str h) (db_path_infos db)) db"

definition get_aggregate_narinfo :: "store_path_hash \<Rightarrow> database \<Rightarrow> anyhow + nar_info option" where
  "get_aggregate_narinfo h db =
     inflate_optional (fetch_optional
       (\<lambda>r. pirow_hash r = hash_str h \<and> visible_in_aggregate db (pirow_hash r)) (db_path_infos db)) db"

definition get_build_path_narinfo ::
    "uuid \<Rightarrow> store_path_hash \<Rightarrow> database \<Rightarrow> anyhow + nar_info option" where
  "get_build_path_narinfo build_id h db =
     inflate_optional (fetch_optional
       (\<lambda>r. list_ex (\<lambda>bp. bp_hash bp = pirow_hash r \<and> bp_build bp = build_id \<and> bp_hash bp = hash_str h)
          (db_build_paths db)) (db_path_infos db)) db"

definition conflicting :: "nar_info \<Rightarrow> anyhow" where
  "conflicting incoming =
     Anyhow (''conflicting narinfo metadata for store path '' @ ni_store_path incoming)"

text \<open>The hashes are compared only when the fields before them agree; the comparison fails if one
  of the two hashes does not normalise.\<close>

definition ensure_compatible_path_info ::
    "b64_decoder \<Rightarrow> nar_info \<Rightarrow> nar_info \<Rightarrow> anyhow + unit" where
  "ensure_compatible_path_info b64 existing incoming =
     (let existing_ca = map_option (format_for_narinfo b64) (ni_ca existing);
          incoming_ca = map_option (format_for_narinfo b64) (ni_ca incoming);
          existing_refs = sort (ni_references existing);
          incoming_refs = sort (ni_references incoming) in
      if \<not> (ni_store_path existing = ni_store_path incoming \<and> ni_url existing = ni_url incoming \<and>
             ni_compression existing = ni_compression incoming)
      then Inl (conflicting incoming)
      else and_then (context_err ''nar hash'' (ni_normalized_nar_hash b64 existing)) (\<lambda>h1.
           and_then (context_err ''nar hash'' (ni_normalized_nar_hash b64 incoming)) (\<lambda>h2.
           if h1 = h2 \<and> ni_nar_size existing = ni_nar_size incoming \<and> existing_refs = incoming_refs \<and>
              ni_deriver existing = ni_deriver incoming \<and> existing_ca = incoming_ca
           then Inr () else Inl (conflicting incoming))))"

text \<open>The rows of a list column, numbered from 0.\<close>

definition text_rows :: "string \<Rightarrow> string list \<Rightarrow> path_text_row list" where
  "text_rows h xs = map (\<lambda>(i, x). \<lparr>pt_hash = h, pt_text = x, pt_ordinal = int i\<rparr>) (enumerate 0 xs)"

definition path_info_row_of :: "b64_decoder \<Rightarrow> nar_info \<Rightarrow> anyhow + path_info_row" where
  "path_info_row_of b64 n =
     and_then (context_err ''deriving store_path_hash from NarInfo'' (parse_from_store_path (ni_store_path n)))
       (\<lambda>h.
     and_then (context_err ''nar hash'' (ni_normalized_nar_hash b64 n)) (\<lambda>nar_hash.
     and_then (ok_or (Anyhow ''converting nar_size to i64'') (try_i64 (ni_nar_size n))) (\<lambda>nar_size.
     Inr \<lparr>pirow_hash = hash_str h, pirow_store_path = ni_store_path n, pirow_url = ni_url n,
          pirow_compression = ni_compression n, pirow_nar_hash = nar_hash_str nar_hash,
          pirow_nar_size = nar_size, pirow_deriver = ni_deriver n,
          pirow_ca = map_option (format_for_narinfo b64) (ni_ca n)\<rparr>)))"

definition upsert_path_info :: "b64_decoder \<Rightarrow> nar_info \<Rightarrow> unit db_op" where
  "upsert_path_info b64 n =
     tx_io (\<lambda>db.
       and_then (path_info_row_of b64 n) (\<lambda>row.
       if has_key pirow_hash (pirow_hash row) (db_path_infos db) \<or>
          has_key pirow_store_path (pirow_store_path row) (db_path_infos db)
       then and_then (get_path_info_by_hash (StorePathHash (pirow_hash row)) db) (\<lambda>existing.
            and_then (ok_or (Anyhow ''path_info disappeared during validation'') existing) (\<lambda>existing.
            and_then (ensure_compatible_path_info b64 existing n) (\<lambda>_. Inr ((), db))))
       else and_then (insert_rows pt_key (text_rows (pirow_hash row) (ni_references n)) (db_references db))
              (\<lambda>references.
            and_then (insert_rows pt_key (text_rows (pirow_hash row) (ni_signatures n)) (db_signatures db))
              (\<lambda>signatures.
            Inr ((), db\<lparr>db_path_infos := db_path_infos db @ [row], db_references := references,
              db_signatures := signatures\<rparr>)))))"

subsection \<open>Storage objects\<close>

definition upsert_storage_object ::
    "platform \<Rightarrow> storage_id \<Rightarrow> string \<Rightarrow> blob_metadata \<Rightarrow> unit db_op" where
  "upsert_storage_object pf sid object_path m =
     tx_io (\<lambda>db.
       and_then (transpose_res (\<lambda>v. ok_or (Anyhow ''converting content_length to i64'') (try_i64 v))
           (bm_content_length m)) (\<lambda>content_length.
       and_then (transpose_res (\<lambda>t. ok_or (Anyhow ''formatting last_modified'') (rfc3339_format pf t))
           (bm_last_modified m)) (\<lambda>last_modified.
       let row = \<lparr>so_storage_id = storage_id_str sid, so_object_path = object_path,
           so_content_type = bm_content_type m, so_content_length = content_length,
           so_etag = bm_etag m, so_last_modified = last_modified, so_deleted_at = None,
           so_first_deleted_at = None\<rparr> in
       Inr ((), db\<lparr>db_objects := upsert_row so_key
         (\<lambda>old excluded. old\<lparr>so_content_type := so_content_type excluded,
            so_content_length := so_content_length excluded, so_etag := so_etag excluded,
            so_last_modified := so_last_modified excluded, so_deleted_at := None,
            so_first_deleted_at := None\<rparr>) row (db_objects db)\<rparr>))))"

definition list_storage_objects ::
    "platform \<Rightarrow> string \<Rightarrow> database \<Rightarrow> anyhow + storage_object_record list" where
  "list_storage_objects pf object_path db =
     collect_res (storage_object_into_record pf)
       (order_by so_storage_id
         (filter (\<lambda>r. so_object_path r = object_path \<and> so_deleted_at r = None) (db_objects db)))"

definition storage_object_visible_in_view :: "depot_view \<Rightarrow> string \<Rightarrow> database \<Rightarrow> bool" where
  "storage_object_visible_in_view view object_path db =
     (case view of
        Aggregate \<Rightarrow> list_ex (\<lambda>po. visible_in_aggregate db (po_hash po) \<and> po_path po = object_path)
          (db_path_objects db)
      | Project project \<Rightarrow>
          list_ex (\<lambda>po. visible_in_project db project (po_hash po) \<and> po_path po = object_path)
            (db_path_objects db))"

definition link_path_object :: "store_path_hash \<Rightarrow> string \<Rightarrow> path_object_kind \<Rightarrow> unit db_op" where
  "link_path_object h object_path kind =
     tx_io (\<lambda>db.
       and_then (foreign_key (has_key pirow_hash (hash_str h) (db_path_infos db))) (\<lambda>_.
       Inr ((), db\<lparr>db_path_objects := insert_ignore po_key
         \<lparr>po_hash = hash_str h, po_path = object_path, po_kind = kind_str kind\<rparr> (db_path_objects db)\<rparr>)))"

definition path_has_object :: "store_path_hash \<Rightarrow> string \<Rightarrow> path_object_kind \<Rightarrow> database \<Rightarrow> bool" where
  "path_has_object h object_path kind db =
     has_key po_key (hash_str h, object_path, kind_str kind) (db_path_objects db)"

subsection \<open>Membership in the views\<close>

lemma project_visible_iff:
  "(pid, h) \<in> set (project_visible_paths db) \<longleftrightarrow>
   (\<exists>pr\<in>set (db_refs db). ref_project pr = pid \<and>
      (\<exists>bp\<in>set (db_build_paths db). bp_build bp = ref_build pr \<and> bp_hash bp = h)) \<or>
   (\<exists>pin\<in>set (db_pins db). pin_project pin = Some pid \<and> pin_hash pin = h \<and>
      (\<exists>p\<in>set (db_projects db). prow_id p = pid))"
  unfolding project_visible_paths_def set_append Un_iff
  by (rule arg_cong2[where f = "(\<or>)"]) (fastforce split: if_splits)+

lemma aggregate_visible_iff:
  "visible_in_aggregate db h \<longleftrightarrow>
   (\<exists>pr\<in>set (db_refs db). (\<exists>p\<in>set (db_projects db). prow_id p = ref_project pr \<and> prow_public p = 1) \<and>
      (\<exists>bp\<in>set (db_build_paths db). bp_build bp = ref_build pr \<and> bp_hash bp = h)) \<or>
   (\<exists>pin\<in>set (db_pins db). pin_project pin = None \<and> pin_hash pin = h)"
  unfolding visible_in_aggregate_def aggregate_visible_paths_def set_append Un_iff
  by (rule arg_cong2[where f = "(\<or>)"]) (fastforce split: if_splits)+

subsection \<open>Path infos are written once\<close>

text \<open>The rows of references and signatures belong to path infos, which have unique hashes.\<close>

definition path_rows_ok :: "database \<Rightarrow> bool" where
  "path_rows_ok db \<longleftrightarrow> unique_key pirow_hash (db_path_infos db) \<and>
     unique_key pirow_store_path (db_path_infos db) \<and>
     unique_key pt_key (db_references db) \<and> unique_key pt_key (db_signatures db) \<and>
     pt_hash ` set (db_references db) \<subseteq> pirow_hash ` set (db_path_infos db) \<and>
     pt_hash ` set (db_signatures db) \<subseteq> pirow_hash ` set (db_path_infos db) \<and>
     (\<forall>r\<in>set (db_path_infos db). parse_from_store_path (pirow_store_path r) = Inr (StorePathHash (pirow_hash r)))"

lemma text_rows_hash: "r \<in> set (text_rows h xs) \<Longrightarrow> pt_hash r = h"
  by (auto simp: text_rows_def)

lemma map_text_rows [simp]: "map pt_text (text_rows h xs) = xs"
  by (simp add: text_rows_def comp_def split_beta)

lemma text_rows_ordinals: "map pt_ordinal (text_rows h xs) = map int [0..<length xs]"
  by (rule nth_equalityI) (auto simp: text_rows_def nth_enumerate_eq)

lemma text_rows_keys: "distinct (map pt_key (text_rows h xs))"
proof -
  have "distinct (map pt_ordinal (text_rows h xs))"
    by (simp add: text_rows_ordinals distinct_map inj_on_def)
  moreover have "map pt_ordinal (text_rows h xs) = map snd (map pt_key (text_rows h xs))"
    by (simp add: pt_key_def comp_def)
  ultimately show ?thesis by (metis distinct_map)
qed

lemma ordered_text_rows:
  assumes "h \<notin> pt_hash ` set t"
  shows "map pt_text (order_by pt_ordinal (filter (\<lambda>x. pt_hash x = h) (t @ text_rows h xs))) = xs"
proof -
  have "filter (\<lambda>x. pt_hash x = h) t = []" using assms by (auto simp: filter_empty_conv)
  moreover have "filter (\<lambda>x. pt_hash x = h) (text_rows h xs) = text_rows h xs"
    by (rule filter_True) (auto dest: text_rows_hash)
  moreover have "sort_key pt_ordinal (text_rows h xs) = text_rows h xs"
    by (rule sort_key_id_if_sorted) (simp add: text_rows_ordinals sorted_map)
  ultimately show ?thesis by (simp add: order_by_def)
qed

lemma insert_text_rows:
  assumes "unique_key pt_key t" "h \<notin> pt_hash ` set t"
  shows "insert_rows pt_key (text_rows h xs) t = Inr (t @ text_rows h xs)"
proof (rule insert_rows_ok)
  have "pt_key ` set t \<inter> pt_key ` set (text_rows h xs) = {}"
    using assms(2) text_rows_hash[of _ h xs] by (force simp: pt_key_def)
  then show "distinct (map pt_key (t @ text_rows h xs))"
    using assms(1) text_rows_keys by (auto simp: unique_key_def)
qed

text \<open>What is read back: the hash as its normalised text, the content address as its text.\<close>

definition stored_narinfo :: "b64_decoder \<Rightarrow> nar_info \<Rightarrow> normalized_nar_hash \<Rightarrow> nar_info" where
  "stored_narinfo b64 n h = n\<lparr>ni_nar_hash := Raw (nar_hash_str h),
     ni_ca := map_option CaRaw (ca_narinfo_string b64 n)\<rparr>"

lemma path_info_row_of_Inr:
  "path_info_row_of b64 n = Inr row \<longleftrightarrow>
   (\<exists>h nh size. parse_from_store_path (ni_store_path n) = Inr h \<and> ni_normalized_nar_hash b64 n = Inr nh \<and>
     try_i64 (ni_nar_size n) = Some size \<and>
     row = \<lparr>pirow_hash = hash_str h, pirow_store_path = ni_store_path n, pirow_url = ni_url n,
       pirow_compression = ni_compression n, pirow_nar_hash = nar_hash_str nh, pirow_nar_size = size,
       pirow_deriver = ni_deriver n, pirow_ca = ca_narinfo_string b64 n\<rparr>)"
  by (auto simp: path_info_row_of_def ca_narinfo_string_def)

lemma upsert_new:
  assumes "path_rows_ok db" "path_info_row_of b64 n = Inr row" "ni_normalized_nar_hash b64 n = Inr nh"
    "\<not> has_key pirow_hash (pirow_hash row) (db_path_infos db)"
    "\<not> has_key pirow_store_path (ni_store_path n) (db_path_infos db)"
  defines "db' \<equiv> db\<lparr>db_path_infos := db_path_infos db @ [row],
      db_references := db_references db @ text_rows (pirow_hash row) (ni_references n),
      db_signatures := db_signatures db @ text_rows (pirow_hash row) (ni_signatures n)\<rparr>"
  shows "upsert_path_info b64 n db = (Inr (), db')"
    "get_path_info_by_hash (StorePathHash (pirow_hash row)) db' = Inr (Some (stored_narinfo b64 n nh))"
proof -
  have fresh: "pirow_hash row \<notin> pt_hash ` set (db_references db)"
    "pirow_hash row \<notin> pt_hash ` set (db_signatures db)"
    using assms(1,4) unfolding path_rows_ok_def has_key_iff by blast+
  have sp: "pirow_store_path row = ni_store_path n" using assms(2) by (auto simp: path_info_row_of_Inr)
  show "upsert_path_info b64 n db = (Inr (), db')"
    using assms fresh insert_text_rows sp by (simp add: upsert_path_info_def path_rows_ok_def tx_io_def)
  have "fetch_optional (\<lambda>r. pirow_hash r = pirow_hash row) (db_path_infos db) = None"
    using assms(4) by (auto simp: fetch_optional_None has_key_iff image_iff)
  then have f: "fetch_optional (\<lambda>r. pirow_hash r = pirow_hash row) (db_path_infos db') = Some row"
    by (simp add: db'_def fetch_optional_def find_append)
  obtain h size where r: "try_i64 (ni_nar_size n) = Some size" and
    row: "row = \<lparr>pirow_hash = hash_str h, pirow_store_path = ni_store_path n, pirow_url = ni_url n,
       pirow_compression = ni_compression n, pirow_nar_hash = nar_hash_str nh, pirow_nar_size = size,
       pirow_deriver = ni_deriver n, pirow_ca = ca_narinfo_string b64 n\<rparr>"
    using assms(2,3) by (auto simp: path_info_row_of_Inr)
  have refs: "map pt_text (order_by pt_ordinal (filter (\<lambda>x. pt_hash x = pirow_hash row) (db_references db')))
      = ni_references n"
    "map pt_text (order_by pt_ordinal (filter (\<lambda>x. pt_hash x = pirow_hash row) (db_signatures db')))
      = ni_signatures n"
    using fresh ordered_text_rows by (simp_all add: db'_def)
  show "get_path_info_by_hash (StorePathHash (pirow_hash row)) db' = Inr (Some (stored_narinfo b64 n nh))"
    using f refs try_i64_u64[OF r]
    by (simp add: get_path_info_by_hash_def inflate_optional_def inflate_narinfo_def stored_narinfo_def row)
qed

lemma stored_hash:
  assumes "ni_normalized_nar_hash b64 n = Inr nh" "digest_text (nh_digest nh)"
  shows "ni_normalized_nar_hash b64 (stored_narinfo b64 n nh) = Inr nh"
proof -
  have a: "nh_algorithm nh = Sha256"
    using assms(1) normalize_sha256 by (auto simp: ni_normalized_nar_hash_def sha256_text_def)
  then have "nh = \<lparr>nh_algorithm = Sha256, nh_digest = nh_digest nh\<rparr>" by simp
  then show ?thesis
    using parse_text_prefixed[OF assms(2), of b64]
    by (simp add: stored_narinfo_def ni_normalized_nar_hash_def nar_hash_str_def a)
qed

lemma stored_compatible:
  assumes "ni_normalized_nar_hash b64 n = Inr nh" "digest_text (nh_digest nh)"
  shows "ensure_compatible_path_info b64 (stored_narinfo b64 n nh) n = Inr ()"
  using stored_hash[OF assms] assms(1)
  by (cases "ni_ca n")
    (simp_all add: ensure_compatible_path_info_def stored_narinfo_def ca_narinfo_string_def context_err_def)

text \<open>A hash that is known is known with its store path.\<close>

lemma known_path_hash:
  assumes "path_rows_ok db" "path_info_row_of b64 n = Inr row"
    "has_key pirow_store_path (ni_store_path n) (db_path_infos db)"
  shows "has_key pirow_hash (pirow_hash row) (db_path_infos db)"
proof -
  obtain r where r: "r \<in> set (db_path_infos db)" "pirow_store_path r = ni_store_path n"
    using assms(3) by (auto simp: has_key_iff)
  then have "parse_from_store_path (ni_store_path n) = Inr (StorePathHash (pirow_hash r))"
    using assms(1) by (auto simp: path_rows_ok_def)
  then have "pirow_hash row = pirow_hash r" using assms(2) by (auto simp: path_info_row_of_Inr)
  then show ?thesis using r by (auto simp: has_key_iff)
qed

lemma upsert_cases:
  assumes "upsert_path_info b64 n db = (Inr (), db')"
  obtains (known) row existing where "db' = db" "path_info_row_of b64 n = Inr row"
      "get_path_info_by_hash (StorePathHash (pirow_hash row)) db = Inr (Some existing)"
      "ensure_compatible_path_info b64 existing n = Inr ()"
  | (new) row references signatures where "path_info_row_of b64 n = Inr row"
      "\<not> has_key pirow_hash (pirow_hash row) (db_path_infos db)"
      "\<not> has_key pirow_store_path (pirow_store_path row) (db_path_infos db)"
      "insert_rows pt_key (text_rows (pirow_hash row) (ni_references n)) (db_references db) = Inr references"
      "insert_rows pt_key (text_rows (pirow_hash row) (ni_signatures n)) (db_signatures db) = Inr signatures"
      "db' = db\<lparr>db_path_infos := db_path_infos db @ [row], db_references := references,
         db_signatures := signatures\<rparr>"
  using assms by (auto simp: upsert_path_info_def split: if_splits)

text \<open>The rows stay consistent.\<close>

lemma path_rows_upsert [inv_intros]: "keeps path_rows_ok (upsert_path_info b64 n)"
  unfolding keeps_def
proof (intro allI impI)
  fix db assume ok: "path_rows_ok db"
  show "path_rows_ok (snd (upsert_path_info b64 n db))"
  proof (cases "upsert_path_info b64 n db")
    case (Pair r db')
    show ?thesis
    proof (cases r)
      case (Inl e)
      then have "db' = db" using Pair by (auto simp: upsert_path_info_def tx_io_def split: sum.splits)
      then show ?thesis using Pair ok by simp
    next
      case (Inr u)
      with Pair have "upsert_path_info b64 n db = (Inr (), db')" by simp
      then show ?thesis
      proof (cases rule: upsert_cases)
        case (known row existing)
        then show ?thesis using Pair ok by simp
      next
        case (new row references signatures)
        have rows: "references = db_references db @ text_rows (pirow_hash row) (ni_references n)"
          "signatures = db_signatures db @ text_rows (pirow_hash row) (ni_signatures n)"
          using new insert_rows_Inr by blast+
        have u: "unique_key pirow_hash (db_path_infos db @ [row])"
          "unique_key pirow_store_path (db_path_infos db @ [row])"
          "unique_key pt_key references" "unique_key pt_key signatures"
          using ok new(2,3) unique_append insert_rows_unique[OF _ new(4)] insert_rows_unique[OF _ new(5)]
          by (auto simp: path_rows_ok_def)
        have h: "parse_from_store_path (pirow_store_path row) = Inr (StorePathHash (pirow_hash row))"
          using new(1) by (auto simp: path_info_row_of_Inr)
        have sub: "pt_hash ` set references \<subseteq> insert (pirow_hash row) (pirow_hash ` set (db_path_infos db))"
          "pt_hash ` set signatures \<subseteq> insert (pirow_hash row) (pirow_hash ` set (db_path_infos db))"
          unfolding rows using ok by (auto simp: path_rows_ok_def dest!: text_rows_hash)
        show ?thesis using Pair new(6) u h sub ok by (simp add: path_rows_ok_def)
      qed
    qed
  qed
qed

lemma row_store_path: "path_info_row_of b64 n = Inr row \<Longrightarrow> pirow_store_path row = ni_store_path n"
  by (auto simp: path_info_row_of_Inr)

text \<open>C16 (registering). When a narinfo is accepted into the database, the narinfo read back for its
  hash is compatible with it, registering it again succeeds and changes nothing, provided its digest
  has the length of a SHA-256 digest; a new path is read back field by field, with the references
  and signatures in their order.\<close>

theorem upsert_path_info_roundtrip:
  assumes "path_rows_ok db" "upsert_path_info b64 n db = (Inr (), db')"
    "ni_normalized_nar_hash b64 n = Inr nh" "digest_text (nh_digest nh)"
    "parse_from_store_path (ni_store_path n) = Inr h"
  shows "(\<exists>e. get_path_info_by_hash h db' = Inr (Some e) \<and> ensure_compatible_path_info b64 e n = Inr () \<and>
       (get_path_info_by_hash h db = Inr None \<longrightarrow> e = stored_narinfo b64 n nh)) \<and>
     upsert_path_info b64 n db' = (Inr (), db')"
  using assms(2)
proof (cases rule: upsert_cases)
  case (known row existing)
  have "StorePathHash (pirow_hash row) = h" using known(2) assms(5) by (auto simp: path_info_row_of_Inr)
  with known assms(2) show ?thesis by auto
next
  case (new row references signatures)
  have h: "StorePathHash (pirow_hash row) = h" using new(1) assms(5) by (auto simp: path_info_row_of_Inr)
  note n = upsert_new[OF assms(1) new(1) assms(3) new(2)]
  have db': "get_path_info_by_hash h db' = Inr (Some (stored_narinfo b64 n nh))"
    using n new(3) row_store_path[OF new(1)] assms(2) h by simp
  moreover have "has_key pirow_hash (pirow_hash row) (db_path_infos db')"
    by (simp add: new(6) has_key_iff)
  ultimately have "upsert_path_info b64 n db' = (Inr (), db')"
    using stored_compatible[OF assms(3,4)] new(1) h by (simp add: upsert_path_info_def tx_io_def)
  with db' stored_compatible[OF assms(3,4)] show ?thesis by blast
qed

lemma get_path_info_grows:
  assumes "path_rows_ok db" "get_path_info_by_hash h db = Inr (Some e)" "pirow_hash row \<noteq> hash_str h"
  shows "get_path_info_by_hash h (db\<lparr>db_path_infos := db_path_infos db @ [row],
      db_references := db_references db @ text_rows (pirow_hash row) xs,
      db_signatures := db_signatures db @ text_rows (pirow_hash row) ys\<rparr>) = Inr (Some e)"
proof -
  obtain r where r: "fetch_optional (\<lambda>r. pirow_hash r = hash_str h) (db_path_infos db) = Some r"
    "inflate_narinfo r db = Inr e"
    using assms(2) by (cases "fetch_optional (\<lambda>r. pirow_hash r = hash_str h) (db_path_infos db)")
      (auto simp: get_path_info_by_hash_def inflate_optional_def)
  have "pirow_hash r = hash_str h" using fetch_optional_Some[OF r(1)] by simp
  then have "filter (\<lambda>x. pt_hash x = pirow_hash r) (text_rows (pirow_hash row) zs) = []" for zs
    using assms(3) by (auto simp: filter_empty_conv dest: text_rows_hash)
  then have "inflate_narinfo r (db\<lparr>db_path_infos := db_path_infos db @ [row],
      db_references := db_references db @ text_rows (pirow_hash row) xs,
      db_signatures := db_signatures db @ text_rows (pirow_hash row) ys\<rparr>) = Inr e"
    using r(2) by (simp add: inflate_narinfo_def)
  then show ?thesis
    using r(1) by (simp add: get_path_info_by_hash_def inflate_optional_def fetch_optional_def find_append)
qed

text \<open>C17 (first writer wins). Registering any narinfo, whether it succeeds or fails, leaves every
  path info that is already registered as it was; a failure leaves the whole database as it was.\<close>

theorem upsert_first_writer_wins:
  assumes "path_rows_ok db" "get_path_info_by_hash h db = Inr (Some e)"
  shows "get_path_info_by_hash h (snd (upsert_path_info b64 n db)) = Inr (Some e) \<and>
    (\<not> is_ok (fst (upsert_path_info b64 n db)) \<longrightarrow> snd (upsert_path_info b64 n db) = db)"
proof (cases "upsert_path_info b64 n db")
  case (Pair r db')
  show ?thesis
  proof (cases r)
    case (Inl err)
    then have "db' = db" using Pair by (auto simp: upsert_path_info_def tx_io_def split: sum.splits)
    then show ?thesis using Pair assms(2) by simp
  next
    case (Inr u)
    with Pair have ok: "upsert_path_info b64 n db = (Inr (), db')" by simp
    then show ?thesis
    proof (cases rule: upsert_cases)
      case (known row existing)
      then show ?thesis using ok assms(2) by simp
    next
      case (new row references signatures)
      have "fetch_optional (\<lambda>r. pirow_hash r = hash_str h) (db_path_infos db) \<noteq> None"
        using assms(2) by (auto simp: get_path_info_by_hash_def inflate_optional_def)
      then have "pirow_hash row \<noteq> hash_str h"
        using new(2) by (auto simp: fetch_optional_None has_key_iff image_iff)
      then show ?thesis
        using get_path_info_grows[OF assms] new(6) insert_rows_Inr[OF new(4)] insert_rows_Inr[OF new(5)] ok
        by simp
    qed
  qed
qed

subsection \<open>What the views hide and show\<close>

text \<open>A path of private projects only: no public project has a ref on a build that contains it, and
  no global pin holds it.\<close>

definition private_path :: "database \<Rightarrow> string \<Rightarrow> bool" where
  "private_path db h \<longleftrightarrow>
     (\<forall>pr\<in>set (db_refs db). \<forall>bp\<in>set (db_build_paths db). bp_build bp = ref_build pr \<longrightarrow> bp_hash bp = h \<longrightarrow>
        (\<forall>p\<in>set (db_projects db). prow_id p = ref_project pr \<longrightarrow> prow_public p \<noteq> 1)) \<and>
     (\<forall>pin\<in>set (db_pins db). pin_hash pin = h \<longrightarrow> pin_project pin \<noteq> None)"

lemma private_iff: "private_path db h \<longleftrightarrow> \<not> visible_in_aggregate db h"
  unfolding aggregate_visible_iff private_path_def by auto

text \<open>(isolation). The aggregate view, which is open to everyone, never shows the narinfo of a
  path that only private projects publish, nor an object that belongs to such paths only.\<close>

theorem aggregate_hides_private:
  assumes "private_path db (hash_str h)"
    "\<And>po. po \<in> set (db_path_objects db) \<Longrightarrow> po_path po = object_path \<Longrightarrow> private_path db (po_hash po)"
  shows "get_aggregate_narinfo h db = Inr None \<and>
    \<not> storage_object_visible_in_view Aggregate object_path db"
proof -
  have "fetch_optional (\<lambda>r. pirow_hash r = hash_str h \<and> visible_in_aggregate db (pirow_hash r))
      (db_path_infos db) = None"
    using assms(1) by (auto simp: private_iff fetch_optional_None)
  then have "get_aggregate_narinfo h db = Inr None"
    by (simp add: get_aggregate_narinfo_def inflate_optional_def)
  moreover have "\<not> storage_object_visible_in_view Aggregate object_path db"
    using assms(2) by (auto simp: storage_object_visible_in_view_def list_ex_iff private_iff)
  ultimately show ?thesis ..
qed

text \<open>What a project sees of another project's paths: nothing but what it publishes or pins itself.\<close>

lemma visible_in_project_iff:
  "visible_in_project db slug h \<longleftrightarrow>
   (\<exists>p\<in>set (db_projects db). prow_slug p = slug_str slug \<and>
     ((\<exists>pr\<in>set (db_refs db). ref_project pr = prow_id p \<and>
        (\<exists>bp\<in>set (db_build_paths db). bp_build bp = ref_build pr \<and> bp_hash bp = h)) \<or>
      (\<exists>pin\<in>set (db_pins db). pin_project pin = Some (prow_id p) \<and> pin_hash pin = h)))"
  unfolding visible_in_project_def list_ex_iff project_visible_iff by blast

text \<open>(object records). After an object is recorded, it is listed under its path with exactly the
  metadata recorded, in its storage, even if it was tombstoned before; objects under other paths or
  in other storages keep their rows.\<close>

theorem upsert_object_listed:
  assumes "unique_key so_key (db_objects db)" "platform_ok pf"
    "storage_id_new (storage_id_str sid) = Inr sid" "\<forall>t. bm_last_modified m = Some t \<longrightarrow> 0 \<le> t"
    "upsert_storage_object pf sid path m db = (Inr (), db')"
    "list_storage_objects pf path db' = Inr rs"
  shows "\<lparr>sor_storage_id = sid, sor_metadata = m\<rparr> \<in> set rs \<and>
    (\<forall>r\<in>set (db_objects db). so_key r \<noteq> (storage_id_str sid, path) \<longrightarrow> r \<in> set (db_objects db'))"
proof -
  let ?f = "\<lambda>old excluded. old\<lparr>so_content_type := so_content_type excluded,
      so_content_length := so_content_length excluded, so_etag := so_etag excluded,
      so_last_modified := so_last_modified excluded, so_deleted_at := None, so_first_deleted_at := None\<rparr>"
  from assms(5) obtain len lm where
    len: "transpose_res (\<lambda>v. ok_or (Anyhow ''converting content_length to i64'') (try_i64 v))
           (bm_content_length m) = Inr len" and
    lm: "transpose_res (\<lambda>t. ok_or (Anyhow ''formatting last_modified'') (rfc3339_format pf t))
           (bm_last_modified m) = Inr lm" and
    db': "db' = db\<lparr>db_objects := upsert_row so_key ?f \<lparr>so_storage_id = storage_id_str sid,
        so_object_path = path, so_content_type = bm_content_type m, so_content_length = len,
        so_etag = bm_etag m, so_last_modified = lm, so_deleted_at = None,
        so_first_deleted_at = None\<rparr> (db_objects db)\<rparr>"
    by (auto simp: upsert_storage_object_def Let_def)
  let ?row = "\<lparr>so_storage_id = storage_id_str sid,
        so_object_path = path, so_content_type = bm_content_type m, so_content_length = len,
        so_etag = bm_etag m, so_last_modified = lm, so_deleted_at = None, so_first_deleted_at = None\<rparr>"
  have "fetch_optional (\<lambda>x. so_key x = so_key ?row) (db_objects db') =
      Some (case fetch_optional (\<lambda>x. so_key x = so_key ?row) (db_objects db) of None \<Rightarrow> ?row | Some x \<Rightarrow> ?f x ?row)"
    unfolding db' by (rule objects.lookup_upsert) (simp_all add: assms(1) so_key_def)
  moreover have "?f x ?row = ?row" if "so_key x = so_key ?row" for x
    using that by (cases x) (simp add: so_key_def)
  then have "(case fetch_optional (\<lambda>x. so_key x = so_key ?row) (db_objects db) of None \<Rightarrow> ?row
      | Some x \<Rightarrow> ?f x ?row) = ?row"
  proof (cases "fetch_optional (\<lambda>x. so_key x = so_key ?row) (db_objects db)")
    case (Some x)
    then have "so_key x = so_key ?row" using fetch_optional_Some by fastforce
    with Some \<open>\<And>x. so_key x = so_key ?row \<Longrightarrow> ?f x ?row = ?row\<close> show ?thesis by simp
  qed simp
  ultimately have x: "?row \<in> set (db_objects db')" using fetch_optional_Some by metis
  have rec: "storage_object_into_record pf ?row = Inr \<lparr>sor_storage_id = sid, sor_metadata = m\<rparr>"
  proof -
    have "transpose_res (\<lambda>v. ok_or (Anyhow ''converting content_length to u64'') (try_u64 v)) len =
        Inr (bm_content_length m)"
      using len try_i64_u64 by (cases "bm_content_length m") auto
    moreover have "parse_time_opt pf ''parsing storage object last_modified'' lm = Inr (bm_last_modified m)"
    proof (cases "bm_last_modified m")
      case (Some t)
      then have "0 \<le> t" using assms(4) by simp
      then obtain s where "rfc3339_format pf t = Some s" "rfc3339_parse pf s = Some t"
        using assms(2) by (auto simp: platform_ok_def)
      with lm Some show ?thesis by (auto simp: parse_time_opt_def parse_time_def)
    qed (use lm in \<open>simp add: parse_time_opt_def\<close>)
    ultimately show ?thesis using assms(3) by (simp add: storage_object_into_record_def context_err_def)
  qed
  have "?row \<in> set (order_by so_storage_id
      (filter (\<lambda>r. so_object_path r = path \<and> so_deleted_at r = None) (db_objects db')))"
    using x by simp
  then have "\<exists>y\<in>set rs. storage_object_into_record pf ?row = Inr y"
    using assms(6) collect_res_mem unfolding list_storage_objects_def by fast
  then have "\<lparr>sor_storage_id = sid, sor_metadata = m\<rparr> \<in> set rs" using rec by auto
  moreover have "\<forall>r\<in>set (db_objects db). so_key r \<noteq> (storage_id_str sid, path) \<longrightarrow> r \<in> set (db_objects db')"
    by (auto simp: db' set_upsert so_key_def image_iff)
  ultimately show ?thesis ..
qed

subsection \<open>Instances\<close>

lemma empty_rows_ok: "path_rows_ok empty_db"
  by (simp add: path_rows_ok_def empty_db_def unique_key_def)

definition path_sample :: nar_info where
  "path_sample = sample_info\<lparr>ni_url := ''nar/'' @ replicate 52 (CHR ''0'') @ ''.nar.zst''\<rparr>"

definition path_sample_hash :: store_path_hash where
  "path_sample_hash = StorePathHash ''s66mzxpvicwk07gjbjfw9izjfa797vsw''"

definition path_db :: database where
  "path_db = snd (upsert_path_info no_base64 path_sample empty_db)"

lemma path_sample_facts:
  "parse_from_store_path (ni_store_path path_sample) = Inr path_sample_hash"
  "upsert_path_info no_base64 path_sample empty_db = (Inr (), path_db)"
  by code_simp+

lemma path_sample_hash_norm:
  "ni_normalized_nar_hash no_base64 path_sample = Inr \<lparr>nh_algorithm = Sha256, nh_digest = replicate 52 (CHR ''0'')\<rparr>"
  using sample_hash by (simp add: ni_normalized_nar_hash_def path_sample_def)

theorem upsert_path_info_roundtrip_witness:
  "upsert_path_info no_base64 path_sample path_db = (Inr (), path_db) \<and>
   (\<exists>e. get_path_info_by_hash path_sample_hash path_db = Inr (Some e))"
  using upsert_path_info_roundtrip[OF empty_rows_ok path_sample_facts(2) path_sample_hash_norm
      sample_digest path_sample_facts(1)] by blast

lemma path_db_ok: "path_rows_ok path_db"
  unfolding path_db_def using path_rows_upsert empty_rows_ok by (rule keepsD)

theorem upsert_first_writer_wins_witness:
  "\<exists>e. get_path_info_by_hash path_sample_hash (snd (upsert_path_info no_base64
      (path_sample\<lparr>ni_deriver := None\<rparr>) path_db)) = Inr (Some e)"
proof -
  have "case get_path_info_by_hash path_sample_hash path_db of Inr (Some e) \<Rightarrow> True | _ \<Rightarrow> False"
    by code_simp
  then obtain e where "get_path_info_by_hash path_sample_hash path_db = Inr (Some e)"
    by (auto split: sum.splits option.splits)
  then show ?thesis using upsert_first_writer_wins[OF path_db_ok] by blast
qed

definition private_db :: database where
  "private_db = path_db\<lparr>db_pins := [],
     db_projects := [\<lparr>prow_id = ''p1'', prow_slug = ''secret'', prow_display_name = ''Secret'', prow_public = 0,
        prow_storage_id = ''main'', prow_created_at = ''0''\<rparr>],
     db_builds := [\<lparr>brow_id = ''b1'', brow_project_id = ''p1'', brow_ref_name = ''main'', brow_revision = None,
        brow_status = ''finalized'', brow_created_at = ''0'', brow_finalized_at = Some ''0''\<rparr>],
     db_build_paths := [\<lparr>bp_build = ''b1'', bp_hash = hash_str path_sample_hash\<rparr>],
     db_refs := [\<lparr>ref_project = ''p1'', ref_name = ''main'', ref_build = ''b1'', ref_updated_at = ''0''\<rparr>],
     db_path_objects := [\<lparr>po_hash = hash_str path_sample_hash, po_path = ni_url path_sample, po_kind = ''nar''\<rparr>]\<rparr>"

theorem aggregate_hides_private_witness:
  "get_aggregate_narinfo path_sample_hash private_db = Inr None \<and>
   \<not> storage_object_visible_in_view Aggregate (ni_url path_sample) private_db"
proof (rule aggregate_hides_private)
  show "private_path private_db (hash_str path_sample_hash)"
    by (simp add: private_path_def private_db_def)
  show "private_path private_db (po_hash po)" if "po \<in> set (db_path_objects private_db)" for po
    using that by (simp add: private_path_def private_db_def)
qed

definition sample_metadata :: blob_metadata where
  "sample_metadata = \<lparr>bm_content_type = ''application/x-nix-nar'', bm_content_length = Some 42,
     bm_etag = None, bm_last_modified = Some 5\<rparr>"

definition object_db :: database where
  "object_db = snd (upsert_storage_object std_platform storage_id_main ''nar/x'' sample_metadata empty_db)"

theorem upsert_object_listed_witness:
  "\<lparr>sor_storage_id = storage_id_main, sor_metadata = sample_metadata\<rparr> \<in>
   set (case list_storage_objects std_platform ''nar/x'' object_db of Inr rs \<Rightarrow> rs | Inl _ \<Rightarrow> [])"
proof -
  have "upsert_storage_object std_platform storage_id_main ''nar/x'' sample_metadata empty_db = (Inr (), object_db)"
    by code_simp
  moreover have "is_ok (list_storage_objects std_platform ''nar/x'' object_db)" by code_simp
  then obtain rs where "list_storage_objects std_platform ''nar/x'' object_db = Inr rs"
    by (auto simp: is_ok_iff)
  moreover have "storage_id_new (storage_id_str storage_id_main) = Inr storage_id_main" by code_simp
  ultimately show ?thesis
    using upsert_object_listed[OF _ std_platform_ok, of empty_db storage_id_main sample_metadata]
    by (simp add: empty_db_def unique_key_def sample_metadata_def)
qed

end
