(* ===== verification/DbBuilds.thy ===== *)
theory DbBuilds
  imports DbPaths
begin

text \<open>
  \<^verbatim>\<open>crates/depot-db/src/builds.rs\<close> and \<^verbatim>\<open>pins.rs\<close>: builds, the paths attached to them, the refs
  that publish them, and pins.
\<close>

subsection \<open>Builds\<close>

definition find_build :: "uuid \<Rightarrow> database \<Rightarrow> build_row option" where
  "find_build build_id db = fetch_optional (\<lambda>b. brow_id b = build_id) (db_builds db)"

definition get_build :: "platform \<Rightarrow> uuid \<Rightarrow> database \<Rightarrow> anyhow + build_record option" where
  "get_build pf build_id db = transpose_res (build_into_record pf) (find_build build_id db)"

definition begin_build ::
    "platform \<Rightarrow> datetime \<Rightarrow> uuid \<Rightarrow> project_slug \<Rightarrow> string \<Rightarrow> string option \<Rightarrow> build_record db_op" where
  "begin_build pf now fresh project rname revision =
     bind_io (query_io (project_id_by_slug project)) (\<lambda>project_id.
     bind_io (tx_io (\<lambda>db.
       and_then (context_err ''inserting build'' (insert_row brow_id
         \<lparr>brow_id = fresh, brow_project_id = project_id, brow_ref_name = rname,
          brow_revision = revision, brow_status = status_str Pending,
          brow_created_at = sql_now pf now, brow_finalized_at = None\<rparr> (db_builds db))) (\<lambda>builds.
       Inr ((), db\<lparr>db_builds := builds\<rparr>)))) (\<lambda>_.
     bind_io (query_io (get_build pf fresh)) (\<lambda>found.
     pure_io (ok_or (Anyhow (''build '' @ fresh @ '' not found after insert'')) found))))"

definition get_build_context :: "platform \<Rightarrow> uuid \<Rightarrow> database \<Rightarrow> anyhow + build_context option" where
  "get_build_context pf build_id db =
     transpose_res (context_into_record pf)
       (fetch_optional (\<lambda>_. True)
         (concat (map (\<lambda>b. if brow_id b = build_id
            then map (\<lambda>p. (b, p)) (filter (\<lambda>p. prow_id p = brow_project_id b) (db_projects db))
            else []) (db_builds db))))"

definition attach_build_path :: "uuid \<Rightarrow> store_path_hash \<Rightarrow> unit db_op" where
  "attach_build_path build_id h =
     tx_io (\<lambda>db.
       and_then (foreign_key (has_key brow_id build_id (db_builds db) \<and>
          has_key pirow_hash (hash_str h) (db_path_infos db))) (\<lambda>_.
       Inr ((), db\<lparr>db_build_paths := insert_ignore bp_key
         \<lparr>bp_build = build_id, bp_hash = hash_str h\<rparr> (db_build_paths db)\<rparr>)))"

definition attach_build_paths :: "uuid \<Rightarrow> store_path_hash list \<Rightarrow> unit db_op" where
  "attach_build_paths build_id hs = for_io (attach_build_path build_id) hs"

definition get_build_path_nar_object_path :: "uuid \<Rightarrow> store_path_hash \<Rightarrow> database \<Rightarrow> string option" where
  "get_build_path_nar_object_path build_id h db =
     map_option pirow_url (fetch_optional (\<lambda>r. list_ex (\<lambda>bp. bp_hash bp = pirow_hash r \<and>
        bp_build bp = build_id \<and> bp_hash bp = hash_str h) (db_build_paths db)) (db_path_infos db))"

definition build_path_rows :: "uuid \<Rightarrow> database \<Rightarrow> (string \<times> string) list" where
  "build_path_rows build_id db =
     order_by fst (concat (map (\<lambda>bp. if bp_build bp = build_id
       then map (\<lambda>r. (bp_hash bp, pirow_url r))
              (filter (\<lambda>r. pirow_hash r = bp_hash bp) (db_path_infos db))
       else []) (db_build_paths db)))"

definition list_build_path_nar_objects ::
    "uuid \<Rightarrow> database \<Rightarrow> anyhow + (store_path_hash \<times> string) list" where
  "list_build_path_nar_objects build_id db =
     collect_res (\<lambda>(h, url). and_then (context_err ''hash'' (from_hash h)) (\<lambda>hash. Inr (hash, url)))
       (build_path_rows build_id db)"

text \<open>The ref and the status of the build change in one transaction.\<close>

definition publish_build_to_ref ::
    "platform \<Rightarrow> datetime \<Rightarrow> project_slug \<Rightarrow> string \<Rightarrow> uuid \<Rightarrow> unit db_op" where
  "publish_build_to_ref pf now project name build_id =
     bind_io (query_io (project_id_by_slug project)) (\<lambda>project_id.
     bind_io (pure_io (ok_or (Anyhow ''formatting finalized_at'') (rfc3339_format pf now))) (\<lambda>finalized_at.
     tx_io (\<lambda>db.
       and_then (foreign_key (has_key prow_id project_id (db_projects db) \<and>
          has_key brow_id build_id (db_builds db))) (\<lambda>_.
       let refs = upsert_row ref_key
             (\<lambda>old excluded. old\<lparr>ref_build := ref_build excluded, ref_updated_at := sql_now pf now\<rparr>)
             \<lparr>ref_project = project_id, ref_name = name, ref_build = build_id,
              ref_updated_at = sql_now pf now\<rparr> (db_refs db);
           builds = update_rows (\<lambda>b. brow_id b = build_id)
             (\<lambda>b. b\<lparr>brow_status := status_str Finalized, brow_finalized_at := Some finalized_at\<rparr>)
             (db_builds db) in
       Inr ((), db\<lparr>db_refs := refs, db_builds := builds\<rparr>)))))"

subsection \<open>Pins\<close>

definition GLOBAL_SCOPE_KEY :: string where
  "GLOBAL_SCOPE_KEY = ''__global__''"

definition pin_scope_of :: "project_slug option \<Rightarrow> database \<Rightarrow> anyhow + string \<times> string option" where
  "pin_scope_of project db =
     (case project of
        Some p \<Rightarrow> and_then (project_id_by_slug p db) (\<lambda>pid. Inr (pid, Some pid))
      | None \<Rightarrow> Inr (GLOBAL_SCOPE_KEY, None))"

definition upsert_pin ::
    "platform \<Rightarrow> datetime \<Rightarrow> string \<Rightarrow> project_slug option \<Rightarrow> store_path_hash \<Rightarrow> string \<Rightarrow> unit db_op" where
  "upsert_pin pf now name project h store_path =
     tx_io (\<lambda>db.
       and_then (pin_scope_of project db) (\<lambda>(scope_key, project_id).
       and_then (ok_or (Anyhow (''cannot pin unknown store path hash '' @ hash_str h))
         (map_option pirow_store_path
           (fetch_optional (\<lambda>r. pirow_hash r = hash_str h) (db_path_infos db)))) (\<lambda>existing_store_path.
       if existing_store_path \<noteq> store_path
       then Inl (Anyhow (''pin store path '' @ store_path @ '' does not match registered path '' @
              existing_store_path))
       else Inr ((), db\<lparr>db_pins := upsert_row pin_key
         (\<lambda>old excluded. old\<lparr>pin_project := pin_project excluded, pin_hash := pin_hash excluded,
            pin_store_path := pin_store_path excluded, pin_updated_at := sql_now pf now\<rparr>)
         \<lparr>pin_scope = scope_key, pin_name = name, pin_project = project_id, pin_hash = hash_str h,
          pin_store_path = store_path, pin_created_at = sql_now pf now, pin_updated_at = sql_now pf now\<rparr>
         (db_pins db)\<rparr>))))"

text \<open>The left join with the project of a pin.\<close>

definition pin_with_slug :: "database \<Rightarrow> pin_row \<Rightarrow> pin_row \<times> string option" where
  "pin_with_slug db r = (r, case pin_project r of None \<Rightarrow> None
     | Some pid \<Rightarrow> map_option prow_slug (fetch_optional (\<lambda>p. prow_id p = pid) (db_projects db)))"

definition get_pin :: "platform \<Rightarrow> string \<Rightarrow> project_slug option \<Rightarrow> database \<Rightarrow> anyhow + pin_record option" where
  "get_pin pf name project db =
     and_then (pin_scope_of project db) (\<lambda>(scope_key, _).
       transpose_res (pin_into_record pf) (map_option (pin_with_slug db)
         (fetch_optional (\<lambda>r. pin_scope r = scope_key \<and> pin_name r = name) (db_pins db))))"

definition list_pins :: "platform \<Rightarrow> project_slug option \<Rightarrow> database \<Rightarrow> anyhow + pin_record list" where
  "list_pins pf project db =
     and_then
       (case project of
          Some p \<Rightarrow> and_then (pin_scope_of (Some p) db) (\<lambda>(scope_key, _).
            Inr (order_by pin_name (filter (\<lambda>r. pin_scope r = scope_key) (db_pins db))))
        | None \<Rightarrow> Inr (order_by pin_key (db_pins db)))
       (\<lambda>rows. collect_res (pin_into_record pf) (map (pin_with_slug db) rows))"

definition delete_pin :: "string \<Rightarrow> project_slug option \<Rightarrow> bool db_op" where
  "delete_pin name project =
     tx_io (\<lambda>db.
       and_then (pin_scope_of project db) (\<lambda>(scope_key, _).
       Inr (has_key pin_key (scope_key, name) (db_pins db),
            db\<lparr>db_pins := delete_rows (\<lambda>r. pin_key r = (scope_key, name)) (db_pins db)\<rparr>)))"

subsection \<open>What publishing and pinning do\<close>

lemma find_project_Some:
  "find_project slug db = Some p \<Longrightarrow> p \<in> set (db_projects db) \<and> prow_slug p = slug_str slug"
  unfolding find_project_def by (drule fetch_optional_Some) simp

lemma project_id_by_slug_Inr:
  "project_id_by_slug slug db = Inr pid \<longleftrightarrow> (\<exists>p. find_project slug db = Some p \<and> pid = prow_id p)"
  by (auto simp: project_id_by_slug_def)

lemma publish_Inr:
  assumes "publish_build_to_ref pf now project name build_id db = (Inr (), db')"
  obtains p fin where "find_project project db = Some p" "rfc3339_format pf now = Some fin"
    "has_key brow_id build_id (db_builds db)"
    "db_refs db' = upsert_row ref_key
       (\<lambda>old excluded. old\<lparr>ref_build := ref_build excluded, ref_updated_at := sql_now pf now\<rparr>)
       \<lparr>ref_project = prow_id p, ref_name = name, ref_build = build_id, ref_updated_at = sql_now pf now\<rparr>
       (db_refs db)"
    "db_builds db' = update_rows (\<lambda>b. brow_id b = build_id)
       (\<lambda>b. b\<lparr>brow_status := status_str Finalized, brow_finalized_at := Some fin\<rparr>) (db_builds db)"
    "db' = db\<lparr>db_refs := db_refs db', db_builds := db_builds db'\<rparr>"
  using assms
  by (auto simp: publish_build_to_ref_def bind_io_Inr project_id_by_slug_Inr Let_def)

lemma published_ref:
  assumes "publish_build_to_ref pf now project name build_id db = (Inr (), db')"
    "find_project project db = Some p"
  shows "\<exists>r\<in>set (db_refs db'). ref_project r = prow_id p \<and> ref_name r = name \<and> ref_build r = build_id"
    "\<And>r. r \<in> set (db_refs db') \<Longrightarrow> ref_key r = (prow_id p, name) \<Longrightarrow> ref_build r = build_id"
    "\<And>r. ref_key r \<noteq> (prow_id p, name) \<Longrightarrow> r \<in> set (db_refs db') \<longleftrightarrow> r \<in> set (db_refs db)"
proof -
  from assms(1) obtain q fin where "find_project project db = Some q" and
    refs: "db_refs db' = upsert_row ref_key
       (\<lambda>old excluded. old\<lparr>ref_build := ref_build excluded, ref_updated_at := sql_now pf now\<rparr>)
       \<lparr>ref_project = prow_id q, ref_name = name, ref_build = build_id, ref_updated_at = sql_now pf now\<rparr>
       (db_refs db)"
    by (rule publish_Inr)
  then have q: "q = p" using assms(2) by simp
  show "\<exists>r\<in>set (db_refs db'). ref_project r = prow_id p \<and> ref_name r = name \<and> ref_build r = build_id"
    unfolding refs q
    by (rule upsert_ex) (simp_all add: ref_key_def)
  show "ref_build r = build_id" if r: "r \<in> set (db_refs db')" "ref_key r = (prow_id p, name)" for r
    using upsert_from[OF r(1)[unfolded refs q]] r(2) by (elim disjE bexE conjE) (simp_all add: ref_key_def)
  show "r \<in> set (db_refs db') \<longleftrightarrow> r \<in> set (db_refs db)" if r: "ref_key r \<noteq> (prow_id p, name)" for r
    unfolding refs q
    by (rule upsert_other) (use r in \<open>simp_all add: ref_key_def\<close>)
qed

text \<open>C18 (publishing a build). A published build is finalized and every path attached to it becomes
  visible in its project, and in the aggregate view if the project is public; the ref points to this
  build and to no other, and no other ref of any project changes.\<close>

theorem publish_build_visible:
  assumes "publish_build_to_ref pf now project name build_id db = (Inr (), db')"
    "find_project project db = Some p"
  shows "(\<forall>bp\<in>set (db_build_paths db). bp_build bp = build_id \<longrightarrow>
        visible_in_project db' project (bp_hash bp) \<and>
        (prow_public p = 1 \<longrightarrow> visible_in_aggregate db' (bp_hash bp))) \<and>
    (\<forall>b\<in>set (db_builds db'). brow_id b = build_id \<longrightarrow> brow_status b = ''finalized'' \<and> brow_finalized_at b \<noteq> None) \<and>
    (\<forall>r\<in>set (db_refs db'). ref_key r = (prow_id p, name) \<longrightarrow> ref_build r = build_id) \<and>
    (\<forall>r. ref_key r \<noteq> (prow_id p, name) \<longrightarrow> r \<in> set (db_refs db') \<longleftrightarrow> r \<in> set (db_refs db))"
proof (intro conjI ballI allI impI)
  note r = published_ref[OF assms]
  from assms(1) obtain fin where
    builds: "db_builds db' = update_rows (\<lambda>b. brow_id b = build_id)
       (\<lambda>b. b\<lparr>brow_status := status_str Finalized, brow_finalized_at := Some fin\<rparr>) (db_builds db)" and
    same: "db' = db\<lparr>db_refs := db_refs db', db_builds := db_builds db'\<rparr>" by (rule publish_Inr)
  have tabs: "db_projects db' = db_projects db" "db_build_paths db' = db_build_paths db"
    using arg_cong[OF same, of db_projects] arg_cong[OF same, of db_build_paths] by simp_all
  have p: "p \<in> set (db_projects db')" "prow_slug p = slug_str project"
    using find_project_Some[OF assms(2)] tabs by simp_all
  fix bp assume bp: "bp \<in> set (db_build_paths db)" "bp_build bp = build_id"
  show "visible_in_project db' project (bp_hash bp)"
    using r(1) p bp tabs unfolding visible_in_project_iff by metis
  show "visible_in_aggregate db' (bp_hash bp)" if "prow_public p = 1"
    using r(1) p bp tabs that unfolding aggregate_visible_iff by metis
next
  from assms(1) obtain fin where
    builds: "db_builds db' = update_rows (\<lambda>b. brow_id b = build_id)
       (\<lambda>b. b\<lparr>brow_status := status_str Finalized, brow_finalized_at := Some fin\<rparr>) (db_builds db)"
    by (rule publish_Inr)
  fix b assume b: "b \<in> set (db_builds db')" "brow_id b = build_id"
  then obtain c where "b = (if brow_id c = build_id
      then c\<lparr>brow_status := status_str Finalized, brow_finalized_at := Some fin\<rparr> else c)"
    unfolding builds set_update by blast
  then show "brow_status b = ''finalized''" "brow_finalized_at b \<noteq> None"
    using b(2) by (simp_all split: if_splits)
qed (use published_ref[OF assms] in blast)+

text \<open>(new builds). A new build is pending, belongs to the project and the ref it was begun for and
  is read back as it was made; it publishes nothing.\<close>

theorem begin_build_pending:
  assumes "begin_build pf now fresh project rname revision db = (Inr b, db')"
  shows "bld_status b = Pending \<and> bld_finalized_at b = None \<and> bld_ref_name b = rname \<and>
    bld_revision b = revision \<and> uuid_parse pf fresh = Some (bld_id b) \<and>
    (\<exists>p. find_project project db = Some p \<and> uuid_parse pf (prow_id p) = Some (bld_project_id b)) \<and>
    \<not> has_key brow_id fresh (db_builds db) \<and> db_refs db' = db_refs db \<and>
    db_build_paths db' = db_build_paths db"
proof -
  from assms obtain p builds where p: "find_project project db = Some p" and
    ins: "insert_row brow_id \<lparr>brow_id = fresh, brow_project_id = prow_id p, brow_ref_name = rname,
          brow_revision = revision, brow_status = status_str Pending,
          brow_created_at = sql_now pf now, brow_finalized_at = None\<rparr> (db_builds db) = Inr builds" and
    db': "db' = db\<lparr>db_builds := builds\<rparr>" and
    get: "get_build pf fresh db' = Inr (Some b)"
    by (auto simp: begin_build_def bind_io_Inr project_id_by_slug_Inr)
  have "find_build fresh db' = Some \<lparr>brow_id = fresh, brow_project_id = prow_id p, brow_ref_name = rname,
          brow_revision = revision, brow_status = status_str Pending,
          brow_created_at = sql_now pf now, brow_finalized_at = None\<rparr>"
    using insert_lookup[OF ins, of fresh] by (simp add: find_build_def db')
  then have "build_into_record pf \<lparr>brow_id = fresh, brow_project_id = prow_id p, brow_ref_name = rname,
          brow_revision = revision, brow_status = status_str Pending,
          brow_created_at = sql_now pf now, brow_finalized_at = None\<rparr> = Inr b"
    using get by (simp add: get_build_def)
  then have "bld_status b = Pending" "bld_finalized_at b = None" "bld_ref_name b = rname"
    "bld_revision b = revision" "uuid_parse pf fresh = Some (bld_id b)"
    "uuid_parse pf (prow_id p) = Some (bld_project_id b)"
    by (auto simp: build_into_record_def parse_uuid_def parse_time_opt_def status_parse_def)
  moreover have "\<not> has_key brow_id fresh (db_builds db)"
    using ins by (auto simp: insert_row_def split: if_splits)
  ultimately show ?thesis using p by (simp add: db')
qed


subsection \<open>Instances\<close>

abbreviation demo :: project_slug where "demo \<equiv> ProjectSlug ''demo''"

definition demo_project :: project_row where
  "demo_project = \<lparr>prow_id = ''p1'', prow_slug = ''demo'', prow_display_name = ''Demo'', prow_public = 1,
     prow_storage_id = ''main'', prow_created_at = ''0''\<rparr>"

definition demo_db :: database where
  "demo_db = empty_db\<lparr>db_projects := [demo_project],
     db_path_infos := [\<lparr>pirow_hash = ''h'', pirow_store_path = ''/nix/store/h-x'', pirow_url = ''nar/x'',
        pirow_compression = ''none'', pirow_nar_hash = ''sha256:0'', pirow_nar_size = 1, pirow_deriver = None,
        pirow_ca = None\<rparr>],
     db_builds := [\<lparr>brow_id = ''b1'', brow_project_id = ''p1'', brow_ref_name = ''main'', brow_revision = None,
        brow_status = ''pending'', brow_created_at = ''0'', brow_finalized_at = None\<rparr>],
     db_build_paths := [\<lparr>bp_build = ''b1'', bp_hash = ''h''\<rparr>]\<rparr>"

definition published_db :: database where
  "published_db = snd (publish_build_to_ref std_platform 7 demo ''main'' ''b1'' demo_db)"

theorem publish_build_visible_witness:
  "visible_in_project published_db demo ''h'' \<and> visible_in_aggregate published_db ''h''"
proof -
  have p: "publish_build_to_ref std_platform 7 demo ''main'' ''b1'' demo_db = (Inr (), published_db)" by code_simp
  have f: "find_project demo demo_db = Some demo_project" by code_simp
  have bp: "\<lparr>bp_build = ''b1'', bp_hash = ''h''\<rparr> \<in> set (db_build_paths demo_db)" by (simp add: demo_db_def)
  show ?thesis using publish_build_visible[OF p f] bp by (auto simp: demo_project_def)
qed

theorem begin_build_pending_witness:
  "\<exists>b db'. begin_build std_platform 7 ''b2'' demo ''main'' None demo_db = (Inr b, db') \<and> bld_status b = Pending"
proof -
  have "is_ok (fst (begin_build std_platform 7 ''b2'' demo ''main'' None demo_db))" by code_simp
  then obtain b db' where "begin_build std_platform 7 ''b2'' demo ''main'' None demo_db = (Inr b, db')"
    by (cases "begin_build std_platform 7 ''b2'' demo ''main'' None demo_db") (auto simp: is_ok_iff)
  then show ?thesis using begin_build_pending by blast
qed


end
