(* ===== verification/DbTokens.thy ===== *)
theory DbTokens
  imports DbBuilds Signing
begin

text \<open>
  \<^verbatim>\<open>crates/depot-db/src/access_tokens.rs\<close> and \<^verbatim>\<open>project_oidc_identities.rs\<close>: who may write.
  An access token is stored as its hash and has one row for each ref pattern; the crates
  \<^verbatim>\<open>sha2\<close> and \<^verbatim>\<open>hex\<close> are parameters, and random text and ids are arguments. An empty
  pattern is stored for a token or an identity without patterns.
\<close>

subsection \<open>Patterns\<close>

definition normalize_patterns :: "string list \<Rightarrow> string list" where
  "normalize_patterns ps =
     (let normalized = dedup (sort (filter (\<lambda>p. p \<noteq> []) (map trim ps))) in
      if normalized = [] then [[]] else normalized)"

lemma set_normalize_patterns:
  "set (normalize_patterns ps) =
   (if \<exists>p\<in>set ps. trim p \<noteq> [] then {trim p |p. p \<in> set ps \<and> trim p \<noteq> []} else {[]})"
proof (cases "\<exists>p\<in>set ps. trim p \<noteq> []")
  case True
  then have "dedup (sort (filter (\<lambda>p. p \<noteq> []) (map trim ps))) \<noteq> []"
    using set_dedup[of "sort (filter (\<lambda>p. p \<noteq> []) (map trim ps))"] by (auto simp del: set_dedup)
  then have "set (normalize_patterns ps) = {trim p |p. p \<in> set ps \<and> trim p \<noteq> []}"
    by (auto simp: normalize_patterns_def Let_def)
  then show ?thesis using True by simp
next
  case False
  then have "filter (\<lambda>p. p \<noteq> []) (map trim ps) = []" by (auto simp: filter_empty_conv)
  then show ?thesis using False by (simp add: normalize_patterns_def)
qed

lemma distinct_normalize_patterns: "distinct (normalize_patterns ps)"
  by (simp add: normalize_patterns_def Let_def distinct_dedup)

lemma normalize_patterns_nonempty: "normalize_patterns ps \<noteq> []"
  by (simp add: normalize_patterns_def Let_def)

subsection \<open>Access tokens\<close>

definition hash_access_token :: "(bytes \<Rightarrow> bytes) \<Rightarrow> (bytes \<Rightarrow> string) \<Rightarrow> string \<Rightarrow> string" where
  "hash_access_token sha256 hexenc token = hexenc (sha256 (into_bytes token))"

definition generate_access_token :: "string \<Rightarrow> string \<Rightarrow> string" where
  "generate_access_token simple1 simple2 = ''npc_'' @ simple1 @ simple2"

record created_access_token =
  cat_token :: string
  cat_records :: "access_token_record list"

text \<open>The join of tokens, projects and patterns.\<close>

definition token_rows ::
    "(access_token_row \<Rightarrow> bool) \<Rightarrow> database \<Rightarrow> (access_token_row \<times> string \<times> string) list" where
  "token_rows p db =
     concat (map (\<lambda>t. concat (map (\<lambda>pr. map (\<lambda>r. (t, prow_slug pr, tp_pattern r))
         (filter (\<lambda>r. tp_token r = at_id t) (db_token_patterns db)))
       (filter (\<lambda>pr. prow_id pr = at_project t) (db_projects db)))) (filter p (db_tokens db)))"

definition row_pattern :: "access_token_row \<times> string \<times> string \<Rightarrow> string" where
  "row_pattern r = snd (snd r)"

definition token_row_order :: "access_token_row \<times> string \<times> string \<Rightarrow> string \<times> string \<times> string" where
  "token_row_order r = (fst (snd r), at_name (fst r), snd (snd r))"

definition list_access_token_records_by_id ::
    "platform \<Rightarrow> string \<Rightarrow> database \<Rightarrow> anyhow + access_token_record list" where
  "list_access_token_records_by_id pf token_id db =
     collect_res (access_token_into_record pf)
       (order_by row_pattern (token_rows (\<lambda>t. at_id t = token_id) db))"

text \<open>A token is active when it is not revoked and its expiry, compared as text with the text of
  the current moment, lies after it.\<close>

definition token_active :: "string \<Rightarrow> access_token_row \<Rightarrow> bool" where
  "token_active now t \<longleftrightarrow> at_revoked_at t = None \<and>
     (case at_expires_at t of None \<Rightarrow> True | Some e \<Rightarrow> now < e)"

definition create_access_token ::
    "platform \<Rightarrow> (bytes \<Rightarrow> bytes) \<Rightarrow> (bytes \<Rightarrow> string) \<Rightarrow> datetime \<Rightarrow> uuid \<Rightarrow> string \<times> string \<Rightarrow>
     string \<Rightarrow> project_slug \<Rightarrow> string list \<Rightarrow> datetime option \<Rightarrow> created_access_token db_op" where
  "create_access_token pf sha256 hexenc now fresh random name project ref_patterns expires_at =
     (let name = trim name in
      if name = [] then fail_io (Anyhow ''access token name must not be empty'')
      else bind_io (query_io (project_id_by_slug project)) (\<lambda>project_id.
        let token = generate_access_token (fst random) (snd random);
            token_hash = hash_access_token sha256 hexenc token in
        bind_io (pure_io (transpose_res (\<lambda>t. ok_or (Anyhow ''formatting access token expires_at'')
            (rfc3339_format pf t)) expires_at)) (\<lambda>expires_at_text.
        let normalized_patterns = normalize_patterns ref_patterns in
        bind_io (tx_io (\<lambda>db.
          if has_key at_id fresh (db_tokens db) \<or> has_key at_token_hash token_hash (db_tokens db)
          then Inl (Anyhow ''inserting access token'')
          else and_then (foreign_key (has_key prow_id project_id (db_projects db))) (\<lambda>_.
            and_then (context_err ''inserting access token ref pattern'' (insert_rows tp_key
              (map (\<lambda>p. \<lparr>tp_token = fresh, tp_pattern = p\<rparr>) normalized_patterns) (db_token_patterns db)))
              (\<lambda>patterns.
            Inr ((), db\<lparr>db_tokens := db_tokens db @ [\<lparr>at_id = fresh, at_token_hash = token_hash,
                at_name = name, at_project = project_id, at_created_at = sql_now pf now,
                at_expires_at = expires_at_text, at_revoked_at = None\<rparr>],
              db_token_patterns := patterns\<rparr>))))) (\<lambda>_.
        bind_io (query_io (\<lambda>db. context_err ''loading created access token''
            (list_access_token_records_by_id pf fresh db))) (\<lambda>records.
        return_io \<lparr>cat_token = token, cat_records = records\<rparr>)))))"

definition list_access_tokens ::
    "platform \<Rightarrow> project_slug option \<Rightarrow> database \<Rightarrow> anyhow + access_token_record list" where
  "list_access_tokens pf project db =
     collect_res (access_token_into_record pf) (order_by token_row_order
       (filter (\<lambda>(t, slug, pattern). case project of None \<Rightarrow> True | Some p \<Rightarrow> slug = slug_str p)
         (token_rows (\<lambda>t. True) db)))"

definition revoke_access_token :: "platform \<Rightarrow> datetime \<Rightarrow> string \<Rightarrow> bool db_op" where
  "revoke_access_token pf now token_id =
     bind_io (pure_io (ok_or (Anyhow ''formatting revoked_at'') (rfc3339_format pf now))) (\<lambda>now.
     tx_io (\<lambda>db.
       let matches = (\<lambda>t. at_id t = token_id \<and> at_revoked_at t = None) in
       Inr (list_ex matches (db_tokens db),
            db\<lparr>db_tokens := update_rows matches (\<lambda>t. t\<lparr>at_revoked_at := Some now\<rparr>) (db_tokens db)\<rparr>)))"

definition list_active_access_token_records_by_token ::
    "platform \<Rightarrow> (bytes \<Rightarrow> bytes) \<Rightarrow> (bytes \<Rightarrow> string) \<Rightarrow> datetime \<Rightarrow> string \<Rightarrow> database \<Rightarrow>
     anyhow + access_token_record list" where
  "list_active_access_token_records_by_token pf sha256 hexenc now token db =
     (let token_hash = hash_access_token sha256 hexenc token in
      and_then (ok_or (Anyhow ''formatting current time'') (rfc3339_format pf now)) (\<lambda>now.
      collect_res (access_token_into_record pf) (order_by row_pattern
        (token_rows (\<lambda>t. at_token_hash t = token_hash \<and> token_active now t) db))))"

definition list_active_access_token_records_by_id ::
    "platform \<Rightarrow> datetime \<Rightarrow> string \<Rightarrow> database \<Rightarrow> anyhow + access_token_record list" where
  "list_active_access_token_records_by_id pf now token_id db =
     and_then (ok_or (Anyhow ''formatting current time'') (rfc3339_format pf now)) (\<lambda>now.
     collect_res (access_token_into_record pf) (order_by row_pattern
       (token_rows (\<lambda>t. at_id t = token_id \<and> token_active now t) db)))"

subsection \<open>OIDC identities\<close>

definition oidc_matches :: "string \<Rightarrow> string \<Rightarrow> string \<Rightarrow> oidc_identity_row \<Rightarrow> bool" where
  "oidc_matches project_id provider repository r \<longleftrightarrow>
     oi_project r = project_id \<and> oi_provider r = provider \<and> oi_repository r = repository"

definition replace_project_oidc_identity ::
    "platform \<Rightarrow> datetime \<Rightarrow> project_slug \<Rightarrow> string \<Rightarrow> string \<Rightarrow> string list \<Rightarrow> unit db_op" where
  "replace_project_oidc_identity pf now project provider repository ref_patterns =
     (let provider = trim provider; repository = trim repository in
      if provider = [] then fail_io (Anyhow ''provider must not be empty'')
      else if repository = [] then fail_io (Anyhow ''repository must not be empty'')
      else bind_io (query_io (project_id_by_slug project)) (\<lambda>project_id.
        tx_io (\<lambda>db.
          and_then (foreign_key (has_key prow_id project_id (db_projects db))) (\<lambda>_.
          and_then (context_err ''inserting project oidc identity'' (insert_rows oi_key
            (map (\<lambda>p. \<lparr>oi_project = project_id, oi_provider = provider, oi_repository = repository,
                oi_pattern = p, oi_created_at = sql_now pf now\<rparr>) (normalize_patterns ref_patterns))
            (delete_rows (oidc_matches project_id provider repository) (db_oidc db)))) (\<lambda>identities.
          Inr ((), db\<lparr>db_oidc := identities\<rparr>))))))"

text \<open>The join of identities with their projects.\<close>

definition oidc_rows ::
    "(oidc_identity_row \<Rightarrow> bool) \<Rightarrow> database \<Rightarrow> (string \<times> oidc_identity_row) list" where
  "oidc_rows p db =
     concat (map (\<lambda>i. map (\<lambda>pr. (prow_slug pr, i))
       (filter (\<lambda>pr. prow_id pr = oi_project i) (db_projects db))) (filter p (db_oidc db)))"

definition oidc_order :: "string \<times> oidc_identity_row \<Rightarrow> string \<times> string \<times> string" where
  "oidc_order r = (oi_provider (snd r), oi_repository (snd r), oi_pattern (snd r))"

definition oidc_slug_order :: "string \<times> oidc_identity_row \<Rightarrow> string \<times> string" where
  "oidc_slug_order r = (fst r, oi_pattern (snd r))"

definition list_project_oidc_identities ::
    "platform \<Rightarrow> project_slug \<Rightarrow> database \<Rightarrow> anyhow + oidc_identity_record list" where
  "list_project_oidc_identities pf project db =
     and_then (project_id_by_slug project db) (\<lambda>project_id.
     collect_res (\<lambda>(slug, i). oidc_into_record pf slug i)
       (order_by oidc_order (oidc_rows (\<lambda>i. oi_project i = project_id) db)))"

definition delete_project_oidc_identity :: "project_slug \<Rightarrow> string \<Rightarrow> string \<Rightarrow> bool db_op" where
  "delete_project_oidc_identity project provider repository =
     tx_io (\<lambda>db.
       and_then (project_id_by_slug project db) (\<lambda>project_id.
       let matches = oidc_matches project_id (trim provider) (trim repository) in
       Inr (list_ex matches (db_oidc db), db\<lparr>db_oidc := delete_rows matches (db_oidc db)\<rparr>)))"

definition list_matching_project_oidc_identities ::
    "platform \<Rightarrow> string \<Rightarrow> string \<Rightarrow> database \<Rightarrow> anyhow + oidc_identity_record list" where
  "list_matching_project_oidc_identities pf provider repository db =
     collect_res (\<lambda>(slug, i). oidc_into_record pf slug i)
       (order_by oidc_slug_order
         (oidc_rows (\<lambda>i. oi_provider i = provider \<and> oi_repository i = repository) db))"

subsection \<open>Tokens over their life\<close>

lemma token_rows_iff:
  "(t, slug, pattern) \<in> set (token_rows p db) \<longleftrightarrow> t \<in> set (db_tokens db) \<and> p t \<and>
     (\<exists>pr\<in>set (db_projects db). prow_id pr = at_project t \<and> prow_slug pr = slug) \<and>
     (\<exists>r\<in>set (db_token_patterns db). tp_token r = at_id t \<and> tp_pattern r = pattern)"
  by (auto simp: token_rows_def)

lemma token_rows_none: "\<not> (\<exists>t\<in>set (db_tokens db). p t) \<Longrightarrow> token_rows p db = []"
  by (simp add: token_rows_def)

lemma create_Inr:
  assumes "create_access_token pf sha256 hexenc now fresh random name project patterns expires db = (Inr c, db')"
  obtains p expires_text where "trim name \<noteq> []" "find_project project db = Some p"
    "transpose_res (\<lambda>t. ok_or (Anyhow ''formatting access token expires_at'') (rfc3339_format pf t)) expires
       = Inr expires_text"
    "\<not> has_key at_id fresh (db_tokens db)"
    "\<not> has_key at_token_hash (hash_access_token sha256 hexenc (cat_token c)) (db_tokens db)"
    "db' = db\<lparr>db_tokens := db_tokens db @ [\<lparr>at_id = fresh,
         at_token_hash = hash_access_token sha256 hexenc (cat_token c), at_name = trim name, at_project = prow_id p,
         at_created_at = sql_now pf now, at_expires_at = expires_text, at_revoked_at = None\<rparr>],
       db_token_patterns := db_token_patterns db @
         map (\<lambda>p. \<lparr>tp_token = fresh, tp_pattern = p\<rparr>) (normalize_patterns patterns)\<rparr>"
    "list_access_token_records_by_id pf fresh db' = Inr (cat_records c)"
  using assms
  by (auto simp: create_access_token_def Let_def bind_io_Inr project_id_by_slug_Inr
      dest!: insert_rows_Inr split: if_splits)

text \<open>The active rows are the rows of the token, as long as it is not expired.\<close>

lemma created_rows:
  assumes "db_tokens db' = db_tokens db @ [t]" "\<not> has_key at_id (at_id t) (db_tokens db)"
    "\<not> has_key at_token_hash (at_token_hash t) (db_tokens db)" "q t"
  shows "token_rows (\<lambda>x. at_token_hash x = at_token_hash t \<and> q x) db' = token_rows (\<lambda>x. at_id x = at_id t) db'"
proof -
  have "filter (\<lambda>x. at_token_hash x = at_token_hash t \<and> q x) (db_tokens db) = []"
    "filter (\<lambda>x. at_id x = at_id t) (db_tokens db) = []"
    using assms(2,3) by (auto simp: filter_empty_conv has_key_iff image_iff)
  then show ?thesis using assms(1,4) by (simp add: token_rows_def)
qed

lemma new_patterns:
  assumes "i \<notin> tp_token ` set t"
  shows "(\<exists>r\<in>set (t @ map (\<lambda>p. \<lparr>tp_token = i, tp_pattern = p\<rparr>) ps). tp_token r = i \<and> tp_pattern r = q) \<longleftrightarrow> q \<in> set ps"
proof -
  have "\<not> (\<exists>r\<in>set t. tp_token r = i \<and> tp_pattern r = q)" using assms by blast
  then show ?thesis by (auto simp: bex_Un)
qed


text \<open>C31 (revoked tokens). A revoked token is never active again, whatever its expiry; revoking says
  whether there was such a token, keeps the moment of an earlier revocation and does not touch
  other tokens.\<close>

theorem revoked_token_inactive:
  assumes "revoke_access_token pf now token_id db = (Inr b, db')"
  shows "(\<forall>t rs. list_active_access_token_records_by_id pf t token_id db' = Inr rs \<longrightarrow> rs = []) \<and>
    (\<forall>t token rs. list_active_access_token_records_by_token pf sha256 hexenc t token db' = Inr rs \<longrightarrow>
       (\<forall>r\<in>set rs. atr_id r \<noteq> token_id)) \<and>
    (b \<longleftrightarrow> (\<exists>t\<in>set (db_tokens db). at_id t = token_id \<and> at_revoked_at t = None)) \<and>
    (\<forall>t. at_id t \<noteq> token_id \<or> (at_revoked_at t \<noteq> None \<and> t \<in> set (db_tokens db)) \<longrightarrow>
       (t \<in> set (db_tokens db') \<longleftrightarrow> t \<in> set (db_tokens db)))"
proof -
  from assms obtain s where b: "b = list_ex (\<lambda>t. at_id t = token_id \<and> at_revoked_at t = None) (db_tokens db)" and
    db': "db' = db\<lparr>db_tokens := update_rows (\<lambda>t. at_id t = token_id \<and> at_revoked_at t = None)
        (\<lambda>t. t\<lparr>at_revoked_at := Some s\<rparr>) (db_tokens db)\<rparr>"
    by (auto simp: revoke_access_token_def bind_io_Inr Let_def)
  have tokens: "db_tokens db' = update_rows (\<lambda>t. at_id t = token_id \<and> at_revoked_at t = None)
        (\<lambda>t. t\<lparr>at_revoked_at := Some s\<rparr>) (db_tokens db)" by (simp add: db')
  have revoked: "at_revoked_at t \<noteq> None" if t: "t \<in> set (db_tokens db')" "at_id t = token_id" for t
    using t(1) unfolding tokens by (cases rule: update_rows_cases) (use t(2) in auto)
  then have none: "token_rows (\<lambda>t. at_id t = token_id \<and> token_active n t) db' = []" for n
    by (intro token_rows_none) (auto simp: token_active_def)
  have "rs = []" if "list_active_access_token_records_by_id pf t token_id db' = Inr rs" for t rs
    using that by (auto simp: list_active_access_token_records_by_id_def none order_by_def)
  moreover have "atr_id r \<noteq> token_id"
    if rs: "list_active_access_token_records_by_token pf sha256 hexenc t token db' = Inr rs" "r \<in> set rs"
    for t token rs r
  proof
    assume "atr_id r = token_id"
    from rs(1) obtain n where "collect_res (access_token_into_record pf) (order_by row_pattern
        (token_rows (\<lambda>t. at_token_hash t = hash_access_token sha256 hexenc token \<and> token_active n t) db')) = Inr rs"
      by (auto simp: list_active_access_token_records_by_token_def Let_def)
    from collect_res_from[OF this rs(2)] obtain x slug pattern where
      x: "x \<in> set (db_tokens db')" "token_active n x" "access_token_into_record pf (x, slug, pattern) = Inr r"
      by (auto simp: token_rows_iff)
    then have "at_id x = token_id" using \<open>atr_id r = token_id\<close> by (auto simp: access_token_into_record_def)
    then show False using revoked[OF x(1)] x(2) by (simp add: token_active_def)
  qed
  moreover have "t \<in> set (db_tokens db') \<longleftrightarrow> t \<in> set (db_tokens db)"
    if t: "at_id t \<noteq> token_id \<or> (at_revoked_at t \<noteq> None \<and> t \<in> set (db_tokens db))" for t
  proof
    assume "t \<in> set (db_tokens db')"
    then show "t \<in> set (db_tokens db)" unfolding tokens
      by (cases rule: update_rows_cases) (use t in \<open>auto\<close>)
  next
    assume "t \<in> set (db_tokens db)"
    then show "t \<in> set (db_tokens db')" unfolding tokens by (rule update_rows_same) (use t in auto)
  qed
  ultimately show ?thesis by (auto simp: b list_ex_iff)
qed

text \<open>(expiry texts). Expiry is compared as text, and the RFC 3339 texts of \<^verbatim>\<open>time\<close> drop the
  fraction of a whole second: a token that expired at the second is still active half a second
  later.\<close>

theorem expired_token_active:
  "\<exists>t. at_expires_at t = Some ''2026-01-01T00:00:00Z'' \<and> token_active ''2026-01-01T00:00:00.5Z'' t \<and>
     \<not> token_active ''2026-01-01T00:00:01Z'' t"
proof -
  let ?t = "\<lparr>at_id = ''t'', at_token_hash = ''h'', at_name = ''n'', at_project = ''p'', at_created_at = ''c'',
    at_expires_at = Some ''2026-01-01T00:00:00Z'', at_revoked_at = None\<rparr>"
  have "token_active ''2026-01-01T00:00:00.5Z'' ?t" "\<not> token_active ''2026-01-01T00:00:01Z'' ?t" by code_simp+
  then show ?thesis by (intro exI[of _ ?t]) simp
qed

subsection \<open>Replaced identities\<close>

lemma oidc_rows_iff:
  "(slug, i) \<in> set (oidc_rows p db) \<longleftrightarrow> i \<in> set (db_oidc db) \<and> p i \<and>
     (\<exists>pr\<in>set (db_projects db). prow_id pr = oi_project i \<and> prow_slug pr = slug)"
  by (auto simp: oidc_rows_def)

lemma replace_oidc_Inr:
  assumes "replace_project_oidc_identity pf now project provider repository patterns db = (Inr (), db')"
  obtains p where "find_project project db = Some p" "trim provider \<noteq> []" "trim repository \<noteq> []"
    "db' = db\<lparr>db_oidc := delete_rows (oidc_matches (prow_id p) (trim provider) (trim repository)) (db_oidc db) @
       map (\<lambda>q. \<lparr>oi_project = prow_id p, oi_provider = trim provider, oi_repository = trim repository,
                oi_pattern = q, oi_created_at = sql_now pf now\<rparr>) (normalize_patterns patterns)\<rparr>"
  using assms
  by (auto simp: replace_project_oidc_identity_def Let_def bind_io_Inr project_id_by_slug_Inr
      dest!: insert_rows_Inr split: if_splits)

text \<open>(identities). Replacing the identity of a repository leaves exactly the trimmed patterns, or the
  empty one, for this project, provider and repository, and every other identity as it was.\<close>

theorem replace_oidc_identity:
  assumes "replace_project_oidc_identity pf now project provider repository patterns db = (Inr (), db')"
    "find_project project db = Some p"
  shows "{oi_pattern i |i. i \<in> set (db_oidc db') \<and> oidc_matches (prow_id p) (trim provider) (trim repository) i} =
      set (normalize_patterns patterns) \<and>
    (\<forall>i. \<not> oidc_matches (prow_id p) (trim provider) (trim repository) i \<longrightarrow>
       (i \<in> set (db_oidc db') \<longleftrightarrow> i \<in> set (db_oidc db)))"
proof -
  let ?m = "oidc_matches (prow_id p) (trim provider) (trim repository)"
  let ?row = "\<lambda>q. \<lparr>oi_project = prow_id p, oi_provider = trim provider, oi_repository = trim repository,
                oi_pattern = q, oi_created_at = sql_now pf now\<rparr>"
  from assms(1) obtain p' where "find_project project db = Some p'"
    "db' = db\<lparr>db_oidc := delete_rows (oidc_matches (prow_id p') (trim provider) (trim repository)) (db_oidc db) @
       map (\<lambda>q. \<lparr>oi_project = prow_id p', oi_provider = trim provider, oi_repository = trim repository,
                oi_pattern = q, oi_created_at = sql_now pf now\<rparr>) (normalize_patterns patterns)\<rparr>"
    by (rule replace_oidc_Inr)
  with assms(2) have t: "set (db_oidc db') = {i \<in> set (db_oidc db). \<not> ?m i} \<union> ?row ` set (normalize_patterns patterns)"
    by simp
  have m: "?m (?row q)" for q by (simp add: oidc_matches_def)
  have "{oi_pattern i |i. i \<in> set (db_oidc db') \<and> ?m i} = oi_pattern ` (?row ` set (normalize_patterns patterns))"
    unfolding t using m by blast
  moreover have "i \<in> set (db_oidc db') \<longleftrightarrow> i \<in> set (db_oidc db)" if "\<not> ?m i" for i
    unfolding t using m that by blast
  ultimately show ?thesis by (simp add: image_image)
qed

subsection \<open>Instances\<close>

definition toy_sha :: "bytes \<Rightarrow> bytes" where
  "toy_sha bs = bs"

definition token_db :: database where
  "token_db = snd (create_access_token std_platform toy_sha bytes_text 5 ''t1'' (''a'', ''b'') ''ci'' demo
     [''refs/heads/* '', []] (Some 9) demo_db)"

definition token_created :: created_access_token where
  "token_created = (case fst (create_access_token std_platform toy_sha bytes_text 5 ''t1'' (''a'', ''b'') ''ci'' demo
     [''refs/heads/* '', []] (Some 9) demo_db) of Inr c \<Rightarrow> c | Inl _ \<Rightarrow> \<lparr>cat_token = [], cat_records = []\<rparr>)"


theorem revoked_token_inactive_witness:
  "\<nexists>t r rs. list_active_access_token_records_by_id std_platform t ''t1''
     (snd (revoke_access_token std_platform 6 ''t1'' token_db)) = Inr (r # rs)"
proof -
  have "revoke_access_token std_platform 6 ''t1'' token_db =
      (Inr True, snd (revoke_access_token std_platform 6 ''t1'' token_db))" by code_simp
  from revoked_token_inactive[OF this] show ?thesis by blast
qed

theorem replace_oidc_identity_witness:
  "{oi_pattern i |i. i \<in> set (db_oidc (snd (replace_project_oidc_identity std_platform 5 demo '' github'' ''o/r''
      [''main''] demo_db))) \<and> oidc_matches ''p1'' ''github'' ''o/r'' i} = {''main''}"
proof -
  have r: "replace_project_oidc_identity std_platform 5 demo '' github'' ''o/r'' [''main''] demo_db =
      (Inr (), snd (replace_project_oidc_identity std_platform 5 demo '' github'' ''o/r'' [''main''] demo_db))"
    by code_simp
  have p: "find_project demo demo_db = Some demo_project" by code_simp
  have "trim '' github'' = ''github''" "trim ''o/r'' = ''o/r''" "normalize_patterns [''main''] = [''main'']" by code_simp+
  then show ?thesis using replace_oidc_identity[OF r p] by (simp add: demo_project_def)
qed

end
