(* ===== verification/Authz.thy ===== *)
theory Authz
  imports Auth DbTokens Backends
begin

text \<open>
  \<^verbatim>\<open>crates/depot-write/src/authz.rs\<close> and the authorizers that \<^verbatim>\<open>crates/depot-server/src/lib.rs\<close>
  builds: access tokens of the database, what an identity may do, and that an authorization succeeds exactly
  when the rows of the database grant it.
\<close>

subsection \<open>Access tokens as bearer tokens\<close>

definition db_access_token_authorizer ::
    "platform \<Rightarrow> (bytes \<Rightarrow> bytes) \<Rightarrow> (bytes \<Rightarrow> string) \<Rightarrow> datetime \<Rightarrow> database authorizer" where
  "db_access_token_authorizer pf sha256 hexenc now bearer_token =
     bind_io (pure_io (ok_or MissingToken bearer_token)) (\<lambda>token.
     bind_io (query_io (\<lambda>db. map_err (\<lambda>e. case e of Anyhow m \<Rightarrow> Unavailable m)
       (list_active_access_token_records_by_token pf sha256 hexenc now token db))) (\<lambda>records.
     case records of
       [] \<Rightarrow> fail_io InvalidToken
     | r # _ \<Rightarrow> return_io (identity_access_token (atr_id r) (''access-token:'' @ atr_name r))))"

subsection \<open>The authorization service\<close>

datatype authorized_scope = AdminScope | ProjectScope project_slug "string list"

record authorized_principal =
  apr_identity :: authenticated_identity
  apr_scope :: authorized_scope

datatype authorization_error = ServiceUnavailable | Unauthorized | Forbidden

text \<open>The headers of a request in order, their names in lower case. \<^verbatim>\<open>to_str\<close> accepts visible ASCII and
  tabs.\<close>

type_synonym headers = "(string \<times> bytes) list"

definition header_text :: "bytes \<Rightarrow> string option" where
  "header_text value =
     (if list_all (\<lambda>b. b = 9 \<or> 32 \<le> b \<and> b < 127) value then Some (map (char_of \<circ> unat) value) else None)"

definition bearer_from_headers :: "headers \<Rightarrow> string option" where
  "bearer_from_headers headers =
     Option.bind (map_of headers ''authorization'') (\<lambda>value.
     Option.bind (header_text value) (\<lambda>value.
     map_option trim (strip_prefix ''Bearer '' value)))"

definition authenticate_headers :: "'s authorizer \<Rightarrow> headers \<Rightarrow> ('s, authorization_error, authenticated_identity) io" where
  "authenticate_headers auth headers = (\<lambda>st.
     case auth (bearer_from_headers headers) st of
       (Inr identity, st) \<Rightarrow> (Inr identity, st)
     | (Inl e, st) \<Rightarrow> (Inl (if e = MissingToken \<or> e = InvalidToken then Unauthorized else ServiceUnavailable), st))"

definition authorize_admin :: "authenticated_identity \<Rightarrow> authorization_error + authorized_principal" where
  "authorize_admin identity =
     (case aid_kind identity of
        BootstrapAdmin \<Rightarrow> Inr \<lparr>apr_identity = identity, apr_scope = AdminScope\<rparr>
      | _ \<Rightarrow> Inl Forbidden)"

definition sorted_ref_patterns :: "string list \<Rightarrow> string list" where
  "sorted_ref_patterns patterns = dedup (sort patterns)"

definition ref_patterns_from_oidc_bindings :: "oidc_identity_record list \<Rightarrow> string list" where
  "ref_patterns_from_oidc_bindings bindings =
     (if list_ex (\<lambda>binding. oid_ref_pattern binding = None) bindings then []
      else sorted_ref_patterns (List.map_filter oid_ref_pattern bindings))"

definition ref_patterns_from_access_token_records :: "access_token_record list \<Rightarrow> string list" where
  "ref_patterns_from_access_token_records records =
     (if list_ex (\<lambda>r. atr_ref_pattern r = None) records then []
      else sorted_ref_patterns (List.map_filter atr_ref_pattern records))"

definition ref_pattern_matches :: "platform \<Rightarrow> string option \<Rightarrow> string option \<Rightarrow> bool" where
  "ref_pattern_matches pf pattern rname =
     (case pattern of
        None \<Rightarrow> True
      | Some p \<Rightarrow> (case rname of Some r \<Rightarrow> wild_matches pf p r | None \<Rightarrow> False))"

definition matching_oidc_bindings ::
    "platform \<Rightarrow> authenticated_identity \<Rightarrow> oidc_identity \<Rightarrow> database \<Rightarrow>
     authorization_error + oidc_identity_record list" where
  "matching_oidc_bindings pf identity oidc db =
     and_then (ok_or Forbidden (aid_provider identity)) (\<lambda>provider.
     and_then (ok_or Forbidden (oidc_repository oidc)) (\<lambda>repository.
     map_err (\<lambda>_. ServiceUnavailable) (list_matching_project_oidc_identities pf provider repository db)))"

definition authorize_oidc_project ::
    "platform \<Rightarrow> authenticated_identity \<Rightarrow> oidc_identity \<Rightarrow> project_slug \<Rightarrow> database \<Rightarrow>
     authorization_error + authorized_principal" where
  "authorize_oidc_project pf identity oidc project db =
     and_then (matching_oidc_bindings pf identity oidc db) (\<lambda>matching.
     let bindings = filter (\<lambda>binding. oid_project_slug binding = project) matching in
     if bindings = [] then Inl Forbidden
     else Inr \<lparr>apr_identity = identity, apr_scope = ProjectScope project (ref_patterns_from_oidc_bindings bindings)\<rparr>)"

definition authorize_oidc_project_ref ::
    "platform \<Rightarrow> authenticated_identity \<Rightarrow> oidc_identity \<Rightarrow> project_slug \<Rightarrow> string \<Rightarrow> database \<Rightarrow>
     authorization_error + authorized_principal" where
  "authorize_oidc_project_ref pf identity oidc project rname db =
     (if oidc_ref_name oidc \<noteq> None \<and> oidc_ref_name oidc \<noteq> Some rname then Inl Forbidden
      else
        and_then (matching_oidc_bindings pf identity oidc db) (\<lambda>matching.
        let bindings = filter (\<lambda>binding. ref_pattern_matches pf (oid_ref_pattern binding) (oidc_ref_name oidc))
              (filter (\<lambda>binding. oid_project_slug binding = project) matching) in
        if bindings = [] then Inl Forbidden
        else Inr \<lparr>apr_identity = identity, apr_scope = ProjectScope project (ref_patterns_from_oidc_bindings bindings)\<rparr>))"

definition active_access_token_records ::
    "platform \<Rightarrow> datetime \<Rightarrow> string \<Rightarrow> database \<Rightarrow> authorization_error + access_token_record list" where
  "active_access_token_records pf now tid db =
     and_then (map_err (\<lambda>_. ServiceUnavailable) (list_active_access_token_records_by_id pf now tid db)) (\<lambda>records.
     if records = [] then Inl Unauthorized else Inr records)"

definition authorize_access_token_project ::
    "platform \<Rightarrow> datetime \<Rightarrow> authenticated_identity \<Rightarrow> string \<Rightarrow> project_slug \<Rightarrow> database \<Rightarrow>
     authorization_error + authorized_principal" where
  "authorize_access_token_project pf now identity tid project db =
     and_then (active_access_token_records pf now tid db) (\<lambda>records.
     let matching = filter (\<lambda>r. atr_project_slug r = project) records in
     if matching = [] then Inl Forbidden
     else Inr \<lparr>apr_identity = identity, apr_scope = ProjectScope project (ref_patterns_from_access_token_records matching)\<rparr>)"

definition authorize_access_token_project_ref ::
    "platform \<Rightarrow> datetime \<Rightarrow> authenticated_identity \<Rightarrow> string \<Rightarrow> project_slug \<Rightarrow> string \<Rightarrow> database \<Rightarrow>
     authorization_error + authorized_principal" where
  "authorize_access_token_project_ref pf now identity tid project rname db =
     and_then (active_access_token_records pf now tid db) (\<lambda>records.
     let matching = filter (\<lambda>r. ref_pattern_matches pf (atr_ref_pattern r) (Some rname))
           (filter (\<lambda>r. atr_project_slug r = project) records) in
     if matching = [] then Inl Forbidden
     else Inr \<lparr>apr_identity = identity, apr_scope = ProjectScope project (ref_patterns_from_access_token_records matching)\<rparr>)"

definition authorize_project ::
    "platform \<Rightarrow> datetime \<Rightarrow> authenticated_identity \<Rightarrow> project_slug \<Rightarrow> database \<Rightarrow>
     authorization_error + authorized_principal" where
  "authorize_project pf now identity project db =
     (case aid_kind identity of
        BootstrapAdmin \<Rightarrow> Inr \<lparr>apr_identity = identity, apr_scope = AdminScope\<rparr>
      | Oidc oidc \<Rightarrow> authorize_oidc_project pf identity oidc project db
      | AccessToken tid \<Rightarrow> authorize_access_token_project pf now identity tid project db)"

definition authorize_project_ref ::
    "platform \<Rightarrow> datetime \<Rightarrow> authenticated_identity \<Rightarrow> project_slug \<Rightarrow> string \<Rightarrow> database \<Rightarrow>
     authorization_error + authorized_principal" where
  "authorize_project_ref pf now identity project rname db =
     (case aid_kind identity of
        BootstrapAdmin \<Rightarrow> Inr \<lparr>apr_identity = identity, apr_scope = AdminScope\<rparr>
      | Oidc oidc \<Rightarrow> authorize_oidc_project_ref pf identity oidc project rname db
      | AccessToken tid \<Rightarrow> authorize_access_token_project_ref pf now identity tid project rname db)"

text \<open>What a principal may be asked for.\<close>

definition require_admin :: "authorized_principal \<Rightarrow> authorization_error + unit" where
  "require_admin p = (case apr_scope p of AdminScope \<Rightarrow> Inr () | ProjectScope _ _ \<Rightarrow> Inl Forbidden)"

definition require_project :: "authorized_principal \<Rightarrow> project_slug \<Rightarrow> authorization_error + unit" where
  "require_project p project =
     (case apr_scope p of
        AdminScope \<Rightarrow> Inr ()
      | ProjectScope principal_project _ \<Rightarrow> if principal_project = project then Inr () else Inl Forbidden)"

definition require_project_ref :: "platform \<Rightarrow> authorized_principal \<Rightarrow> project_slug \<Rightarrow> string \<Rightarrow> authorization_error + unit" where
  "require_project_ref pf p project rname =
     (case apr_scope p of
        AdminScope \<Rightarrow> Inr ()
      | ProjectScope principal_project ref_patterns \<Rightarrow>
          if principal_project = project \<and> (ref_patterns = [] \<or> list_ex (\<lambda>q. wild_matches pf q rname) ref_patterns)
          then Inr () else Inl Forbidden)"

subsection \<open>The authorizers of the server\<close>

definition on_left :: "('a, 'e, 'x) io \<Rightarrow> ('a \<times> 'b, 'e, 'x) io" where
  "on_left m = (\<lambda>(a, b). case m a of (r, a) \<Rightarrow> (r, a, b))"

definition on_right :: "('b, 'e, 'x) io \<Rightarrow> ('a \<times> 'b, 'e, 'x) io" where
  "on_right m = (\<lambda>(a, b). case m b of (r, b) \<Rightarrow> (r, a, b))"

text \<open>The state of a server: the cache and the network of the OIDC authorizer, and the database with the
  storages.\<close>

definition build_default_authorizer ::
    "platform \<Rightarrow> 'j jwt_library \<Rightarrow> 's oidc_http_client \<Rightarrow> string option \<Rightarrow> oidc_config option \<Rightarrow>
     ('j oidc_cache \<times> 's) authorizer" where
  "build_default_authorizer pf jl http write_token oidc =
     chain_authorizer (static_token_authorizer write_token #
       (case oidc of Some config \<Rightarrow> [oidc_authorizer pf jl http config] | None \<Rightarrow> []))"

definition build_write_authorizer ::
    "platform \<Rightarrow> (bytes \<Rightarrow> bytes) \<Rightarrow> (bytes \<Rightarrow> string) \<Rightarrow> datetime \<Rightarrow> 'o authorizer \<Rightarrow> ('o \<times> database \<times> 'w) authorizer" where
  "build_write_authorizer pf sha256 hexenc now auth =
     chain_authorizer [\<lambda>t. on_left (auth t),
       \<lambda>t. on_right (on_left (db_access_token_authorizer pf sha256 hexenc now t))]"

subsection \<open>What the rows grant\<close>

definition oidc_grant :: "database \<Rightarrow> string \<Rightarrow> string \<Rightarrow> project_slug \<Rightarrow> string option \<Rightarrow> bool" where
  "oidc_grant db provider repository slug pattern \<longleftrightarrow>
     (\<exists>i\<in>set (db_oidc db). \<exists>p\<in>set (db_projects db). oi_provider i = provider \<and> oi_repository i = repository \<and>
        prow_id p = oi_project i \<and> prow_slug p = slug_str slug \<and> pattern = pattern_option (oi_pattern i))"

definition token_grant :: "platform \<Rightarrow> datetime \<Rightarrow> database \<Rightarrow> string \<Rightarrow> project_slug \<Rightarrow> string option \<Rightarrow> bool" where
  "token_grant pf now db tid slug pattern \<longleftrightarrow>
     (\<exists>t\<in>set (db_tokens db). \<exists>p\<in>set (db_projects db). \<exists>r\<in>set (db_token_patterns db). \<exists>text.
        rfc3339_format pf now = Some text \<and> at_id t = tid \<and> token_active text t \<and>
        prow_id p = at_project t \<and> prow_slug p = slug_str slug \<and>
        tp_token r = tid \<and> pattern = pattern_option (tp_pattern r))"

text \<open>The policy: who may write to a project, and who to one of its refs.\<close>

definition may_write_project :: "platform \<Rightarrow> datetime \<Rightarrow> database \<Rightarrow> authenticated_identity \<Rightarrow> project_slug \<Rightarrow> bool" where
  "may_write_project pf now db x slug \<longleftrightarrow>
     (case aid_kind x of
        BootstrapAdmin \<Rightarrow> True
      | Oidc oidc \<Rightarrow> \<exists>provider repository pattern. aid_provider x = Some provider \<and>
          oidc_repository oidc = Some repository \<and> oidc_grant db provider repository slug pattern
      | AccessToken tid \<Rightarrow> \<exists>pattern. token_grant pf now db tid slug pattern)"

definition may_write_ref ::
    "platform \<Rightarrow> datetime \<Rightarrow> database \<Rightarrow> authenticated_identity \<Rightarrow> project_slug \<Rightarrow> string \<Rightarrow> bool" where
  "may_write_ref pf now db x slug rname \<longleftrightarrow>
     (case aid_kind x of
        BootstrapAdmin \<Rightarrow> True
      | Oidc oidc \<Rightarrow> (oidc_ref_name oidc = None \<or> oidc_ref_name oidc = Some rname) \<and>
          (\<exists>provider repository pattern. aid_provider x = Some provider \<and> oidc_repository oidc = Some repository \<and>
             oidc_grant db provider repository slug pattern \<and>
             (pattern = None \<or> oidc_ref_name oidc \<noteq> None \<and> wild_matches pf (the pattern) rname))
      | AccessToken tid \<Rightarrow> \<exists>pattern. token_grant pf now db tid slug pattern \<and>
          (pattern = None \<or> wild_matches pf (the pattern) rname))"

lemma collect_res_ex:
  assumes "collect_res f xs = Inr ys"
  shows "(\<exists>y\<in>set ys. P y) \<longleftrightarrow> (\<exists>x\<in>set xs. \<exists>y. f x = Inr y \<and> P y)"
  using collect_res_mem[OF assms] collect_res_from[OF assms] by (metis sum.inject(2))

lemma slug_eq_parse: "parse_slug s = Inr slug' \<Longrightarrow> slug' = slug \<longleftrightarrow> s = slug_str slug"
  by (cases slug) (auto simp: parse_slug_def slug_parse_Inr)

lemma oidc_records_grant:
  assumes "list_matching_project_oidc_identities pf provider repository db = Inr recs"
  shows "(\<exists>b\<in>set recs. oid_project_slug b = slug \<and> P (oid_ref_pattern b)) \<longleftrightarrow>
    (\<exists>pattern. oidc_grant db provider repository slug pattern \<and> P pattern)"
proof -
  let ?rows = "oidc_rows (\<lambda>i. oi_provider i = provider \<and> oi_repository i = repository) db"
  from assms have c: "collect_res (\<lambda>(slug, i). oidc_into_record pf slug i) (order_by oidc_slug_order ?rows) = Inr recs"
    by (simp add: list_matching_project_oidc_identities_def)
  have conv: "(\<exists>b. oidc_into_record pf s i = Inr b \<and> oid_project_slug b = slug \<and> P (oid_ref_pattern b)) \<longleftrightarrow>
      s = slug_str slug \<and> P (pattern_option (oi_pattern i))" if row: "(s, i) \<in> set ?rows" for s i
  proof -
    from collect_res_mem[OF c, of "(s, i)"] row obtain b where b: "oidc_into_record pf s i = Inr b" by auto
    then have "parse_slug s = Inr (oid_project_slug b)" "oid_ref_pattern b = pattern_option (oi_pattern i)"
      by (auto simp: oidc_into_record_def)
    then show ?thesis using b slug_eq_parse by auto
  qed
  have "(\<exists>b\<in>set recs. oid_project_slug b = slug \<and> P (oid_ref_pattern b)) \<longleftrightarrow>
      (\<exists>(s, i)\<in>set ?rows. s = slug_str slug \<and> P (pattern_option (oi_pattern i)))"
    unfolding collect_res_ex[OF c] set_order_by by (intro bex_cong refl) (use conv in auto)
  also have "\<dots> \<longleftrightarrow> (\<exists>pattern. oidc_grant db provider repository slug pattern \<and> P pattern)"
    unfolding oidc_grant_def Bex_def split_paired_Ex case_prod_conv oidc_rows_iff by blast
  finally show ?thesis .
qed

lemma token_records_grant:
  assumes "list_active_access_token_records_by_id pf now tid db = Inr recs"
  shows "(\<exists>b\<in>set recs. atr_project_slug b = slug \<and> P (atr_ref_pattern b)) \<longleftrightarrow>
    (\<exists>pattern. token_grant pf now db tid slug pattern \<and> P pattern)"
proof -
  from assms obtain ts where ts: "rfc3339_format pf now = Some ts" and c: "collect_res (access_token_into_record pf)
      (order_by row_pattern (token_rows (\<lambda>t. at_id t = tid \<and> token_active ts t) db)) = Inr recs"
    by (auto simp: list_active_access_token_records_by_id_def)
  let ?rows = "token_rows (\<lambda>t. at_id t = tid \<and> token_active ts t) db"
  have conv: "(\<exists>b. access_token_into_record pf (t, s, q) = Inr b \<and> atr_project_slug b = slug \<and> P (atr_ref_pattern b)) \<longleftrightarrow>
      s = slug_str slug \<and> P (pattern_option q)" if row: "(t, s, q) \<in> set ?rows" for t s q
  proof -
    from collect_res_mem[OF c, of "(t, s, q)"] row obtain b where b: "access_token_into_record pf (t, s, q) = Inr b" by auto
    then have "parse_slug s = Inr (atr_project_slug b)" "atr_ref_pattern b = pattern_option q"
      by (auto simp: access_token_into_record_def)
    then show ?thesis using b slug_eq_parse by auto
  qed
  have "(\<exists>b\<in>set recs. atr_project_slug b = slug \<and> P (atr_ref_pattern b)) \<longleftrightarrow>
      (\<exists>(t, s, q)\<in>set ?rows. s = slug_str slug \<and> P (pattern_option q))"
    unfolding collect_res_ex[OF c] set_order_by by (intro bex_cong refl) (use conv in auto)
  also have "\<dots> \<longleftrightarrow> (\<exists>pattern. token_grant pf now db tid slug pattern \<and> P pattern)"
    unfolding token_grant_def Bex_def split_paired_Ex case_prod_conv token_rows_iff ts option.inject by blast
  finally show ?thesis .
qed

subsection \<open>Authorization is the policy\<close>

lemma ok_or_Inl: "ok_or e m = Inl e' \<longleftrightarrow> m = None \<and> e' = e"
  by (cases m) auto

lemma map_err_Inl: "map_err g m = Inl e' \<longleftrightarrow> (\<exists>e. m = Inl e \<and> e' = g e)"
  by (cases m) auto

lemma filter_Nil_iff: "filter p xs = [] \<longleftrightarrow> \<not> (\<exists>x\<in>set xs. p x)"
  by (auto simp: filter_empty_conv)

lemma oidc_project_iff:
  assumes "authorize_oidc_project pf x oidc slug db \<noteq> Inl ServiceUnavailable"
  shows "is_ok (authorize_oidc_project pf x oidc slug db) \<longleftrightarrow> (\<exists>provider repository pattern.
    aid_provider x = Some provider \<and> oidc_repository oidc = Some repository \<and> oidc_grant db provider repository slug pattern)"
proof (cases "matching_oidc_bindings pf x oidc db")
  case (Inl e)
  then show ?thesis using assms
    by (auto simp: authorize_oidc_project_def matching_oidc_bindings_def and_then_Inl is_ok_iff ok_or_Inl map_err_Inl
      split: option.splits)
next
  case (Inr recs)
  then obtain provider repository where r: "aid_provider x = Some provider" "oidc_repository oidc = Some repository"
    "list_matching_project_oidc_identities pf provider repository db = Inr recs"
    by (auto simp: matching_oidc_bindings_def)
  then show ?thesis using Inr oidc_records_grant[OF r(3), of slug "\<lambda>_. True"]
    by (auto simp: authorize_oidc_project_def Let_def is_ok_iff filter_Nil_iff)
qed

lemma oidc_ref_iff:
  assumes "authorize_oidc_project_ref pf x oidc slug rname db \<noteq> Inl ServiceUnavailable"
  shows "is_ok (authorize_oidc_project_ref pf x oidc slug rname db) \<longleftrightarrow>
    (oidc_ref_name oidc = None \<or> oidc_ref_name oidc = Some rname) \<and> (\<exists>provider repository pattern.
      aid_provider x = Some provider \<and> oidc_repository oidc = Some repository \<and>
      oidc_grant db provider repository slug pattern \<and>
      (pattern = None \<or> oidc_ref_name oidc \<noteq> None \<and> wild_matches pf (the pattern) rname))"
proof (cases "oidc_ref_name oidc = None \<or> oidc_ref_name oidc = Some rname")
  case False
  then show ?thesis by (auto simp: authorize_oidc_project_ref_def is_ok_iff)
next
  case ref: True
  then have m: "ref_pattern_matches pf pattern (oidc_ref_name oidc) \<longleftrightarrow>
      pattern = None \<or> oidc_ref_name oidc \<noteq> None \<and> wild_matches pf (the pattern) rname" for pattern
    by (auto simp: ref_pattern_matches_def split: option.splits)
  show ?thesis
  proof (cases "matching_oidc_bindings pf x oidc db")
    case (Inl e)
    then show ?thesis using assms ref
      by (auto simp: authorize_oidc_project_ref_def matching_oidc_bindings_def and_then_Inl is_ok_iff ok_or_Inl map_err_Inl)
  next
    case (Inr recs)
    then obtain provider repository where r: "aid_provider x = Some provider" "oidc_repository oidc = Some repository"
      "list_matching_project_oidc_identities pf provider repository db = Inr recs"
      by (auto simp: matching_oidc_bindings_def)
    have "is_ok (authorize_oidc_project_ref pf x oidc slug rname db) \<longleftrightarrow>
        (\<exists>b\<in>set recs. oid_project_slug b = slug \<and> ref_pattern_matches pf (oid_ref_pattern b) (oidc_ref_name oidc))"
      using ref Inr by (auto simp: authorize_oidc_project_ref_def Let_def is_ok_iff filter_Nil_iff)
    then show ?thesis using r ref oidc_records_grant[OF r(3), of slug
        "\<lambda>q. q = None \<or> oidc_ref_name oidc \<noteq> None \<and> wild_matches pf (the q) rname"] unfolding m by simp
  qed
qed

lemma token_project_iff:
  assumes "authorize_access_token_project pf now x tid slug db \<noteq> Inl ServiceUnavailable"
  shows "is_ok (authorize_access_token_project pf now x tid slug db) \<longleftrightarrow> (\<exists>pattern. token_grant pf now db tid slug pattern)"
proof (cases "list_active_access_token_records_by_id pf now tid db")
  case (Inl e)
  then show ?thesis using assms by (simp add: authorize_access_token_project_def active_access_token_records_def)
next
  case (Inr recs)
  then show ?thesis using token_records_grant[OF Inr, of slug "\<lambda>_. True"]
    by (auto simp: authorize_access_token_project_def active_access_token_records_def Let_def is_ok_iff filter_Nil_iff)
qed

lemma token_ref_iff:
  assumes "authorize_access_token_project_ref pf now x tid slug rname db \<noteq> Inl ServiceUnavailable"
  shows "is_ok (authorize_access_token_project_ref pf now x tid slug rname db) \<longleftrightarrow>
    (\<exists>pattern. token_grant pf now db tid slug pattern \<and> (pattern = None \<or> wild_matches pf (the pattern) rname))"
proof (cases "list_active_access_token_records_by_id pf now tid db")
  case (Inl e)
  then show ?thesis using assms by (simp add: authorize_access_token_project_ref_def active_access_token_records_def)
next
  case (Inr recs)
  have m: "ref_pattern_matches pf pattern (Some rname) \<longleftrightarrow> pattern = None \<or> wild_matches pf (the pattern) rname" for pattern
    by (auto simp: ref_pattern_matches_def split: option.splits)
  have "is_ok (authorize_access_token_project_ref pf now x tid slug rname db) \<longleftrightarrow>
      (\<exists>b\<in>set recs. atr_project_slug b = slug \<and> ref_pattern_matches pf (atr_ref_pattern b) (Some rname))"
    using Inr by (auto simp: authorize_access_token_project_ref_def active_access_token_records_def Let_def is_ok_iff filter_Nil_iff)
  then show ?thesis using token_records_grant[OF Inr, of slug "\<lambda>q. q = None \<or> wild_matches pf (the q) rname"]
    unfolding m by simp
qed

lemma authorize_project_iff:
  assumes "authorize_project pf now x slug db \<noteq> Inl ServiceUnavailable"
  shows "is_ok (authorize_project pf now x slug db) \<longleftrightarrow> may_write_project pf now db x slug"
  using assms oidc_project_iff token_project_iff
  by (cases "aid_kind x") (auto simp: authorize_project_def may_write_project_def is_ok_iff)

lemma authorize_ref_iff:
  assumes "authorize_project_ref pf now x slug rname db \<noteq> Inl ServiceUnavailable"
  shows "is_ok (authorize_project_ref pf now x slug rname db) \<longleftrightarrow> may_write_ref pf now db x slug rname"
proof (cases "aid_kind x")
  case (Oidc oidc)
  then show ?thesis using assms oidc_ref_iff[of pf x oidc slug rname db] by (simp add: authorize_project_ref_def may_write_ref_def)
next
  case (AccessToken tid)
  then show ?thesis using assms token_ref_iff[of pf now x tid slug rname db]
    by (simp add: authorize_project_ref_def may_write_ref_def)
qed (simp add: authorize_project_ref_def may_write_ref_def is_ok_iff)

text \<open>The principal that an authorization for a ref returns may write to this ref.\<close>

lemma patterns_match:
  assumes "xs \<noteq> []" "\<forall>x\<in>set xs. ref_pattern_matches pf (f x) (Some rname)"
    "ps = (if list_ex (\<lambda>x. f x = None) xs then [] else sorted_ref_patterns (List.map_filter f xs))"
  shows "ps = [] \<or> list_ex (\<lambda>q. wild_matches pf q rname) ps"
proof (cases "list_ex (\<lambda>x. f x = None) xs")
  case False
  from assms(1) have x: "hd xs \<in> set xs" by simp
  with False obtain q where q: "f (hd xs) = Some q" by (auto simp: list_ex_iff)
  then have "q \<in> set (List.map_filter f xs)" using x by (force simp: List.map_filter_def)
  moreover have "wild_matches pf q rname" using assms(2) x q by (force simp: ref_pattern_matches_def)
  ultimately show ?thesis using assms(3) False by (auto simp: sorted_ref_patterns_def list_ex_iff)
qed (use assms(3) in simp)

lemma principal_for_ref:
  assumes "authorize_project_ref pf now x slug rname db = Inr p"
  shows "apr_identity p = x \<and> require_project_ref pf p slug rname = Inr ()"
proof (cases "aid_kind x")
  case BootstrapAdmin
  then show ?thesis using assms by (auto simp: authorize_project_ref_def require_project_ref_def)
next
  case (Oidc oidc)
  then obtain recs where r: "oidc_ref_name oidc = None \<or> oidc_ref_name oidc = Some rname"
    and p: "let bs = filter (\<lambda>b. ref_pattern_matches pf (oid_ref_pattern b) (oidc_ref_name oidc))
        (filter (\<lambda>b. oid_project_slug b = slug) recs) in
      bs \<noteq> [] \<and> p = \<lparr>apr_identity = x, apr_scope = ProjectScope slug (ref_patterns_from_oidc_bindings bs)\<rparr>"
    using assms by (auto simp: authorize_project_ref_def authorize_oidc_project_ref_def Let_def split: if_splits)
  let ?bs = "filter (\<lambda>b. ref_pattern_matches pf (oid_ref_pattern b) (oidc_ref_name oidc))
    (filter (\<lambda>b. oid_project_slug b = slug) recs)"
  have "\<forall>b\<in>set ?bs. ref_pattern_matches pf (oid_ref_pattern b) (Some rname)"
    using r by (auto simp: ref_pattern_matches_def split: option.splits)
  from patterns_match[OF _ this ref_patterns_from_oidc_bindings_def] p show ?thesis
    by (auto simp: require_project_ref_def Let_def)
next
  case (AccessToken tid)
  then obtain recs where
    p: "let rs = filter (\<lambda>r. ref_pattern_matches pf (atr_ref_pattern r) (Some rname)) (filter (\<lambda>r. atr_project_slug r = slug) recs) in
      rs \<noteq> [] \<and> p = \<lparr>apr_identity = x, apr_scope = ProjectScope slug (ref_patterns_from_access_token_records rs)\<rparr>"
    using assms by (auto simp: authorize_project_ref_def authorize_access_token_project_ref_def Let_def split: if_splits)
  let ?rs = "filter (\<lambda>r. ref_pattern_matches pf (atr_ref_pattern r) (Some rname)) (filter (\<lambda>r. atr_project_slug r = slug) recs)"
  have "\<forall>r\<in>set ?rs. ref_pattern_matches pf (atr_ref_pattern r) (Some rname)" by simp
  from patterns_match[OF _ this ref_patterns_from_access_token_records_def] p show ?thesis
    by (auto simp: require_project_ref_def Let_def)
qed

text \<open>C4 (authorization). Unless a lookup fails, an authorization for a ref of a project succeeds exactly when
  the policy over the rows grants it: the bootstrap administrator; an OIDC identity that names no other ref, by
  a binding of its provider and repository to the project without a pattern or with one that its ref matches;
  an active access token of the project without a pattern or with one that the ref matches. The principal
  returned is this identity, and passes the check for this ref.\<close>

theorem authorization_is_policy:
  assumes "authorize_project_ref pf now x slug rname db \<noteq> Inl ServiceUnavailable"
  shows "(case authorize_project_ref pf now x slug rname db of
      Inr p \<Rightarrow> may_write_ref pf now db x slug rname \<and> apr_identity p = x \<and> require_project_ref pf p slug rname = Inr ()
    | Inl _ \<Rightarrow> \<not> may_write_ref pf now db x slug rname)"
  using authorize_ref_iff[OF assms] principal_for_ref
  by (cases "authorize_project_ref pf now x slug rname db") (auto simp: is_ok_iff)

subsection \<open>The authorizers of the server keep the contract\<close>

definition token_genuine ::
    "platform \<Rightarrow> (bytes \<Rightarrow> bytes) \<Rightarrow> (bytes \<Rightarrow> string) \<Rightarrow> datetime \<Rightarrow> database \<Rightarrow> string \<Rightarrow> authenticated_identity \<Rightarrow> bool" where
  "token_genuine pf sha256 hexenc now db token x \<longleftrightarrow>
     (\<exists>t\<in>set (db_tokens db). \<exists>ts. rfc3339_format pf now = Some ts \<and>
        at_token_hash t = hash_access_token sha256 hexenc token \<and> token_active ts t \<and>
        x = identity_access_token (at_id t) (''access-token:'' @ at_name t))"

lemma db_token_ok:
  assumes "db_access_token_authorizer pf sha256 hexenc now t db = (r, db')"
  shows "db' = db \<and> (\<forall>x. r = Inr x \<longrightarrow> (\<exists>tok. t = Some tok \<and> token_genuine pf sha256 hexenc now db tok x))"
proof (cases t)
  case None
  then show ?thesis using assms by (auto simp: db_access_token_authorizer_def bind_io_def pure_io_def)
next
  case (Some tok)
  let ?q = "list_active_access_token_records_by_token pf sha256 hexenc now tok db"
  show ?thesis
  proof (cases ?q)
    case (Inl e)
    then show ?thesis using assms Some by (auto simp: db_access_token_authorizer_def bind_io_def pure_io_def query_io_def)
  next
    case (Inr recs)
    show ?thesis
    proof (cases recs)
      case Nil
      then show ?thesis using assms Some Inr
        by (auto simp: db_access_token_authorizer_def bind_io_def pure_io_def query_io_def fail_io_def)
    next
      case (Cons a as)
      from Inr obtain ts where ts: "rfc3339_format pf now = Some ts" and c: "collect_res (access_token_into_record pf)
          (order_by row_pattern (token_rows (\<lambda>t. at_token_hash t = hash_access_token sha256 hexenc tok \<and> token_active ts t) db))
            = Inr recs"
        by (auto simp: list_active_access_token_records_by_token_def Let_def)
      from collect_res_from[OF c, of a] Cons obtain row s q where row: "(row, s, q) \<in> set (token_rows
          (\<lambda>t. at_token_hash t = hash_access_token sha256 hexenc tok \<and> token_active ts t) db)"
        "access_token_into_record pf (row, s, q) = Inr a" by auto
      then have "row \<in> set (db_tokens db)" "at_token_hash row = hash_access_token sha256 hexenc tok" "token_active ts row"
        "atr_id a = at_id row" "atr_name a = at_name row"
        by (auto simp: token_rows_iff access_token_into_record_def)
      then have "token_genuine pf sha256 hexenc now db tok (identity_access_token (atr_id a) (''access-token:'' @ atr_name a))"
        unfolding token_genuine_def using ts by auto
      then show ?thesis using assms Some Inr Cons
        by (auto simp: db_access_token_authorizer_def bind_io_def pure_io_def query_io_def return_io_def)
    qed
  qed
qed

interpretation db_token: authorizer "db_access_token_authorizer pf sha256 hexenc now"
  "token_genuine pf sha256 hexenc now" "\<lambda>db. True" "\<lambda>db. db" for pf sha256 hexenc now
  by unfold_locales (use db_token_ok in simp)

text \<open>What a bearer token vouches for at a server: the configured write token for the administrator, a
  verified OIDC token for its identity, an active access token of the database for itself.\<close>

definition default_genuine ::
    "platform \<Rightarrow> 'j jwt_library \<Rightarrow> 's oidc_http_client \<Rightarrow> string option \<Rightarrow> oidc_config option \<Rightarrow> string \<Rightarrow>
     authenticated_identity \<Rightarrow> bool" where
  "default_genuine pf jl http write_token oidc tok x \<longleftrightarrow>
     write_token = Some tok \<and> x = bootstrap_admin \<or>
     (\<exists>config. oidc = Some config \<and> oidc_genuine pf jl http config tok x)"

definition default_inv ::
    "'j jwt_library \<Rightarrow> 's oidc_http_client \<Rightarrow> oidc_config option \<Rightarrow> 'j oidc_cache \<times> 's \<Rightarrow> bool" where
  "default_inv jl http oidc o' = (case oidc of None \<Rightarrow> True | Some config \<Rightarrow> cache_ok jl http config (fst o'))"

lemma authorizer_still:
  assumes "authorizer a g (\<lambda>s. True) (\<lambda>s. s)" "\<And>s tok x. g s tok x \<Longrightarrow> g' (k s) tok x"
  shows "authorizer a g' i k"
proof (rule authorizer.intro)
  fix s t r s' assume i: "i s" and a: "a t s = (r, s')"
  note l = authorizer.authorized[OF assms(1) TrueI a]
  have "\<exists>tok. t = Some tok \<and> g' (k s) tok x" if "r = Inr x" for x using l assms(2)[of s _ x] that by auto
  then show "i s' \<and> k s' = k s \<and> (\<forall>x. r = Inr x \<longrightarrow> (\<exists>tok. t = Some tok \<and> g' (k s) tok x))" using l i by simp
qed

lemma authorizer_left:
  assumes "authorizer a (\<lambda>_. g) i (\<lambda>_. ())"
  shows "authorizer (\<lambda>t. on_left (a t)) (\<lambda>_. g) (\<lambda>s. i (fst s)) snd"
proof (rule authorizer.intro)
  fix s t r s' assume i: "i (fst s)" and a: "on_left (a t) s = (r, s')"
  then have "a t (fst s) = (r, fst s')" "snd s' = snd s" by (auto simp: on_left_def split: prod.splits)
  with authorizer.authorized[OF assms i this(1)]
  show "i (fst s') \<and> snd s' = snd s \<and> (\<forall>x. r = Inr x \<longrightarrow> (\<exists>tok. t = Some tok \<and> g tok x))" by simp
qed

lemma db_token_lifted:
  "authorizer (\<lambda>t. on_right (on_left (db_access_token_authorizer pf sha256 hexenc now t)))
    (\<lambda>(a, db, w). token_genuine pf sha256 hexenc now db) (\<lambda>s. True) (\<lambda>s. s)"
proof (rule authorizer.intro)
  fix s t r s' assume a: "on_right (on_left (db_access_token_authorizer pf sha256 hexenc now t)) s = (r, s')"
  obtain o' db w where s: "s = (o', db, w)" by (cases s)
  from a s obtain db' where "db_access_token_authorizer pf sha256 hexenc now t db = (r, db')" "s' = (o', db', w)"
    by (auto simp: on_right_def on_left_def split: prod.splits)
  with db_token_ok[OF this(1)] s
  show "True \<and> s' = s \<and> (\<forall>x. r = Inr x \<longrightarrow> (\<exists>tok. t = Some tok \<and>
      (case s of (a, db, w) \<Rightarrow> token_genuine pf sha256 hexenc now db) tok x))" by simp
qed

lemma default_sound:
  assumes "\<forall>config. oidc = Some config \<longrightarrow> distinct (map fst (oc_providers config))"
  shows "authorizer (build_default_authorizer pf jl http write_token oidc)
    (\<lambda>_. default_genuine pf jl http write_token oidc) (default_inv jl http oidc) (\<lambda>_. ())"
proof -
  have st: "authorizer (static_token_authorizer write_token)
      (\<lambda>_. default_genuine pf jl http write_token oidc) (default_inv jl http oidc) (\<lambda>_. ())"
    by (rule authorizer_still[OF static_token.authorizer_axioms[of write_token "\<lambda>s. s"]])
      (auto simp: static_genuine_def default_genuine_def)
  have oi: "authorizer (oidc_authorizer pf jl http config)
      (\<lambda>_. default_genuine pf jl http write_token oidc) (default_inv jl http oidc) (\<lambda>_. ())" if "oidc = Some config" for config
  proof -
    have "authorizer (oidc_authorizer pf jl http config) (\<lambda>_. oidc_genuine pf jl http config)
        (\<lambda>s. cache_ok jl http config (fst s)) (\<lambda>s. ())"
      by (rule oidc_is_authorizer) (use assms that in \<open>simp_all add: keeps_def\<close>)
    moreover have "(\<lambda>s. cache_ok jl http config (fst s)) = default_inv jl http oidc"
      by (rule ext) (simp add: default_inv_def that)
    ultimately have "authorizer (oidc_authorizer pf jl http config) (\<lambda>_. oidc_genuine pf jl http config)
        (default_inv jl http oidc) (\<lambda>_. ())" by simp
    then show ?thesis by (rule authorizer_mono) (auto simp: default_genuine_def that)
  qed
  show ?thesis unfolding build_default_authorizer_def
    by (rule chain_sound) (use st oi in \<open>auto split: option.splits\<close>)
qed

lemma server_sound:
  assumes "\<forall>config. oidc = Some config \<longrightarrow> distinct (map fst (oc_providers config))"
  shows "authorizer (build_write_authorizer pf sha256 hexenc now (build_default_authorizer pf jl http write_token oidc))
    (\<lambda>c tok x. default_genuine pf jl http write_token oidc tok x \<or> token_genuine pf sha256 hexenc now (fst c) tok x)
    (\<lambda>s. default_inv jl http oidc (fst s)) snd"
proof -
  let ?g = "\<lambda>c tok x. default_genuine pf jl http write_token oidc tok x \<or> token_genuine pf sha256 hexenc now (fst c) tok x"
  have "authorizer (\<lambda>t. on_left (build_default_authorizer pf jl http write_token oidc t)) ?g
      (\<lambda>s. default_inv jl http oidc (fst s)) snd"
    by (rule authorizer_mono[OF authorizer_left[OF default_sound[OF assms]]]) simp
  moreover have "authorizer (\<lambda>t. on_right (on_left (db_access_token_authorizer pf sha256 hexenc now t))) ?g
      (\<lambda>s. default_inv jl http oidc (fst s)) snd"
    by (rule authorizer_still[OF db_token_lifted]) auto
  ultimately show ?thesis unfolding build_write_authorizer_def by (intro chain_sound) simp
qed

end
