(* ===== verification/DbKeys.thy ===== *)
theory DbKeys
  imports DbTokens
begin

text \<open>
  \<^verbatim>\<open>crates/depot-db/src/project_signing_keys.rs\<close>: the signing keys of the projects. A stored key is
  the encrypted text of the key with the project and the name as associated data; a project has at
  most one key that is not retired. The crates of \<open>Signing\<close> are bundled in a record; random
  bytes, ids and the moment are arguments.
\<close>

record 'k crypto =
  cr_codec :: base64_codec
  cr_ed :: "'k ed25519"
  cr_aead :: aead

definition crypto_ok :: "'k crypto \<Rightarrow> bool" where
  "crypto_ok cr \<longleftrightarrow> codec_ok (cr_codec cr) \<and> ed25519_ok (cr_ed cr) \<and> aead_ok (cr_aead cr)"

definition project_signing_key_aad :: "project_slug \<Rightarrow> string \<Rightarrow> string" where
  "project_signing_key_aad project key_name =
     ''project-signing-key:'' @ slug_str project @ '':'' @ key_name"

definition active_project_signing_key_record ::
    "platform \<Rightarrow> project_slug \<Rightarrow> database \<Rightarrow> anyhow + signing_key_record option" where
  "active_project_signing_key_record pf project db =
     transpose_res (\<lambda>(k, p). signing_key_into_record pf (prow_slug p) k)
       (fetch_optional (\<lambda>(k, p). prow_slug p = slug_str project \<and> sk_retired_at k = None)
         (concat (map (\<lambda>k. map (\<lambda>p. (k, p)) (filter (\<lambda>p. prow_id p = sk_project k) (db_projects db)))
           (db_keys db))))"

definition active_project_signing_key_public ::
    "platform \<Rightarrow> project_slug \<Rightarrow> database \<Rightarrow> anyhow + string option" where
  "active_project_signing_key_public pf project db =
     and_then (active_project_signing_key_record pf project db) (\<lambda>r. Inr (map_option psk_public r))"

definition active_project_signing_key ::
    "platform \<Rightarrow> 'k crypto \<Rightarrow> project_slug \<Rightarrow> key_encryption_key \<Rightarrow> database \<Rightarrow>
     anyhow + 'k named_signing_key option" where
  "active_project_signing_key pf cr project kek db =
     and_then (active_project_signing_key_record pf project db) (\<lambda>found.
     case found of None \<Rightarrow> Inr None
     | Some r \<Rightarrow>
         let aad = project_signing_key_aad (psk_project_slug r) (psk_name r) in
         and_then (context_err ''decrypting project signing key'' (kek_decrypt (cr_codec cr) (cr_aead cr) kek
           \<lparr>esk_ciphertext = psk_encrypted r, esk_nonce = psk_nonce r\<rparr> aad)) (\<lambda>private_key_text.
         and_then (context_err ''parsing decrypted project signing key''
           (signing_key_parse (cr_codec cr) (cr_ed cr) private_key_text)) (\<lambda>key. Inr (Some key))))"

definition next_project_signing_key_name :: "project_slug \<Rightarrow> database \<Rightarrow> anyhow + string" where
  "next_project_signing_key_name project db =
     and_then (project_id_by_slug project db) (\<lambda>project_id.
     let count = length (filter (\<lambda>k. sk_project k = project_id) (db_keys db)) in
     Inr (slug_str project @ ''-'' @ show_nat (count + 1)))"

text \<open>In one transaction the active key is retired and the new one inserted. The partial unique index
  allows one row that is not retired for each project.\<close>

definition replace_project_signing_key ::
    "platform \<Rightarrow> 'k crypto \<Rightarrow> datetime \<Rightarrow> uuid \<Rightarrow> string + bytes \<Rightarrow> project_slug \<Rightarrow> 'k named_signing_key \<Rightarrow>
     key_encryption_key \<Rightarrow> string db_op" where
  "replace_project_signing_key pf cr now fresh nonce project key kek =
     bind_io (query_io (project_id_by_slug project)) (\<lambda>project_id.
     let name = nk_name key;
         public_key = public_key_text (cr_codec cr) (cr_ed cr) key;
         private_key_text = private_key_text (cr_codec cr) (cr_ed cr) key;
         aad = project_signing_key_aad project name in
     bind_io (pure_io (context_err ''encrypting project signing key''
         (kek_encrypt (cr_codec cr) (cr_aead cr) nonce kek private_key_text aad))) (\<lambda>encrypted.
     bind_io (tx_io (\<lambda>db.
       let retired = update_rows (\<lambda>k. sk_project k = project_id \<and> sk_retired_at k = None)
             (\<lambda>k. k\<lparr>sk_retired_at := Some (sql_now pf now)\<rparr>) (db_keys db) in
       if has_key sk_id fresh retired \<or>
          list_ex (\<lambda>k. sk_project k = project_id \<and> sk_retired_at k = None) retired
       then Inl (Anyhow ''inserting project signing key'')
       else and_then (foreign_key (has_key prow_id project_id (db_projects db))) (\<lambda>_.
         Inr ((), db\<lparr>db_keys := retired @ [\<lparr>sk_id = fresh, sk_project = project_id, sk_name = name,
           sk_public = public_key, sk_encrypted = esk_ciphertext encrypted, sk_nonce = esk_nonce encrypted,
           sk_created_at = sql_now pf now, sk_retired_at = None\<rparr>]\<rparr>)))) (\<lambda>_.
     return_io public_key)))"

definition generate_project_signing_key ::
    "platform \<Rightarrow> 'k crypto \<Rightarrow> datetime \<Rightarrow> uuid \<Rightarrow> string + bytes \<Rightarrow> string + bytes \<Rightarrow> project_slug \<Rightarrow>
     string option \<Rightarrow> key_encryption_key \<Rightarrow> string db_op" where
  "generate_project_signing_key pf cr now fresh seed nonce project name kek =
     bind_io (case name of
         Some name \<Rightarrow> if trim name \<noteq> [] then return_io (trim name)
           else query_io (next_project_signing_key_name project)
       | None \<Rightarrow> query_io (next_project_signing_key_name project)) (\<lambda>name.
     bind_io (pure_io (context_err ''generating project signing key''
         (signing_key_generate (cr_ed cr) seed name))) (\<lambda>signing_key.
     replace_project_signing_key pf cr now fresh nonce project signing_key kek))"

definition import_project_signing_key ::
    "platform \<Rightarrow> 'k crypto \<Rightarrow> datetime \<Rightarrow> uuid \<Rightarrow> string + bytes \<Rightarrow> project_slug \<Rightarrow> 'k named_signing_key \<Rightarrow>
     key_encryption_key \<Rightarrow> string db_op" where
  "import_project_signing_key pf cr now fresh nonce project key kek =
     replace_project_signing_key pf cr now fresh nonce project key kek"

definition ensure_project_signing_key ::
    "platform \<Rightarrow> 'k crypto \<Rightarrow> datetime \<Rightarrow> uuid \<Rightarrow> string + bytes \<Rightarrow> string + bytes \<Rightarrow> project_slug \<Rightarrow>
     key_encryption_key \<Rightarrow> string db_op" where
  "ensure_project_signing_key pf cr now fresh seed nonce project kek =
     bind_io (query_io (active_project_signing_key_public pf project)) (\<lambda>found.
     case found of Some public_key \<Rightarrow> return_io public_key
     | None \<Rightarrow> generate_project_signing_key pf cr now fresh seed nonce project None kek)"

subsection \<open>The active key\<close>

lemma replace_key_Inr:
  assumes "replace_project_signing_key pf cr now fresh nonce project key kek db = (Inr pub, db')"
  obtains p enc where "find_project project db = Some p"
    "kek_encrypt (cr_codec cr) (cr_aead cr) nonce kek (private_key_text (cr_codec cr) (cr_ed cr) key)
       (project_signing_key_aad project (nk_name key)) = Inr enc"
    "pub = public_key_text (cr_codec cr) (cr_ed cr) key"
    "\<not> has_key sk_id fresh (db_keys db)"
    "db_keys db' = update_rows (\<lambda>k. sk_project k = prow_id p \<and> sk_retired_at k = None)
         (\<lambda>k. k\<lparr>sk_retired_at := Some (sql_now pf now)\<rparr>) (db_keys db) @
       [\<lparr>sk_id = fresh, sk_project = prow_id p, sk_name = nk_name key, sk_public = pub,
         sk_encrypted = esk_ciphertext enc, sk_nonce = esk_nonce enc, sk_created_at = sql_now pf now,
         sk_retired_at = None\<rparr>]"
    "db' = db\<lparr>db_keys := db_keys db'\<rparr>"
proof -
  from assms obtain p enc where "find_project project db = Some p"
    "kek_encrypt (cr_codec cr) (cr_aead cr) nonce kek (private_key_text (cr_codec cr) (cr_ed cr) key)
       (project_signing_key_aad project (nk_name key)) = Inr enc"
    "pub = public_key_text (cr_codec cr) (cr_ed cr) key"
    "\<not> has_key sk_id fresh (update_rows (\<lambda>k. sk_project k = prow_id p \<and> sk_retired_at k = None)
         (\<lambda>k. k\<lparr>sk_retired_at := Some (sql_now pf now)\<rparr>) (db_keys db))"
    "db' = db\<lparr>db_keys := update_rows (\<lambda>k. sk_project k = prow_id p \<and> sk_retired_at k = None)
         (\<lambda>k. k\<lparr>sk_retired_at := Some (sql_now pf now)\<rparr>) (db_keys db) @
       [\<lparr>sk_id = fresh, sk_project = prow_id p, sk_name = nk_name key, sk_public = pub,
         sk_encrypted = esk_ciphertext enc, sk_nonce = esk_nonce enc, sk_created_at = sql_now pf now,
         sk_retired_at = None\<rparr>]\<rparr>"
    by (auto simp: replace_project_signing_key_def Let_def bind_io_Inr project_id_by_slug_Inr split: if_splits)
  moreover have "has_key sk_id fresh (update_rows (\<lambda>k. sk_project k = prow_id p \<and> sk_retired_at k = None)
         (\<lambda>k. k\<lparr>sk_retired_at := Some (sql_now pf now)\<rparr>) (db_keys db)) = has_key sk_id fresh (db_keys db)"
    by (simp only: has_key_iff set_map[symmetric] map_update_key[of _ _ sk_id]) (simp add: map_update_key)
  ultimately show ?thesis using that[of p enc] by simp
qed

lemma retired_rows:
  assumes "k \<in> set (update_rows (\<lambda>k. sk_project k = i \<and> sk_retired_at k = None)
         (\<lambda>k. k\<lparr>sk_retired_at := Some n\<rparr>) ks)" "sk_retired_at k = None"
  shows "k \<in> set ks \<and> sk_project k \<noteq> i"
  using assms(1) by (cases rule: update_rows_cases) (use assms(2) in auto)

definition unique_projects :: "database \<Rightarrow> bool" where
  "unique_projects db \<longleftrightarrow> unique_key prow_id (db_projects db) \<and> unique_key prow_slug (db_projects db)"

text \<open>The row just inserted is the one that the lookup of the active key finds.\<close>

lemma find_concat_none: "(\<And>x y. x \<in> set xs \<Longrightarrow> y \<in> set (f x) \<Longrightarrow> \<not> q y) \<Longrightarrow> find q (concat (map f xs)) = None"
  by (auto simp: find_None_iff)

lemma find_filter: "find q (filter r xs) = find (\<lambda>x. r x \<and> q x) xs"
  by (induction xs) auto

lemma find_map_pair: "find q (map f xs) = map_option f (find (q \<circ> f) xs)"
  by (induction xs) auto

lemma replaced_key_lookup:
  assumes "replace_project_signing_key pf cr now fresh nonce project key kek db = (Inr pub, db')"
    "unique_projects db"
  obtains p enc where "find_project project db = Some p"
    "kek_encrypt (cr_codec cr) (cr_aead cr) nonce kek (private_key_text (cr_codec cr) (cr_ed cr) key)
       (project_signing_key_aad project (nk_name key)) = Inr enc"
    "active_project_signing_key_record pf project db' = transpose_res (signing_key_into_record pf (prow_slug p))
       (Some \<lparr>sk_id = fresh, sk_project = prow_id p, sk_name = nk_name key, sk_public = pub,
         sk_encrypted = esk_ciphertext enc, sk_nonce = esk_nonce enc, sk_created_at = sql_now pf now,
         sk_retired_at = None\<rparr>)"
proof -
  from assms(1) obtain p enc where p: "find_project project db = Some p" and
    enc: "kek_encrypt (cr_codec cr) (cr_aead cr) nonce kek (private_key_text (cr_codec cr) (cr_ed cr) key)
       (project_signing_key_aad project (nk_name key)) = Inr enc" and
    ks: "db_keys db' = update_rows (\<lambda>k. sk_project k = prow_id p \<and> sk_retired_at k = None)
         (\<lambda>k. k\<lparr>sk_retired_at := Some (sql_now pf now)\<rparr>) (db_keys db) @
       [\<lparr>sk_id = fresh, sk_project = prow_id p, sk_name = nk_name key, sk_public = pub,
         sk_encrypted = esk_ciphertext enc, sk_nonce = esk_nonce enc, sk_created_at = sql_now pf now,
         sk_retired_at = None\<rparr>]" and db': "db' = db\<lparr>db_keys := db_keys db'\<rparr>"
    by (rule replace_key_Inr)
  let ?q = "\<lambda>(k :: signing_key_row, p :: project_row). prow_slug p = slug_str project \<and> sk_retired_at k = None"
  let ?f = "\<lambda>k. map (\<lambda>p. (k, p)) (filter (\<lambda>p. prow_id p = sk_project k) (db_projects db))"
  define row where "row = \<lparr>sk_id = fresh, sk_project = prow_id p, sk_name = nk_name key, sk_public = pub,
         sk_encrypted = esk_ciphertext enc, sk_nonce = esk_nonce enc, sk_created_at = sql_now pf now,
         sk_retired_at = None\<rparr>"
  define old where "old = update_rows (\<lambda>k. sk_project k = prow_id p \<and> sk_retired_at k = None)
         (\<lambda>k. k\<lparr>sk_retired_at := Some (sql_now pf now)\<rparr>) (db_keys db)"
  have pp: "p \<in> set (db_projects db)" "prow_slug p = slug_str project" using find_project_Some[OF p] by simp_all
  have same: "x = p" if "x \<in> set (db_projects db)" "prow_slug x = slug_str project" for x
    using unique_inj[of prow_slug "db_projects db" x p] assms(2) pp that by (simp add: unique_projects_def)
  have "find ?q (concat (map ?f old)) = None"
  proof (rule find_concat_none)
    fix k y assume k: "k \<in> set old" "y \<in> set (?f k)"
    then obtain x where x: "y = (k, x)" "x \<in> set (db_projects db)" "prow_id x = sk_project k" by auto
    show "\<not> ?q y"
    proof
      assume "?q y"
      then have "x = p" "sk_retired_at k = None" using same x by simp_all
      moreover have "sk_project k \<noteq> prow_id p"
        using retired_rows[OF k(1)[unfolded old_def]] \<open>sk_retired_at k = None\<close> by simp
      ultimately show False using x(3) by simp
    qed
  qed
  moreover have "find ?q (?f row) = Some (row, p)"
  proof -
    have "find (\<lambda>x. prow_id x = prow_id p \<and> prow_slug x = slug_str project) (db_projects db) = Some p"
    proof (cases "find (\<lambda>x. prow_id x = prow_id p \<and> prow_slug x = slug_str project) (db_projects db)")
      case None
      then show ?thesis using pp by (auto simp: find_None_iff)
    next
      case (Some x)
      then have "x \<in> set (db_projects db)" "prow_slug x = slug_str project" by (auto simp: find_Some_iff)
      then show ?thesis using Some same by simp
    qed
    then show ?thesis by (simp add: find_map_pair find_filter comp_def row_def)
  qed
  ultimately have "fetch_optional ?q (concat (map ?f (old @ [row]))) = Some (row, p)"
    by (simp add: fetch_optional_def find_append)
  moreover have "db_keys db' = old @ [row]" "db_projects db' = db_projects db"
    using ks arg_cong[OF db', of db_projects] by (simp_all add: old_def row_def)
  ultimately have "active_project_signing_key_record pf project db' =
      transpose_res (signing_key_into_record pf (prow_slug p)) (Some row)"
    by (simp add: active_project_signing_key_record_def)
  then show ?thesis using that[OF p enc] by (simp add: row_def)
qed


text \<open>(names with a colon). The key of a project can be generated under a name with a colon, but the
  text that is stored is cut at the first colon when it is loaded: the project never signs with the
  key under its name again.\<close>

theorem colon_key_lost:
  assumes "generate_project_signing_key pf cr now fresh seed (Inr nonce) project (Some name) kek db = (Inr pub, db')"
    "CHR '':'' \<in> set (trim name)" "trim name \<noteq> []" "unique_projects db" "crypto_ok cr" "length nonce = 12"
    "active_project_signing_key pf cr project kek db' = Inr (Some key)"
  shows "nk_name key \<noteq> trim name"
proof -
  let ?c = "cr_codec cr" and ?ed = "cr_ed cr"
  from assms(1,3) obtain k where gen: "signing_key_generate ?ed seed (trim name) = Inr k" and
    rep: "replace_project_signing_key pf cr now fresh (Inr nonce) project k kek db = (Inr pub, db')"
    by (auto simp: generate_project_signing_key_def bind_io_Inr)
  have k: "nk_name k = trim name" using gen by (auto simp: signing_key_generate_def Let_def split: if_splits)
  from replaced_key_lookup[OF rep assms(4)] obtain p enc where p: "find_project project db = Some p" and
    enc: "kek_encrypt ?c (cr_aead cr) (Inr nonce) kek (private_key_text ?c ?ed k)
       (project_signing_key_aad project (nk_name k)) = Inr enc" and
    rec: "active_project_signing_key_record pf project db' = transpose_res (signing_key_into_record pf (prow_slug p))
       (Some \<lparr>sk_id = fresh, sk_project = prow_id p, sk_name = nk_name k, sk_public = pub,
         sk_encrypted = esk_ciphertext enc, sk_nonce = esk_nonce enc, sk_created_at = sql_now pf now,
         sk_retired_at = None\<rparr>)" .
  from assms(7) rec obtain pt where
    pt: "signing_key_parse ?c ?ed pt = Inr key"
    "kek_decrypt ?c (cr_aead cr) kek \<lparr>esk_ciphertext = esk_ciphertext enc, esk_nonce = esk_nonce enc\<rparr>
       (project_signing_key_aad project (nk_name k)) = Inr pt"
    using find_project_Some[OF p]
    by (auto simp: active_project_signing_key_def signing_key_into_record_def parse_slug_def slug_parse_Inr
        Let_def project_slug.expand)
  have eta: "\<lparr>esk_ciphertext = esk_ciphertext enc, esk_nonce = esk_nonce enc\<rparr> = enc" by (cases enc) simp
  obtain ct where "aead_encrypt (cr_aead cr) (kek_bytes kek) nonce (into_bytes (private_key_text ?c ?ed k))
      (into_bytes (project_signing_key_aad project (nk_name k))) = Some ct"
    "enc = \<lparr>esk_ciphertext = b64_encode ?c ct, esk_nonce = b64_encode ?c nonce\<rparr>"
    using enc by (auto simp: kek_encrypt_def)
  then have "pt = private_key_text ?c ?ed k"
    using pt(2)[unfolded eta] assms(5,6)
    by (auto simp: kek_decrypt_def crypto_ok_def codec_ok_def aead_ok_def from_utf8_def split: if_splits)
  then obtain a b where ab: "split_once (CHR '':'') (private_key_text ?c ?ed k) = Some (a, b)" "nk_name key = trim a"
    using pt(1) by (auto simp: signing_key_parse_def Let_def split: if_splits)
  then have "CHR '':'' \<notin> set (nk_name key)" using trim_set[of a] by (auto simp: split_once_Some)
  then show ?thesis using assms(2) by auto
qed

subsection \<open>Instances\<close>

definition toy_crypto :: "bool crypto" where
  "toy_crypto = \<lparr>cr_codec = hex_codec, cr_ed = toy_ed25519, cr_aead = plain_aead\<rparr>"

lemma toy_crypto_ok: "crypto_ok toy_crypto"
  using hex_codec_ok toy_ed25519_ok plain_aead_ok by (simp add: crypto_ok_def toy_crypto_def)

definition sample_kek :: key_encryption_key where
  "sample_kek = KeyEncryptionKey (replicate 32 0)"

lemma demo_projects: "unique_projects demo_db"
  by (simp add: unique_projects_def unique_key_def demo_db_def)

lemma demo_found: "find_project demo demo_db = Some demo_project" "prow_id demo_project = ''p1''"
  by code_simp+

lemma demo_slug: "prow_slug demo_project = ''demo''"
  by (simp add: demo_project_def)

lemma hex_digits: "c \<in> set (hex_encode bs) \<Longrightarrow> 65 \<le> byte_of c \<and> byte_of c < 81"
proof (induction bs)
  case (Cons b bs)
  have "unat b < 2 ^ LENGTH(8)" by (rule unsigned_less)
  then have "unat b div 16 < 16" by (simp add: less_mult_imp_div_less)
  then show ?case using Cons by (auto simp: hex_digit_byte)
qed simp

text \<open>Storing a first key for the project of the sample database succeeds.\<close>

lemma demo_replace:
  assumes "b64_encode (cr_codec cr) = hex_encode" "cr_aead cr = plain_aead"
  shows "\<exists>db'. replace_project_signing_key pf cr now fresh (Inr nonce) demo key kek demo_db =
    (Inr (public_key_text (cr_codec cr) (cr_ed cr) key), db')"
proof -
  have t: "db_keys demo_db = []" "has_key prow_id ''p1'' (db_projects demo_db)" by code_simp+
  obtain enc where "kek_encrypt (cr_codec cr) (cr_aead cr) (Inr nonce) kek
      (private_key_text (cr_codec cr) (cr_ed cr) key) (project_signing_key_aad demo (nk_name key)) = Inr enc"
    by (simp add: kek_encrypt_def assms plain_aead_def)
  then show ?thesis
    using t demo_found
    by (simp add: replace_project_signing_key_def bind_io_def query_io_def pure_io_def tx_io_def return_io_def
        project_id_by_slug_def Let_def update_rows_def has_key_def context_err_def foreign_key_def)
qed

lemma ascii_private: "b64_encode c = hex_encode \<Longrightarrow> ascii (nk_name k) \<Longrightarrow> ascii (private_key_text c ed k)"
  using hex_digits by (fastforce simp: private_key_text_def ascii_def list_all_iff)

lemma toy_aead: "cr_aead toy_crypto = plain_aead"
  by (simp add: toy_crypto_def)


text \<open>A codec for which a text with a colon happens to decode, so that the lost name can be seen.\<close>

definition loose_codec :: base64_codec where
  "loose_codec = \<lparr>b64_encode = hex_encode,
     b64_decode = (\<lambda>s. if CHR '':'' \<in> set s then Inr (replicate 32 1) else hex_decode s),
     b64_decode_no_pad = hex_decode\<rparr>"

definition loose_crypto :: "bool crypto" where
  "loose_crypto = \<lparr>cr_codec = loose_codec, cr_ed = toy_ed25519, cr_aead = plain_aead\<rparr>"

lemma loose_crypto_ok: "crypto_ok loose_crypto"
proof -
  have n: "CHR '':'' \<notin> set (hex_encode bs)" for bs
    using hex_digits[of "CHR '':''" bs] by auto
  have "codec_ok loose_codec" using hex_codec_ok n by (simp add: codec_ok_def loose_codec_def hex_codec_def)
  then show ?thesis using toy_ed25519_ok plain_aead_ok by (simp add: crypto_ok_def loose_crypto_def)
qed

theorem colon_key_lost_witness:
  "\<exists>key :: bool named_signing_key. nk_name key = ''a'' \<and> nk_name key \<noteq> trim ''a:b''"
proof -
  have c: "b64_encode (cr_codec loose_crypto) = hex_encode" "cr_aead loose_crypto = plain_aead"
    "cr_ed loose_crypto = toy_ed25519" by (simp_all add: loose_crypto_def loose_codec_def)
  let ?k = "\<lparr>nk_name = ''a:b'', nk_key = True\<rparr>"
  obtain pub db' where r: "replace_project_signing_key std_platform loose_crypto 5 ''k1''
      (Inr (replicate 12 0)) demo ?k sample_kek demo_db = (Inr pub, db')"
    using demo_replace[OF c(1,2)] by metis
  have t: "trim ''a:b'' = ''a:b''" "ascii (nk_name ?k)" "slug_parse ''demo'' = Inr demo" by code_simp+
  have gen: "signing_key_generate (cr_ed loose_crypto) (Inr (replicate 32 1)) ''a:b'' = Inr ?k"
    using t(1) by (simp add: signing_key_generate_def loose_crypto_def toy_ed25519_def)
  have g: "generate_project_signing_key std_platform loose_crypto 5 ''k1'' (Inr (replicate 32 1))
      (Inr (replicate 12 0)) demo (Some ''a:b'') sample_kek demo_db = (Inr pub, db')"
    using r t gen by (simp add: generate_project_signing_key_def bind_io_def return_io_def pure_io_def context_err_def)
  from replaced_key_lookup[OF r demo_projects] obtain p enc where
    p: "find_project demo demo_db = Some p" and
    enc: "kek_encrypt (cr_codec loose_crypto) (cr_aead loose_crypto) (Inr (replicate 12 0)) sample_kek
       (private_key_text (cr_codec loose_crypto) (cr_ed loose_crypto) ?k)
       (project_signing_key_aad demo (nk_name ?k)) = Inr enc" and
    rec: "active_project_signing_key_record std_platform demo db' =
       transpose_res (signing_key_into_record std_platform (prow_slug p)) (Some \<lparr>sk_id = ''k1'',
         sk_project = prow_id p, sk_name = nk_name ?k, sk_public = pub, sk_encrypted = esk_ciphertext enc,
         sk_nonce = esk_nonce enc, sk_created_at = sql_now std_platform 5, sk_retired_at = None\<rparr>)" .
  have slug: "prow_slug p = ''demo''" using p demo_found demo_slug by simp
  have eta: "\<lparr>esk_ciphertext = esk_ciphertext enc, esk_nonce = esk_nonce enc\<rparr> = enc" by (cases enc) simp
  have dec: "kek_decrypt (cr_codec loose_crypto) (cr_aead loose_crypto) sample_kek
      \<lparr>esk_ciphertext = esk_ciphertext enc, esk_nonce = esk_nonce enc\<rparr> (project_signing_key_aad demo (nk_name ?k)) =
      Inr (private_key_text (cr_codec loose_crypto) (cr_ed loose_crypto) ?k)"
    unfolding eta using loose_crypto_ok utf8_ok_text[OF ascii_private[OF c(1) t(2)]]
    by (intro encrypted_decrypts[OF _ _ enc]) (simp_all add: crypto_ok_def)
  have "signing_key_parse (cr_codec loose_crypto) (cr_ed loose_crypto)
      (private_key_text (cr_codec loose_crypto) (cr_ed loose_crypto) ?k) = Inr \<lparr>nk_name = ''a'', nk_key = True\<rparr>"
  proof -
    have "trim ''a'' = ''a''" by code_simp
    moreover have "trim (''b:'' @ s) = ''b:'' @ s" if "list_all plain s" for s
      using that by (intro trim_plain) (auto simp: plain_def list_all_iff)
    moreover have "list_all plain (hex_encode bs)" for bs using hex_codec_ok by (simp add: codec_ok_def hex_codec_def)
    ultimately show ?thesis
      by (simp add: signing_key_parse_def private_key_text_def loose_crypto_def loose_codec_def Let_def
          decode_base64_standard_or_raw_def toy_ed25519_def split_once_Some)
  qed
  with rec[unfolded slug] dec t(3) have "active_project_signing_key std_platform loose_crypto demo sample_kek db' =
      Inr (Some \<lparr>nk_name = ''a'', nk_key = True\<rparr>)"
    by (simp add: active_project_signing_key_def signing_key_into_record_def parse_slug_def parse_time_def
        parse_time_opt_def std_platform_def)
  from colon_key_lost[OF g _ _ demo_projects loose_crypto_ok _ this] t(1)
  have "nk_name \<lparr>nk_name = ''a'', nk_key = True\<rparr> \<noteq> trim ''a:b''" by simp
  then show ?thesis by (intro exI[of _ "\<lparr>nk_name = ''a'', nk_key = True\<rparr>"]) simp
qed

end
