(* ===== verification/Retention.thy ===== *)
theory Retention
  imports DbKeys
begin

text \<open>
  \<^verbatim>\<open>crates/depot-db/src/retention.rs\<close>: the retention policy of a project and the builds it keeps.
  A ref is governed by the first of the matching rules with the least priority; a ref whose rule
  has a time to live keeps its builds only while it is younger.
\<close>

subsection \<open>Policies\<close>

definition DEFAULT_KEEP_LATEST_BUILDS_PER_REF :: "32 word" where
  "DEFAULT_KEEP_LATEST_BUILDS_PER_REF = 2"

definition DEFAULT_OBJECT_DELETE_GRACE_SECONDS :: "64 word" where
  "DEFAULT_OBJECT_DELETE_GRACE_SECONDS = 24 * 60 * 60"

definition default_rule :: "32 word \<Rightarrow> string \<Rightarrow> 64 word option \<Rightarrow> 32 word option \<Rightarrow> retention_rule" where
  "default_rule priority pattern ttl keep =
     \<lparr>rule_priority = priority, rule_pattern = pattern, rule_ttl = ttl, rule_keep = keep\<rparr>"

definition default_retention_rules :: "retention_rule list" where
  "default_retention_rules =
     [default_rule 10 ''refs/heads/main'' None (Some 2),
      default_rule 20 ''refs/heads/master'' None (Some 2),
      default_rule 30 ''refs/heads/trunk'' None (Some 2),
      default_rule 40 ''refs/tags/*'' None (Some 1),
      default_rule 50 ''refs/heads/release/*'' (Some (180 * 24 * 60 * 60)) (Some 2),
      default_rule 60 ''refs/pull/*'' (Some (14 * 24 * 60 * 60)) (Some 1),
      default_rule 70 ''refs/merge-requests/*'' (Some (14 * 24 * 60 * 60)) (Some 1),
      default_rule 80 ''refs/heads/*'' (Some (60 * 24 * 60 * 60)) (Some 2),
      default_rule 90 ''*'' (Some (30 * 24 * 60 * 60)) (Some 1)]"

definition find_policy :: "string \<Rightarrow> database \<Rightarrow> (retention_policy_row \<times> project_row) option" where
  "find_policy project_id db =
     fetch_optional (\<lambda>(rp, p). rp_project rp = project_id)
       (concat (map (\<lambda>rp. map (\<lambda>p. (rp, p)) (filter (\<lambda>p. prow_id p = rp_project rp) (db_projects db)))
         (db_policies db)))"

definition project_rules :: "string \<Rightarrow> database \<Rightarrow> retention_rule_row list" where
  "project_rules project_id db = order_by rr_priority (filter (\<lambda>r. rr_project r = project_id) (db_rules db))"

definition get_project_retention_policy :: "project_slug \<Rightarrow> database \<Rightarrow> anyhow + retention_policy" where
  "get_project_retention_policy project db =
     and_then (project_id_by_slug project db) (\<lambda>project_id.
     case find_policy project_id db of
       Some (policy, p) \<Rightarrow>
         and_then (collect_res rule_into_record (project_rules project_id db)) (\<lambda>rules.
         policy_into_record (prow_slug p) 0 policy rules)
     | None \<Rightarrow> Inr \<lparr>pol_project_slug = project, pol_inherited = True,
         pol_keep = DEFAULT_KEEP_LATEST_BUILDS_PER_REF, pol_grace = DEFAULT_OBJECT_DELETE_GRACE_SECONDS,
         pol_rules = default_retention_rules\<rparr>)"

text \<open>The loop over the rules inside the transaction; \<open>fresh i\<close> is the id made for the rule \<open>i\<close>.\<close>

fun insert_rules ::
    "string \<Rightarrow> (nat \<Rightarrow> uuid) \<Rightarrow> nat \<Rightarrow> retention_rule list \<Rightarrow> retention_rule_row list \<Rightarrow>
     anyhow + retention_rule_row list" where
  "insert_rules project_id fresh i [] t = Inr t"
| "insert_rules project_id fresh i (rule # rules) t =
     (if rule_priority rule = 0 then Inl (Anyhow ''retention rule priority must be greater than zero'')
      else if trim (rule_pattern rule) = [] then Inl (Anyhow ''retention rule ref_pattern must not be empty'')
      else and_then (transpose_res (\<lambda>v. ok_or (Anyhow ''converting ttl_seconds'') (try_i64 v)) (rule_ttl rule))
        (\<lambda>ttl_seconds.
        let row = \<lparr>rr_id = fresh i, rr_project = project_id, rr_priority = uint (rule_priority rule),
            rr_pattern = trim (rule_pattern rule), rr_ttl = ttl_seconds,
            rr_keep = map_option uint (rule_keep rule)\<rparr> in
        if has_key rr_id (fresh i) t \<or> has_key rr_key (rr_key row) t
        then Inl (Anyhow ''inserting project retention rule'')
        else insert_rules project_id fresh (i + 1) rules (t @ [row])))"

definition replace_project_retention_policy ::
    "(nat \<Rightarrow> uuid) \<Rightarrow> project_slug \<Rightarrow> 32 word \<Rightarrow> 64 word \<Rightarrow> retention_rule list \<Rightarrow> unit db_op" where
  "replace_project_retention_policy fresh project keep grace rules =
     (if keep = 0 then fail_io (Anyhow ''keep_latest_builds_per_ref must be greater than zero'')
      else if rules = [] then fail_io (Anyhow ''retention policy must contain at least one rule'')
      else bind_io (query_io (project_id_by_slug project)) (\<lambda>project_id.
        bind_io (pure_io (ok_or (Anyhow ''converting grace seconds'') (try_i64 grace))) (\<lambda>grace.
        tx_io (\<lambda>db.
          and_then (foreign_key (has_key prow_id project_id (db_projects db))) (\<lambda>_.
          let policies = upsert_row rp_project
                (\<lambda>old excluded. old\<lparr>rp_keep := rp_keep excluded, rp_grace := rp_grace excluded\<rparr>)
                \<lparr>rp_project = project_id, rp_keep = uint keep, rp_grace = grace\<rparr> (db_policies db) in
          and_then (insert_rules project_id fresh 0 rules
            (delete_rows (\<lambda>r. rr_project r = project_id) (db_rules db))) (\<lambda>new_rules.
          Inr ((), db\<lparr>db_policies := policies, db_rules := new_rules\<rparr>)))))))"

definition delete_project_retention_policy :: "project_slug \<Rightarrow> bool db_op" where
  "delete_project_retention_policy project =
     tx_io (\<lambda>db.
       and_then (project_id_by_slug project db) (\<lambda>project_id.
       Inr (has_key rp_project project_id (db_policies db),
            db\<lparr>db_policies := delete_rows (\<lambda>r. rp_project r = project_id) (db_policies db)\<rparr>)))"

subsection \<open>Retained builds\<close>

text \<open>\<^verbatim>\<open>Iterator::min_by_key\<close>: the first of the least elements.\<close>

fun min_by_key :: "('a \<Rightarrow> 'k :: linorder) \<Rightarrow> 'a list \<Rightarrow> 'a option" where
  "min_by_key f [] = None"
| "min_by_key f (x # xs) =
     (case min_by_key f xs of None \<Rightarrow> Some x | Some y \<Rightarrow> if f x \<le> f y then Some x else Some y)"

definition matching_retention_rule ::
    "platform \<Rightarrow> retention_rule list \<Rightarrow> string \<Rightarrow> retention_rule option" where
  "matching_retention_rule pf rules name =
     min_by_key rule_priority (filter (\<lambda>rule. wild_matches pf (rule_pattern rule) name) rules)"

text \<open>\<^verbatim>\<open>Duration::whole_seconds\<close> cuts towards zero.\<close>

definition whole_seconds :: "int \<Rightarrow> int" where
  "whole_seconds d = (if 0 \<le> d then d div 1000000000 else - ((- d) div 1000000000))"

definition ref_is_active :: "platform \<Rightarrow> datetime \<Rightarrow> string \<Rightarrow> 64 word option \<Rightarrow> anyhow + bool" where
  "ref_is_active pf now updated_at ttl_seconds =
     (case ttl_seconds of None \<Rightarrow> Inr True
      | Some ttl \<Rightarrow>
          and_then (parse_time pf ''parsing project ref updated_at'' updated_at) (\<lambda>updated_at.
          let age = now - updated_at in
          and_then (ok_or (Anyhow ''converting ttl_seconds'') (try_i64 ttl)) (\<lambda>ttl.
          Inr (whole_seconds age < ttl))))"

definition finalized_order :: "build_row \<Rightarrow> string option \<times> string" where
  "finalized_order b = (brow_finalized_at b, brow_created_at b)"

text \<open>The finalized builds of a ref, the latest first.\<close>

definition ref_builds :: "string \<Rightarrow> string \<Rightarrow> database \<Rightarrow> build_row list" where
  "ref_builds project_id name db =
     order_by_desc finalized_order (filter (\<lambda>b. brow_project_id b = project_id \<and> brow_ref_name b = name \<and>
       brow_status b = ''finalized'' \<and> brow_finalized_at b \<noteq> None) (db_builds db))"

definition retained_for_ref ::
    "platform \<Rightarrow> datetime \<Rightarrow> database \<Rightarrow> project_ref_row \<times> project_row \<Rightarrow> anyhow + string list" where
  "retained_for_ref pf now db = (\<lambda>(pr, p).
     and_then (parse_slug (prow_slug p)) (\<lambda>project.
     and_then (get_project_retention_policy project db) (\<lambda>policy.
     case matching_retention_rule pf (pol_rules policy) (ref_name pr) of
       None \<Rightarrow> Inr []
     | Some rule \<Rightarrow>
         and_then (ref_is_active pf now (ref_updated_at pr) (rule_ttl rule)) (\<lambda>active.
         if \<not> active then Inr []
         else let keep_builds = (case rule_keep rule of Some k \<Rightarrow> k | None \<Rightarrow> pol_keep policy) in
           and_then (project_id_by_slug project db) (\<lambda>project_id.
           Inr (map brow_id (take (unat keep_builds) (ref_builds project_id (ref_name pr) db))))))))"

definition retention_refs :: "database \<Rightarrow> (project_ref_row \<times> project_row) list" where
  "retention_refs db =
     order_by (\<lambda>(pr, p). (prow_slug p, ref_name pr))
       (concat (map (\<lambda>pr. map (\<lambda>p. (pr, p)) (filter (\<lambda>p. prow_id p = ref_project pr) (db_projects db)))
         (db_refs db)))"

definition list_retained_build_ids_for_gc :: "platform \<Rightarrow> datetime \<Rightarrow> database \<Rightarrow> anyhow + string list" where
  "list_retained_build_ids_for_gc pf now db =
     and_then (collect_res (retained_for_ref pf now db) (retention_refs db)) (\<lambda>retained.
     Inr (dedup (sort (concat retained))))"

subsection \<open>The rule that governs a ref\<close>

lemma min_by_key_None [simp]: "min_by_key f xs = None \<longleftrightarrow> xs = []"
  by (cases xs) (auto split: option.splits)

lemma min_by_key_Some:
  "min_by_key f xs = Some m \<longleftrightarrow>
   (\<exists>as bs. xs = as @ m # bs \<and> (\<forall>a\<in>set as. f m < f a) \<and> (\<forall>b\<in>set bs. f m \<le> f b))"
proof (induction xs arbitrary: m)
  case (Cons x xs)
  show ?case
  proof (cases "min_by_key f xs")
    case None
    then have "xs = []" by simp
    then show ?thesis by (auto simp: Cons_eq_append_conv)
  next
    case (Some y)
    then obtain as bs where xs: "xs = as @ y # bs" "\<forall>a\<in>set as. f y < f a" "\<forall>b\<in>set bs. f y \<le> f b"
      using Cons.IH by blast
    show ?thesis
    proof (cases "f x \<le> f y")
      case True
      have le: "\<forall>b\<in>set xs. f x \<le> f b" using xs True by (auto intro: order_trans less_imp_le)
      have "m = x" if m: "x # xs = as' @ m # bs'" "\<forall>a\<in>set as'. f m < f a" for as' bs'
      proof (cases as')
        case (Cons a as'')
        then have "f m < f x" "m \<in> set xs" using m by auto
        then show ?thesis using le by (auto simp: not_le[symmetric])
      qed (use m in simp)
      then show ?thesis using Some True le by (auto intro: exI[of _ "[]"])
    next
      case False
      have "(\<exists>as' bs'. x # xs = as' @ m # bs' \<and> (\<forall>a\<in>set as'. f m < f a) \<and> (\<forall>b\<in>set bs'. f m \<le> f b)) \<longleftrightarrow> m = y"
      proof
        assume "\<exists>as' bs'. x # xs = as' @ m # bs' \<and> (\<forall>a\<in>set as'. f m < f a) \<and> (\<forall>b\<in>set bs'. f m \<le> f b)"
        then obtain as' bs' where m: "x # xs = as' @ m # bs'" "\<forall>a\<in>set as'. f m < f a" "\<forall>b\<in>set bs'. f m \<le> f b"
          by blast
        show "m = y"
        proof (cases as')
          case Nil
          then have "f x \<le> f y" using m xs(1) by auto
          then show ?thesis using False by simp
        next
          case (Cons a as'')
          then have "\<exists>as bs. xs = as @ m # bs \<and> (\<forall>a\<in>set as. f m < f a) \<and> (\<forall>b\<in>set bs. f m \<le> f b)"
            using m by auto
          then show ?thesis using Cons.IH[of m] Some by simp
        qed
      next
        assume "m = y"
        then show "\<exists>as' bs'. x # xs = as' @ m # bs' \<and> (\<forall>a\<in>set as'. f m < f a) \<and> (\<forall>b\<in>set bs'. f m \<le> f b)"
          using xs False by (intro exI[of _ "x # as"] exI[of _ bs]) auto
      qed
      then show ?thesis using Some False by auto
    qed
  qed
qed simp

text \<open>(governing rule). The rule of a ref is a matching rule of the least priority, the first in the
  order of the policy among those; under the default policy every ref has one.\<close>

theorem governing_rule:
  "(matching_retention_rule pf rules name = Some rule \<longleftrightarrow>
    (\<exists>as bs. filter (\<lambda>r. wild_matches pf (rule_pattern r) name) rules = as @ rule # bs \<and>
       (\<forall>a\<in>set as. rule_priority rule < rule_priority a) \<and>
       (\<forall>b\<in>set bs. rule_priority rule \<le> rule_priority b))) \<and>
   (platform_ok pf \<longrightarrow> (\<exists>rule\<in>set default_retention_rules.
      matching_retention_rule pf default_retention_rules name = Some rule))"
proof (intro conjI impI)
  show "matching_retention_rule pf rules name = Some rule \<longleftrightarrow>
    (\<exists>as bs. filter (\<lambda>r. wild_matches pf (rule_pattern r) name) rules = as @ rule # bs \<and>
       (\<forall>a\<in>set as. rule_priority rule < rule_priority a) \<and>
       (\<forall>b\<in>set bs. rule_priority rule \<le> rule_priority b))"
    unfolding matching_retention_rule_def min_by_key_Some by (rule refl)
next
  assume "platform_ok pf"
  then have "wild_matches pf ''*'' name" by (simp add: platform_ok_def)
  moreover have "default_rule 90 ''*'' (Some (30 * 24 * 60 * 60)) (Some 1) \<in> set default_retention_rules"
    by (simp add: default_retention_rules_def)
  ultimately have "filter (\<lambda>r. wild_matches pf (rule_pattern r) name) default_retention_rules \<noteq> []"
    unfolding filter_empty_conv default_rule_def by (metis retention_rule.select_convs(2))
  then obtain rule where m: "matching_retention_rule pf default_retention_rules name = Some rule"
    unfolding matching_retention_rule_def using min_by_key_None by blast
  then obtain as bs where "filter (\<lambda>r. wild_matches pf (rule_pattern r) name) default_retention_rules = as @ rule # bs"
    unfolding matching_retention_rule_def min_by_key_Some by blast
  then have "rule \<in> set (filter (\<lambda>r. wild_matches pf (rule_pattern r) name) default_retention_rules)" by simp
  then have "rule \<in> set default_retention_rules" by simp
  with m show "\<exists>rule\<in>set default_retention_rules.
      matching_retention_rule pf default_retention_rules name = Some rule" by blast
qed

subsection \<open>Replacing and deleting a policy\<close>

definition trimmed_rule :: "retention_rule \<Rightarrow> retention_rule" where
  "trimmed_rule r = r\<lparr>rule_pattern := trim (rule_pattern r)\<rparr>"

lemma insert_rules_step:
  assumes "insert_rules project_id fresh i (r # rules) t = Inr t'"
  obtains row where "\<not> has_key rr_id (rr_id row) t" "\<not> has_key rr_key (rr_key row) t"
    "insert_rules project_id fresh (i + 1) rules (t @ [row]) = Inr t'" "rr_project row = project_id"
    "rr_priority row = uint (rule_priority r)" "rule_into_record row = Inr (trimmed_rule r)"
proof -
  from assms obtain ttl where ttl: "transpose_res (\<lambda>v. ok_or (Anyhow ''converting ttl_seconds'') (try_i64 v))
      (rule_ttl r) = Inr ttl"
    by (auto split: if_splits)
  define row where "row = \<lparr>rr_id = fresh i, rr_project = project_id, rr_priority = uint (rule_priority r),
            rr_pattern = trim (rule_pattern r), rr_ttl = ttl, rr_keep = map_option uint (rule_keep r)\<rparr>"
  have "transpose_res (\<lambda>v. ok_or (Anyhow ''converting retention ttl_seconds'') (try_u64 v)) ttl = Inr (rule_ttl r)"
    using ttl try_i64_u64 by (cases "rule_ttl r") auto
  moreover have "transpose_res (\<lambda>v. ok_or (Anyhow ''converting retention keep_builds'') (try_u32 v))
      (map_option uint (rule_keep r)) = Inr (rule_keep r)" by (cases "rule_keep r") simp_all
  ultimately have "rule_into_record row = Inr (trimmed_rule r)"
    by (simp add: rule_into_record_def row_def trimmed_rule_def)
  moreover have "\<not> has_key rr_id (rr_id row) t" "\<not> has_key rr_key (rr_key row) t"
    "insert_rules project_id fresh (i + 1) rules (t @ [row]) = Inr t'"
    using assms ttl by (simp_all add: Let_def row_def split: if_splits)
  ultimately show ?thesis using that[of row] by (simp add: row_def)
qed

lemma insert_rules_Inr:
  "insert_rules project_id fresh i rules t = Inr t' \<Longrightarrow>
   \<exists>rows. t' = t @ rows \<and> (\<forall>r\<in>set rows. rr_project r = project_id) \<and>
     collect_res rule_into_record rows = Inr (map trimmed_rule rules) \<and>
     map rr_priority rows = map (\<lambda>r. uint (rule_priority r)) rules"
proof (induction rules arbitrary: i t)
  case (Cons r rules)
  from Cons.prems obtain row where row: "insert_rules project_id fresh (i + 1) rules (t @ [row]) = Inr t'"
    "rr_project row = project_id" "rr_priority row = uint (rule_priority r)"
    "rule_into_record row = Inr (trimmed_rule r)" by (rule insert_rules_step)
  from Cons.IH[OF row(1)] obtain rows where "t' = (t @ [row]) @ rows" "\<forall>r\<in>set rows. rr_project r = project_id"
     "collect_res rule_into_record rows = Inr (map trimmed_rule rules)"
     "map rr_priority rows = map (\<lambda>r. uint (rule_priority r)) rules" by blast
  then show ?case using row by (intro exI[of _ "row # rows"]) simp
qed simp

lemma insert_rules_unique:
  "insert_rules project_id fresh i rules t = Inr t' \<Longrightarrow> unique_key rr_key t \<Longrightarrow> unique_key rr_id t \<Longrightarrow>
   unique_key rr_key t' \<and> unique_key rr_id t'"
proof (induction rules arbitrary: i t)
  case (Cons r rules)
  from Cons.prems(1) obtain row where row: "\<not> has_key rr_id (rr_id row) t" "\<not> has_key rr_key (rr_key row) t"
    "insert_rules project_id fresh (i + 1) rules (t @ [row]) = Inr t'" by (rule insert_rules_step)
  then show ?case using Cons.IH[OF row(3)] Cons.prems(2,3) by (simp add: unique_append)
qed simp

text \<open>Converting commutes with sorting, as the order of priorities is that of the stored numbers.\<close>

lemma collect_res_insort:
  assumes "f x = Inr y" "collect_res f xs = Inr ys" "\<And>a b. f a = Inr b \<Longrightarrow> k a = uint (h b :: 'w :: len word)"
  shows "collect_res f (insort_key k x xs) = Inr (insort_key h y ys)"
  using assms(2)
proof (induction xs arbitrary: ys)
  case (Cons a xs)
  then obtain b zs where b: "f a = Inr b" "collect_res f xs = Inr zs" "ys = b # zs" by auto
  have "k x \<le> k a \<longleftrightarrow> h y \<le> h b" using assms(1,3) b(1) by (simp add: word_le_def)
  then show ?case using Cons.IH[OF b(2)] b assms(1) by auto
qed (use assms(1) in simp)

lemma collect_res_sort:
  assumes "collect_res f xs = Inr ys" "\<And>a b. f a = Inr b \<Longrightarrow> k a = uint (h b :: 'w :: len word)"
  shows "collect_res f (sort_key k xs) = Inr (sort_key h ys)"
  using assms(1)
proof (induction xs arbitrary: ys)
  case (Cons x xs)
  then obtain y zs where "f x = Inr y" "collect_res f xs = Inr zs" "ys = y # zs" by auto
  then show ?case using Cons.IH collect_res_insort[of f x y _ _ k h] assms(2) by simp
qed simp

lemma try_u32_uint_eq: "try_u32 x = Some w \<Longrightarrow> x = uint w"
  by (auto simp: try_u32_def word_of_int_inverse split: if_splits)

lemma rule_priority_stored: "rule_into_record r = Inr x \<Longrightarrow> rr_priority r = uint (rule_priority x)"
  by (auto simp: rule_into_record_def dest: try_u32_uint_eq)

lemma find_policy_Some:
  assumes "unique_key rp_project (db_policies db)" "unique_key prow_id (db_projects db)"
    "rp \<in> set (db_policies db)" "p \<in> set (db_projects db)" "prow_id p = rp_project rp"
  shows "find_policy (rp_project rp) db = Some (rp, p)"
proof -
  let ?j = "concat (map (\<lambda>rp. map (\<lambda>p. (rp, p)) (filter (\<lambda>p. prow_id p = rp_project rp) (db_projects db)))
         (db_policies db))"
  have "(rp, p) \<in> set ?j" using assms by auto
  then obtain x where x: "find_policy (rp_project rp) db = Some x"
    using fetch_optional_None[of "\<lambda>(q, _). rp_project q = rp_project rp" ?j]
    by (cases "find_policy (rp_project rp) db") (auto simp: find_policy_def)
  then have "x \<in> set ?j" "rp_project (fst x) = rp_project rp"
    using fetch_optional_Some unfolding find_policy_def by fastforce+
  then have "fst x \<in> set (db_policies db)" "snd x \<in> set (db_projects db)" "prow_id (snd x) = rp_project (fst x)"
    by auto
  then have "fst x = rp" "snd x = p"
    using unique_inj[OF assms(1)] unique_inj[OF assms(2)] assms(3-5) \<open>rp_project (fst x) = rp_project rp\<close>
    by metis+
  then show ?thesis using x by (cases x) simp
qed

lemma find_policy_None: "\<not> has_key rp_project i (db_policies db) \<Longrightarrow> find_policy i db = None"
  by (auto simp: find_policy_def fetch_optional_None has_key_iff)

lemma replace_policy_Inr:
  assumes "replace_project_retention_policy fresh project keep grace rules db = (Inr (), db')"
  obtains p g rows where "find_project project db = Some p" "try_i64 grace = Some g" "keep \<noteq> 0" "rules \<noteq> []"
    "db_policies db' = upsert_row rp_project
                (\<lambda>old excluded. old\<lparr>rp_keep := rp_keep excluded, rp_grace := rp_grace excluded\<rparr>)
                \<lparr>rp_project = prow_id p, rp_keep = uint keep, rp_grace = g\<rparr> (db_policies db)"
    "insert_rules (prow_id p) fresh 0 rules (delete_rows (\<lambda>r. rr_project r = prow_id p) (db_rules db)) = Inr (db_rules db')"
    "db' = db\<lparr>db_policies := db_policies db', db_rules := db_rules db'\<rparr>"
  using assms
  by (auto simp: replace_project_retention_policy_def Let_def bind_io_Inr project_id_by_slug_Inr split: if_splits)


subsection \<open>What is retained\<close>

definition kept_builds :: "retention_policy \<Rightarrow> retention_rule \<Rightarrow> 32 word" where
  "kept_builds policy rule = (case rule_keep rule of Some k \<Rightarrow> k | None \<Rightarrow> pol_keep policy)"

text \<open>A ref that its rule keeps alive, with the number of builds kept.\<close>

definition live_ref :: "platform \<Rightarrow> datetime \<Rightarrow> database \<Rightarrow> project_ref_row \<Rightarrow> project_row \<Rightarrow> nat \<Rightarrow> bool" where
  "live_ref pf now db pr p n \<longleftrightarrow> pr \<in> set (db_refs db) \<and> p \<in> set (db_projects db) \<and> prow_id p = ref_project pr \<and>
     (\<exists>policy rule. get_project_retention_policy (ProjectSlug (prow_slug p)) db = Inr policy \<and>
        matching_retention_rule pf (pol_rules policy) (ref_name pr) = Some rule \<and>
        ref_is_active pf now (ref_updated_at pr) (rule_ttl rule) = Inr True \<and>
        n = unat (kept_builds policy rule))"

lemma retention_refs_iff:
  "(pr, p) \<in> set (retention_refs db) \<longleftrightarrow> pr \<in> set (db_refs db) \<and> p \<in> set (db_projects db) \<and> prow_id p = ref_project pr"
  by (auto simp: retention_refs_def)

lemma find_project_unique:
  "unique_projects db \<Longrightarrow> p \<in> set (db_projects db) \<Longrightarrow> find_project (ProjectSlug (prow_slug p)) db = Some p"
  using fetch_unique[of prow_slug "db_projects db" "prow_slug p" p]
  by (simp add: unique_projects_def find_project_def)

lemma retained_for_ref_Inr:
  assumes "retained_for_ref pf now db (pr, p) = Inr ids" "(pr, p) \<in> set (retention_refs db)" "unique_projects db"
  shows "id' \<in> set ids \<longleftrightarrow> (\<exists>n. live_ref pf now db pr p n \<and>
    id' \<in> brow_id ` set (take n (ref_builds (prow_id p) (ref_name pr) db)))"
proof -
  have p: "pr \<in> set (db_refs db)" "p \<in> set (db_projects db)" "prow_id p = ref_project pr"
    using assms(2) by (simp_all add: retention_refs_iff)
  note f = find_project_unique[OF assms(3) p(2)]
  from assms(1) obtain policy where slug: "slug_parse (prow_slug p) = Inr (ProjectSlug (prow_slug p))" and
    pol: "get_project_retention_policy (ProjectSlug (prow_slug p)) db = Inr policy"
    by (auto simp: retained_for_ref_def parse_slug_def slug_parse_Inr)
  show ?thesis
  proof (cases "matching_retention_rule pf (pol_rules policy) (ref_name pr)")
    case None
    then show ?thesis using assms(1) slug pol by (auto simp: retained_for_ref_def parse_slug_def live_ref_def)
  next
    case (Some rule)
    then obtain active where a: "ref_is_active pf now (ref_updated_at pr) (rule_ttl rule) = Inr active"
      using assms(1) slug pol by (auto simp: retained_for_ref_def parse_slug_def)
    then have "ids = (if active then map brow_id (take (unat (kept_builds policy rule))
        (ref_builds (prow_id p) (ref_name pr) db)) else [])"
      using assms(1) slug pol Some f
      by (auto simp: retained_for_ref_def parse_slug_def kept_builds_def project_id_by_slug_def Let_def)
    then show ?thesis using pol Some a p by (auto simp: live_ref_def)
  qed
qed

lemma retained_iff:
  assumes "list_retained_build_ids_for_gc pf now db = Inr ids" "unique_projects db"
  shows "id' \<in> set ids \<longleftrightarrow> (\<exists>pr p n. live_ref pf now db pr p n \<and>
    id' \<in> brow_id ` set (take n (ref_builds (prow_id p) (ref_name pr) db)))"
proof -
  from assms(1) obtain xs where xs: "collect_res (retained_for_ref pf now db) (retention_refs db) = Inr xs"
    "set ids = (\<Union>x\<in>set xs. set x)" by (auto simp: list_retained_build_ids_for_gc_def)
  show ?thesis
  proof
    assume "id' \<in> set ids"
    then obtain x where x: "x \<in> set xs" "id' \<in> set x" using xs(2) by blast
    obtain pr p where "(pr, p) \<in> set (retention_refs db)" "retained_for_ref pf now db (pr, p) = Inr x"
      using collect_res_from[OF xs(1) x(1)] by auto
    then show "\<exists>pr p n. live_ref pf now db pr p n \<and>
        id' \<in> brow_id ` set (take n (ref_builds (prow_id p) (ref_name pr) db))"
      using retained_for_ref_Inr[OF _ _ assms(2)] x(2) by blast
  next
    assume "\<exists>pr p n. live_ref pf now db pr p n \<and>
        id' \<in> brow_id ` set (take n (ref_builds (prow_id p) (ref_name pr) db))"
    then obtain pr p n where l: "live_ref pf now db pr p n"
      "id' \<in> brow_id ` set (take n (ref_builds (prow_id p) (ref_name pr) db))" by blast
    then have r: "(pr, p) \<in> set (retention_refs db)" by (simp add: live_ref_def retention_refs_iff)
    from collect_res_mem[OF xs(1) r] obtain x where "x \<in> set xs" "retained_for_ref pf now db (pr, p) = Inr x" by blast
    then show "id' \<in> set ids" using retained_for_ref_Inr[OF _ r assms(2)] l xs(2) by blast
  qed
qed

lemma sorted_order_by_desc: "sorted_wrt (\<lambda>x y. f y \<le> f x) (order_by_desc f t)"
proof -
  have "sorted_wrt (\<lambda>x y. f x \<le> f y) (sort_key f (rev t))"
    using sorted_sort_key[of f "rev t"] by (simp add: sorted_wrt_map)
  then show ?thesis by (simp add: order_by_desc_def sorted_wrt_rev)
qed

lemma take_sorted:
  assumes "sorted_wrt R xs" "x \<in> set (take n xs)" "y \<in> set xs" "y \<notin> set (take n xs)"
  shows "R x y"
proof -
  have "y \<in> set (drop n xs)" using assms(3,4) by (metis append_take_drop_id Un_iff set_append)
  then show ?thesis using assms(1,2) by (metis append_take_drop_id sorted_wrt_append)
qed


subsection \<open>Instances\<close>

definition tag_db :: "string \<Rightarrow> string \<Rightarrow> database" where
  "tag_db t1 t2 = demo_db\<lparr>
     db_builds := [\<lparr>brow_id = ''b1'', brow_project_id = ''p1'', brow_ref_name = ''refs/tags/v1'', brow_revision = None,
         brow_status = ''finalized'', brow_created_at = ''0'', brow_finalized_at = Some t1\<rparr>,
       \<lparr>brow_id = ''b2'', brow_project_id = ''p1'', brow_ref_name = ''refs/tags/v1'', brow_revision = None,
         brow_status = ''finalized'', brow_created_at = ''0'', brow_finalized_at = Some t2\<rparr>],
     db_refs := [\<lparr>ref_project = ''p1'', ref_name = ''refs/tags/v1'', ref_build = ''b2'', ref_updated_at = t2\<rparr>]\<rparr>"

lemma tag_projects: "unique_projects (tag_db t1 t2)"
  using demo_projects by (simp add: unique_projects_def tag_db_def)

lemma tag_retained: "list_retained_build_ids_for_gc std_platform 7 (tag_db ''1'' ''2'') = Inr [''b2'']"
  by code_simp


text \<open>(order of finalization). The stored times are compared as text, in which a time with a fraction
  comes before the same time without one: a build published half a second after another is not
  retained, although the ref points to it.\<close>

theorem published_build_dropped:
  "\<exists>db ids. list_retained_build_ids_for_gc std_platform 7 db = Inr ids \<and>
     (\<exists>r\<in>set (db_refs db). \<exists>b\<in>set (db_builds db). ref_build r = brow_id b \<and> brow_id b \<notin> set ids \<and>
        brow_finalized_at b = Some ''2026-01-01T00:00:00.5Z'') \<and>
     (\<exists>b\<in>set (db_builds db). brow_id b \<in> set ids \<and> brow_finalized_at b = Some ''2026-01-01T00:00:00Z'')"
proof -
  let ?db = "tag_db ''2026-01-01T00:00:00Z'' ''2026-01-01T00:00:00.5Z''"
  have "list_retained_build_ids_for_gc std_platform 7 ?db = Inr [''b1'']" by code_simp
  then show ?thesis by (intro exI[of _ ?db] exI[of _ "[''b1'']"]) (simp add: tag_db_def)
qed


theorem governing_rule_witness:
  "\<exists>rule\<in>set default_retention_rules.
     matching_retention_rule std_platform default_retention_rules ''refs/heads/x'' = Some rule"
  using governing_rule[of std_platform] std_platform_ok by blast

end
