(* ===== verification/DbGc.thy ===== *)
theory DbGc
  imports Retention
begin

text \<open>
  \<^verbatim>\<open>crates/depot-db/src/gc.rs\<close>: the roots of the garbage collection, the paths that are live from
  them (the recursive common table expression of the source, evaluated in rounds), and the
  tombstones of storage objects.
\<close>

subsection \<open>Roots\<close>

record storage_object_key =
  sok_storage_id :: storage_id
  sok_object_path :: string

definition root_hash :: "string \<Rightarrow> anyhow + store_path_hash" where
  "root_hash h = context_err (''invalid store_path_hash '' @ h) (from_hash h)"

definition pending_path_hashes :: "database \<Rightarrow> string list" where
  "pending_path_hashes db =
     remdups (concat (map (\<lambda>bp. concat (map (\<lambda>b. if brow_id b = bp_build bp \<and> brow_status b = ''pending''
       then [bp_hash bp] else []) (db_builds db))) (db_build_paths db)))"

definition list_root_store_path_hashes ::
    "platform \<Rightarrow> datetime \<Rightarrow> database \<Rightarrow> anyhow + store_path_hash list" where
  "list_root_store_path_hashes pf now db =
     and_then (list_retained_build_ids_for_gc pf now db) (\<lambda>retained_build_ids.
     and_then (collect_res root_hash (concat (map (\<lambda>build_id.
       map bp_hash (filter (\<lambda>bp. bp_build bp = build_id) (db_build_paths db))) retained_build_ids))) (\<lambda>retained.
     and_then (collect_res root_hash (pending_path_hashes db)) (\<lambda>pending.
     and_then (collect_res root_hash (remdups (map pin_hash (db_pins db)))) (\<lambda>pinned.
     Inr (dedup (sort (retained @ pending @ pinned)))))))"

subsection \<open>Live paths\<close>

text \<open>The rows \<open>(store_path_hash, store_path)\<close> of the recursive query. The first round selects the
  registered roots, each further round the registered paths that the rows found so far reference.\<close>

definition path_pair :: "path_info_row \<Rightarrow> string \<times> string" where
  "path_pair r = (pirow_hash r, pirow_store_path r)"

definition root_paths :: "store_path_hash list \<Rightarrow> database \<Rightarrow> (string \<times> string) list" where
  "root_paths roots db =
     remdups (map path_pair (filter (\<lambda>pi. pirow_hash pi \<in> hash_str ` set roots) (db_path_infos db)))"

definition referenced_paths :: "database \<Rightarrow> (string \<times> string) list \<Rightarrow> (string \<times> string) list" where
  "referenced_paths db lps =
     remdups (concat (map (\<lambda>lp. concat (map (\<lambda>pr. map path_pair
         (filter (\<lambda>pi. pirow_store_path pi = pt_text pr) (db_path_infos db)))
       (filter (\<lambda>pr. pt_hash pr = fst lp) (db_references db)))) lps))"

fun live_rounds :: "database \<Rightarrow> nat \<Rightarrow> (string \<times> string) list \<Rightarrow> (string \<times> string) list" where
  "live_rounds db 0 lps = lps"
| "live_rounds db (Suc n) lps =
     (let new = filter (\<lambda>lp. lp \<notin> set lps) (referenced_paths db lps) in
      if new = [] then lps else live_rounds db n (lps @ new))"

definition live_paths :: "store_path_hash list \<Rightarrow> database \<Rightarrow> (string \<times> string) list" where
  "live_paths roots db = live_rounds db (length (db_path_infos db)) (root_paths roots db)"

definition live_objects :: "store_path_hash list \<Rightarrow> database \<Rightarrow> string list" where
  "live_objects roots db =
     remdups (concat (map (\<lambda>lp. map po_path (filter (\<lambda>po. po_hash po = fst lp) (db_path_objects db)))
       (live_paths roots db)))"

definition list_live_store_path_hashes ::
    "platform \<Rightarrow> datetime \<Rightarrow> database \<Rightarrow> anyhow + store_path_hash list" where
  "list_live_store_path_hashes pf now db =
     and_then (list_root_store_path_hashes pf now db) (\<lambda>roots.
     collect_res root_hash (order_by (\<lambda>h. h) (remdups (map fst (live_paths roots db)))))"

definition list_live_storage_object_paths :: "platform \<Rightarrow> datetime \<Rightarrow> database \<Rightarrow> anyhow + string list" where
  "list_live_storage_object_paths pf now db =
     and_then (list_root_store_path_hashes pf now db) (\<lambda>roots.
     Inr (order_by (\<lambda>p. p) (live_objects roots db)))"

subsection \<open>Tombstones\<close>

definition object_key_of :: "storage_object_row \<Rightarrow> anyhow + storage_object_key" where
  "object_key_of so =
     and_then (context_err ''parsing storage_id'' (storage_id_new (so_storage_id so))) (\<lambda>sid.
     Inr \<lparr>sok_storage_id = sid, sok_object_path = so_object_path so\<rparr>)"

definition object_live :: "store_path_hash list \<Rightarrow> database \<Rightarrow> storage_object_row \<Rightarrow> bool" where
  "object_live roots db so = (so_object_path so \<in> set (live_objects roots db))"

definition list_stale_storage_objects ::
    "platform \<Rightarrow> datetime \<Rightarrow> database \<Rightarrow> anyhow + storage_object_key list" where
  "list_stale_storage_objects pf now db =
     and_then (list_root_store_path_hashes pf now db) (\<lambda>roots.
     collect_res object_key_of
       (order_by so_key (filter (\<lambda>so. \<not> object_live roots db so) (db_objects db))))"

definition clear_deleted_state_for_live_storage_objects :: "platform \<Rightarrow> datetime \<Rightarrow> unit db_op" where
  "clear_deleted_state_for_live_storage_objects pf now =
     bind_io (query_io (list_root_store_path_hashes pf now)) (\<lambda>roots.
     tx_io (\<lambda>db. Inr ((), db\<lparr>db_objects := update_rows
       (\<lambda>so. (so_deleted_at so \<noteq> None \<or> so_first_deleted_at so \<noteq> None) \<and> object_live roots db so)
       (\<lambda>so. so\<lparr>so_deleted_at := None, so_first_deleted_at := None\<rparr>) (db_objects db)\<rparr>)))"

definition coalesce :: "'a option \<Rightarrow> 'a \<Rightarrow> 'a option" where
  "coalesce x y = (case x of None \<Rightarrow> Some y | Some _ \<Rightarrow> x)"

definition mark_stale_storage_objects :: "platform \<Rightarrow> datetime \<Rightarrow> unit db_op" where
  "mark_stale_storage_objects pf now =
     bind_io (query_io (list_root_store_path_hashes pf now)) (\<lambda>roots.
     tx_io (\<lambda>db. Inr ((), db\<lparr>db_objects := update_rows (\<lambda>so. \<not> object_live roots db so)
       (\<lambda>so. so\<lparr>so_deleted_at := coalesce (so_deleted_at so) (sql_now pf now),
                so_first_deleted_at := coalesce (so_first_deleted_at so) (sql_now pf now)\<rparr>)
       (db_objects db)\<rparr>)))"

text \<open>\<^verbatim>\<open>unixepoch\<close> counts whole seconds; a comparison with a text that is no date is not true.\<close>

definition ready_for_deletion :: "platform \<Rightarrow> datetime \<Rightarrow> int \<Rightarrow> storage_object_row \<Rightarrow> bool" where
  "ready_for_deletion pf now grace_period_seconds so \<longleftrightarrow>
     so_deleted_at so \<noteq> None \<and>
     (case so_first_deleted_at so of None \<Rightarrow> False
      | Some first_deleted_at \<Rightarrow>
          (case unixepoch pf first_deleted_at of None \<Rightarrow> False
           | Some t \<Rightarrow> t \<le> now div 1000000000 - grace_period_seconds))"

definition list_storage_objects_ready_for_deletion ::
    "platform \<Rightarrow> datetime \<Rightarrow> int \<Rightarrow> database \<Rightarrow> anyhow + storage_object_key list" where
  "list_storage_objects_ready_for_deletion pf now grace_period_seconds db =
     collect_res object_key_of
       (order_by so_key (filter (ready_for_deletion pf now grace_period_seconds) (db_objects db)))"

definition object_key_pair :: "storage_object_key \<Rightarrow> string \<times> string" where
  "object_key_pair k = (storage_id_str (sok_storage_id k), sok_object_path k)"

definition delete_storage_objects :: "storage_object_key list \<Rightarrow> unit db_op" where
  "delete_storage_objects objects =
     tx_io (\<lambda>db. Inr ((), db\<lparr>db_objects :=
       fold (\<lambda>object. delete_rows (\<lambda>so. so_key so = object_key_pair object)) objects (db_objects db)\<rparr>))"

subsection \<open>Reachability\<close>

text \<open>The specification of the recursive query: what can be reached from the roots along references.\<close>

inductive live :: "store_path_hash list \<Rightarrow> database \<Rightarrow> string \<times> string \<Rightarrow> bool" for roots db where
  live_root: "pi \<in> set (db_path_infos db) \<Longrightarrow> pirow_hash pi \<in> hash_str ` set roots \<Longrightarrow> live roots db (path_pair pi)"
| live_ref: "live roots db lp \<Longrightarrow> pr \<in> set (db_references db) \<Longrightarrow> pt_hash pr = fst lp \<Longrightarrow>
    pi \<in> set (db_path_infos db) \<Longrightarrow> pirow_store_path pi = pt_text pr \<Longrightarrow> live roots db (path_pair pi)"

lemma set_root_paths:
  "set (root_paths roots db) =
   {path_pair pi |pi. pi \<in> set (db_path_infos db) \<and> pirow_hash pi \<in> hash_str ` set roots}"
  by (auto simp: root_paths_def)

lemma set_referenced_paths:
  "set (referenced_paths db lps) =
   {path_pair pi |pi lp pr. lp \<in> set lps \<and> pr \<in> set (db_references db) \<and> pt_hash pr = fst lp \<and>
     pi \<in> set (db_path_infos db) \<and> pirow_store_path pi = pt_text pr}"
  by (simp add: referenced_paths_def del: split_paired_Ex) blast

lemma referenced_known: "set (referenced_paths db lps) \<subseteq> path_pair ` set (db_path_infos db)"
  by (auto simp: set_referenced_paths)

lemma live_rounds_mono: "set lps \<subseteq> set (live_rounds db n lps)"
proof (induction n arbitrary: lps)
  case (Suc n)
  show ?case
  proof (cases "filter (\<lambda>lp. lp \<notin> set lps) (referenced_paths db lps) = []")
    case False
    then show ?thesis using Suc[of "lps @ filter (\<lambda>lp. lp \<notin> set lps) (referenced_paths db lps)"]
      by (simp add: Let_def)
  qed simp
qed simp

text \<open>Enough rounds close the rows under references: every round but the last finds a new path.\<close>

lemma live_rounds_closed:
  assumes "set lps \<subseteq> path_pair ` set (db_path_infos db)"
    "card (path_pair ` set (db_path_infos db)) \<le> n + card (set lps)"
  shows "set (referenced_paths db (live_rounds db n lps)) \<subseteq> set (live_rounds db n lps)"
  using assms
proof (induction n arbitrary: lps)
  case 0
  then have "set lps = path_pair ` set (db_path_infos db)" by (intro card_seteq) auto
  then show ?case using referenced_known by simp
next
  case (Suc n)
  let ?new = "filter (\<lambda>lp. lp \<notin> set lps) (referenced_paths db lps)"
  show ?case
  proof (cases "?new = []")
    case True
    then show ?thesis by (auto simp: filter_empty_conv)
  next
    case False
    then have "set lps \<subset> set (lps @ ?new)" by (auto simp: filter_empty_conv)
    then have "card (set lps) < card (set (lps @ ?new))" by (intro psubset_card_mono) auto
    moreover have "set (lps @ ?new) \<subseteq> path_pair ` set (db_path_infos db)"
      using Suc.prems(1) referenced_known[of db lps] by auto
    ultimately show ?thesis using Suc.IH[of "lps @ ?new"] Suc.prems(2) False by simp
  qed
qed

lemma live_rounds_sound:
  "\<forall>lp\<in>set lps. live roots db lp \<Longrightarrow> lp \<in> set (live_rounds db n lps) \<Longrightarrow> live roots db lp"
proof (induction n arbitrary: lps)
  case (Suc n)
  let ?new = "filter (\<lambda>lp. lp \<notin> set lps) (referenced_paths db lps)"
  have "\<forall>lp\<in>set (lps @ ?new). live roots db lp"
    using Suc.prems(1) live_ref by (fastforce simp: set_referenced_paths)
  then show ?case using Suc.IH[of "lps @ ?new"] Suc.prems by (auto simp: Let_def split: if_splits)
qed simp

lemma live_paths_iff: "lp \<in> set (live_paths roots db) \<longleftrightarrow> live roots db lp"
proof
  have "\<forall>lp\<in>set (root_paths roots db). live roots db lp"
    unfolding set_root_paths using live_root by blast
  moreover assume "lp \<in> set (live_paths roots db)"
  ultimately show "live roots db lp" unfolding live_paths_def by (rule live_rounds_sound)
next
  let ?lps = "root_paths roots db"
  have "card (path_pair ` set (db_path_infos db)) \<le> length (db_path_infos db)"
    by (rule order_trans[OF card_image_le card_length]) simp
  then have closed: "set (referenced_paths db (live_paths roots db)) \<subseteq> set (live_paths roots db)"
    unfolding live_paths_def by (intro live_rounds_closed) (auto simp: set_root_paths)
  assume "live roots db lp"
  then show "lp \<in> set (live_paths roots db)"
  proof (induction rule: live.induct)
    case (live_root pi)
    then have "path_pair pi \<in> set ?lps" by (auto simp: set_root_paths)
    then show ?case unfolding live_paths_def using live_rounds_mono by blast
  next
    case (live_ref lp pr pi)
    then have "path_pair pi \<in> set (referenced_paths db (live_paths roots db))" unfolding set_referenced_paths by blast
    then show ?case using closed by blast
  qed
qed

lemma live_objects_iff:
  "p \<in> set (live_objects roots db) \<longleftrightarrow>
   (\<exists>lp po. live roots db lp \<and> po \<in> set (db_path_objects db) \<and> po_hash po = fst lp \<and> po_path po = p)"
  by (simp add: live_objects_def live_paths_iff[symmetric] del: split_paired_Ex) blast

subsection \<open>The roots\<close>

lemma root_hash_Inr: "root_hash h = Inr x \<Longrightarrow> hash_str x = h"
  by (auto simp: root_hash_def from_hash_def split: if_splits)

lemma root_hashes: "collect_res root_hash hs = Inr xs \<Longrightarrow> hash_str ` set xs = set hs"
proof (induction hs arbitrary: xs)
  case (Cons h hs)
  then obtain x ys where "root_hash h = Inr x" "collect_res root_hash hs = Inr ys" "xs = x # ys" by auto
  then show ?case using Cons.IH root_hash_Inr by simp
qed simp

definition is_root :: "platform \<Rightarrow> datetime \<Rightarrow> database \<Rightarrow> string \<Rightarrow> bool" where
  "is_root pf now db h \<longleftrightarrow>
     (\<exists>bp\<in>set (db_build_paths db). (\<exists>pr p n. live_ref pf now db pr p n \<and>
        bp_build bp \<in> brow_id ` set (take n (ref_builds (prow_id p) (ref_name pr) db))) \<and> bp_hash bp = h) \<or>
     (\<exists>bp\<in>set (db_build_paths db). \<exists>b\<in>set (db_builds db).
        brow_id b = bp_build bp \<and> brow_status b = ''pending'' \<and> bp_hash bp = h) \<or>
     (\<exists>pin\<in>set (db_pins db). pin_hash pin = h)"

lemma set_pending: "h \<in> set (pending_path_hashes db) \<longleftrightarrow> (\<exists>bp\<in>set (db_build_paths db). \<exists>b\<in>set (db_builds db).
    brow_id b = bp_build bp \<and> brow_status b = ''pending'' \<and> bp_hash bp = h)"
  by (auto simp: pending_path_hashes_def split: if_splits)

lemma roots_iff:
  assumes "list_root_store_path_hashes pf now db = Inr roots" "unique_projects db"
  shows "h \<in> hash_str ` set roots \<longleftrightarrow> is_root pf now db h"
proof -
  from assms(1) obtain ids retained pending pinned where
    ids: "list_retained_build_ids_for_gc pf now db = Inr ids" and
    r: "collect_res root_hash (concat (map (\<lambda>build_id.
       map bp_hash (filter (\<lambda>bp. bp_build bp = build_id) (db_build_paths db))) ids)) = Inr retained"
      "collect_res root_hash (pending_path_hashes db) = Inr pending"
      "collect_res root_hash (remdups (map pin_hash (db_pins db))) = Inr pinned"
      "roots = dedup (sort (retained @ pending @ pinned))"
    by (auto simp: list_root_store_path_hashes_def)
  have "hash_str ` set roots = hash_str ` set retained \<union> hash_str ` set pending \<union> hash_str ` set pinned"
    using r(4) by (simp add: image_Un Un_assoc)
  then have "h \<in> hash_str ` set roots \<longleftrightarrow>
      (\<exists>bp\<in>set (db_build_paths db). bp_build bp \<in> set ids \<and> bp_hash bp = h) \<or>
      h \<in> set (pending_path_hashes db) \<or> (\<exists>pin\<in>set (db_pins db). pin_hash pin = h)"
    using root_hashes[OF r(1)] root_hashes[OF r(2)] root_hashes[OF r(3)] by (simp add: image_iff) blast
  then show ?thesis by (simp only: is_root_def set_pending retained_iff[OF ids assms(2)])
qed

lemma live_mono:
  assumes "live roots db lp" "hash_str ` set roots \<subseteq> hash_str ` set roots'"
  shows "live roots' db lp"
  using assms(1) by induction (use assms(2) in \<open>auto intro: live.intros\<close>)

lemma whole_seconds_mono: "a \<le> b \<Longrightarrow> whole_seconds a \<le> whole_seconds b"
proof -
  assume le: "a \<le> b"
  have "0 \<le> b \<Longrightarrow> 0 \<le> b div 1000000000" by (rule pos_imp_zdiv_nonneg_iff[THEN iffD2]) auto
  moreover have "a < 0 \<Longrightarrow> 0 \<le> (- a) div 1000000000" by (rule pos_imp_zdiv_nonneg_iff[THEN iffD2]) auto
  moreover have "a div 1000000000 \<le> b div 1000000000" "(- b) div 1000000000 \<le> (- a) div 1000000000"
    using le by (auto intro: zdiv_mono1)
  ultimately show ?thesis using le by (auto simp: whole_seconds_def)
qed

text \<open>A ref can only fall out of the retention as time passes.\<close>

lemma ref_active_earlier:
  "ref_is_active pf t2 u ttl = Inr True \<Longrightarrow> t1 \<le> t2 \<Longrightarrow> ref_is_active pf t1 u ttl = Inr True"
proof (cases ttl)
  case (Some v)
  assume a: "ref_is_active pf t2 u ttl = Inr True" "t1 \<le> t2"
  then obtain m n where "parse_time pf ''parsing project ref updated_at'' u = Inr m" "try_i64 v = Some n"
    "whole_seconds (t2 - m) < n" using Some by (auto simp: ref_is_active_def Let_def)
  moreover from this have "whole_seconds (t1 - m) < n" using whole_seconds_mono[of "t1 - m" "t2 - m"] a(2) by simp
  ultimately show ?thesis using Some by (simp add: ref_is_active_def)
qed (simp add: ref_is_active_def)

lemma is_root_earlier: "is_root pf t2 db h \<Longrightarrow> t1 \<le> t2 \<Longrightarrow> is_root pf t1 db h"
proof -
  assume t: "t1 \<le> t2"
  have "live_ref pf t1 db pr p n" if "live_ref pf t2 db pr p n" for pr p n
    using that ref_active_earlier[OF _ t] unfolding live_ref_def by blast
  then show "is_root pf t2 db h \<Longrightarrow> is_root pf t1 db h" unfolding is_root_def by blast
qed

lemma policy_irrelevant:
  "get_project_retention_policy project (db\<lparr>db_objects := t\<rparr>) = get_project_retention_policy project db"
proof -
  have "project_id_by_slug project (db\<lparr>db_objects := t\<rparr>) = project_id_by_slug project db"
    "find_policy i (db\<lparr>db_objects := t\<rparr>) = find_policy i db"
    "project_rules i (db\<lparr>db_objects := t\<rparr>) = project_rules i db" for i
    by (simp_all add: project_id_by_slug_def find_project_def find_policy_def project_rules_def)
  then show ?thesis unfolding get_project_retention_policy_def by presburger
qed

lemma objects_irrelevant:
  "is_root pf now (db\<lparr>db_objects := t\<rparr>) h \<longleftrightarrow> is_root pf now db h"
proof -
  have "live_ref pf now (db\<lparr>db_objects := t\<rparr>) = live_ref pf now db"
    by (intro ext) (simp add: live_ref_def policy_irrelevant)
  moreover have "ref_builds i name (db\<lparr>db_objects := t\<rparr>) = ref_builds i name db" for i name
    by (simp add: ref_builds_def)
  ultimately show ?thesis by (simp add: is_root_def)
qed

lemma live_objects_irrelevant: "live_objects roots (db\<lparr>db_objects := t\<rparr>) = live_objects roots db"
proof -
  have "live_rounds (db\<lparr>db_objects := t\<rparr>) n lps = live_rounds db n lps" for n lps
    by (induction n arbitrary: lps) (simp_all add: referenced_paths_def Let_def)
  then show ?thesis by (simp add: live_objects_def live_paths_def root_paths_def)
qed

lemma object_live_irrelevant: "object_live roots (db\<lparr>db_objects := t\<rparr>) = object_live roots db"
  by (rule ext) (simp add: object_live_def live_objects_irrelevant)

text \<open>C28 (live paths). The recursive query, evaluated in as many rounds as there are paths, finds
  exactly what can be reached along references from the paths of retained and pending builds and of
  pins, whatever the cycles of the reference graph; the listing is sorted.\<close>

theorem live_paths_reachable:
  assumes "list_live_store_path_hashes pf now db = Inr hs" "list_root_store_path_hashes pf now db = Inr roots"
    "unique_projects db"
  shows "(\<forall>h. StorePathHash h \<in> set hs \<longleftrightarrow> (\<exists>path. live roots db (h, path))) \<and>
    (\<forall>h. h \<in> hash_str ` set roots \<longleftrightarrow> is_root pf now db h) \<and> sorted (map hash_str hs) \<and> distinct hs"
proof -
  from assms(1,2) have hs: "collect_res root_hash (order_by (\<lambda>h. h) (remdups (map fst (live_paths roots db)))) = Inr hs"
    by (auto simp: list_live_store_path_hashes_def)
  have eq: "map hash_str hs = order_by (\<lambda>h. h) (remdups (map fst (live_paths roots db)))"
    using hs root_hash_Inr by (induction "order_by (\<lambda>h. h) (remdups (map fst (live_paths roots db)))" arbitrary: hs
        rule: list.induct) (auto simp: collect_res_Inr list_all2_conv_all_nth intro!: nth_equalityI)
  have "StorePathHash h \<in> set hs \<longleftrightarrow> h \<in> set (map hash_str hs)" for h
    using store_path_hash.collapse by (force simp: image_iff)
  then have "StorePathHash h \<in> set hs \<longleftrightarrow> (\<exists>path. live roots db (h, path))" for h
    unfolding eq by (auto simp: live_paths_iff[symmetric] image_iff) force
  moreover have "sorted (map hash_str hs)" unfolding eq by (simp add: order_by_def)
  moreover have "distinct hs"
  proof -
    have "distinct (map hash_str hs)" unfolding eq by (simp add: order_by_def)
    then show ?thesis by (simp add: distinct_map)
  qed
  ultimately show ?thesis using roots_iff[OF assms(2,3)] by blast
qed

text \<open>Clearing and marking in this order, at moments in this order: what is then ready for deletion is
  not live at the later moment.\<close>

lemma clear_Inr:
  assumes "clear_deleted_state_for_live_storage_objects pf now db = (Inr (), db')"
  obtains roots where "list_root_store_path_hashes pf now db = Inr roots"
    "db' = db\<lparr>db_objects := update_rows
       (\<lambda>so. (so_deleted_at so \<noteq> None \<or> so_first_deleted_at so \<noteq> None) \<and> object_live roots db so)
       (\<lambda>so. so\<lparr>so_deleted_at := None, so_first_deleted_at := None\<rparr>) (db_objects db)\<rparr>"
  using assms by (auto simp: clear_deleted_state_for_live_storage_objects_def bind_io_Inr)

lemma mark_Inr:
  assumes "mark_stale_storage_objects pf now db = (Inr (), db')"
  obtains roots where "list_root_store_path_hashes pf now db = Inr roots"
    "db' = db\<lparr>db_objects := update_rows (\<lambda>so. \<not> object_live roots db so)
       (\<lambda>so. so\<lparr>so_deleted_at := coalesce (so_deleted_at so) (sql_now pf now),
                so_first_deleted_at := coalesce (so_first_deleted_at so) (sql_now pf now)\<rparr>)
       (db_objects db)\<rparr>"
  using assms by (auto simp: mark_stale_storage_objects_def bind_io_Inr)

lemma objects_only:
  "clear_deleted_state_for_live_storage_objects pf now db = (Inr (), db') \<Longrightarrow> \<exists>t. db' = db\<lparr>db_objects := t\<rparr>"
  "mark_stale_storage_objects pf now db = (Inr (), db') \<Longrightarrow> \<exists>t. db' = db\<lparr>db_objects := t\<rparr>"
  by (auto elim!: clear_Inr mark_Inr)

lemma later_live:
  assumes "list_root_store_path_hashes pf t2 db = Inr r2" "list_root_store_path_hashes pf t1 db' = Inr r1"
    "db' = db\<lparr>db_objects := t\<rparr>" "t1 \<le> t2" "unique_projects db" "object_live r2 db so"
  shows "object_live r1 db so"
proof -
  have "unique_projects db'" using assms(3,5) by (simp add: unique_projects_def)
  then have r1: "h \<in> hash_str ` set r1 \<longleftrightarrow> is_root pf t1 db h" for h
    using roots_iff[OF assms(2)] by (simp only: assms(3) objects_irrelevant)
  have "hash_str ` set r2 \<subseteq> hash_str ` set r1"
  proof
    fix h assume "h \<in> hash_str ` set r2"
    then have "is_root pf t2 db h" using roots_iff[OF assms(1,5)] by blast
    then show "h \<in> hash_str ` set r1" using is_root_earlier[OF _ assms(4)] r1 by blast
  qed
  then show ?thesis using assms(6) live_mono unfolding object_live_def live_objects_iff by blast
qed

text \<open>One collection: clear at \<open>t1\<close>, mark at \<open>t2\<close>. \<open>gc_marked\<close> bundles the hypotheses.\<close>

definition gc_marked ::
    "platform \<Rightarrow> datetime \<Rightarrow> datetime \<Rightarrow> database \<Rightarrow> store_path_hash list \<Rightarrow> database \<Rightarrow> bool" where
  "gc_marked pf t1 t2 db roots db2 \<longleftrightarrow> (\<exists>db1.
     clear_deleted_state_for_live_storage_objects pf t1 db = (Inr (), db1) \<and>
     mark_stale_storage_objects pf t2 db1 = (Inr (), db2)) \<and>
     t1 \<le> t2 \<and> unique_projects db \<and> list_root_store_path_hashes pf t2 db = Inr roots"

lemma gc_marked_objects:
  assumes "gc_marked pf t1 t2 db roots db2"
  shows "\<exists>t. db2 = db\<lparr>db_objects := t\<rparr>"
    "so \<in> set (db_objects db2) \<Longrightarrow> object_live roots db so \<Longrightarrow> so_deleted_at so = None"
    "so \<in> set (db_objects db2) \<Longrightarrow> \<not> object_live roots db so \<Longrightarrow>
       so_deleted_at so \<noteq> None \<and> so_first_deleted_at so \<noteq> None"
    "so \<in> set (db_objects db) \<Longrightarrow> object_live roots db so \<Longrightarrow>
       so\<lparr>so_deleted_at := None, so_first_deleted_at := None\<rparr> \<in> set (db_objects db2)"
proof -
  from assms obtain db1 where clear: "clear_deleted_state_for_live_storage_objects pf t1 db = (Inr (), db1)" and
    mark: "mark_stale_storage_objects pf t2 db1 = (Inr (), db2)" and t: "t1 \<le> t2" and
    u: "unique_projects db" and roots: "list_root_store_path_hashes pf t2 db = Inr roots"
    by (auto simp: gc_marked_def)
  from clear obtain r1 where r1: "list_root_store_path_hashes pf t1 db = Inr r1"
    "db1 = db\<lparr>db_objects := update_rows
       (\<lambda>so. (so_deleted_at so \<noteq> None \<or> so_first_deleted_at so \<noteq> None) \<and> object_live r1 db so)
       (\<lambda>so. so\<lparr>so_deleted_at := None, so_first_deleted_at := None\<rparr>) (db_objects db)\<rparr>"
    by (rule clear_Inr)
  from mark obtain r2 where r2: "list_root_store_path_hashes pf t2 db1 = Inr r2"
    "db2 = db1\<lparr>db_objects := update_rows (\<lambda>so. \<not> object_live r2 db1 so)
       (\<lambda>so. so\<lparr>so_deleted_at := coalesce (so_deleted_at so) (sql_now pf t2),
                so_first_deleted_at := coalesce (so_first_deleted_at so) (sql_now pf t2)\<rparr>)
       (db_objects db1)\<rparr>" by (rule mark_Inr)
  have same: "object_live r2 db1 = object_live roots db"
  proof
    fix so
    have u1: "unique_projects db1" using u by (simp add: r1(2) unique_projects_def)
    have o1: "object_live r2 db1 = object_live r2 db" by (simp add: r1(2) object_live_irrelevant)
    have "hash_str ` set r2 = hash_str ` set roots"
      by (rule set_eqI) (simp only: roots_iff[OF r2(1) u1] roots_iff[OF roots u] r1(2) objects_irrelevant)
    then have "live r2 db = live roots db" using live_mono by (intro ext iffI) (metis order_refl)+
    then show "object_live r2 db1 so = object_live roots db so"
      unfolding o1 object_live_def live_objects_iff by simp
  qed
  have t1: "db_objects db1 = update_rows
       (\<lambda>so. (so_deleted_at so \<noteq> None \<or> so_first_deleted_at so \<noteq> None) \<and> object_live r1 db so)
       (\<lambda>so. so\<lparr>so_deleted_at := None, so_first_deleted_at := None\<rparr>) (db_objects db)" by (simp add: r1(2))
  have t2: "db_objects db2 = update_rows (\<lambda>so. \<not> object_live roots db so)
       (\<lambda>so. so\<lparr>so_deleted_at := coalesce (so_deleted_at so) (sql_now pf t2),
                so_first_deleted_at := coalesce (so_first_deleted_at so) (sql_now pf t2)\<rparr>) (db_objects db1)"
    using r2(2) same by simp
  have later: "object_live r1 db so" if "object_live roots db so" for so
    using later_live[OF roots r1(1) _ t u that, of "db_objects db"] by simp
  have path: "object_live roots db (so\<lparr>so_deleted_at := a, so_first_deleted_at := b\<rparr>) = object_live roots db so"
    for so a b by (simp add: object_live_def)
  show "\<exists>t. db2 = db\<lparr>db_objects := t\<rparr>" using objects_only(1)[OF clear] objects_only(2)[OF mark] by auto
  show "so_deleted_at so = None" if so: "so \<in> set (db_objects db2)" "object_live roots db so"
    using so(1) unfolding t2
  proof (cases rule: update_rows_cases)
    case same
    from same(1) show ?thesis unfolding t1
    proof (cases rule: update_rows_cases)
      case same
      then show ?thesis using later[OF so(2)] by simp
    qed simp
  next
    case (changed y)
    then show ?thesis using so(2) path by simp
  qed
  show "so_deleted_at so \<noteq> None \<and> so_first_deleted_at so \<noteq> None"
    if so: "so \<in> set (db_objects db2)" "\<not> object_live roots db so"
    using so(1) unfolding t2
    by (cases rule: update_rows_cases) (use so(2) in \<open>simp_all add: coalesce_def split: option.splits\<close>)
  show "so\<lparr>so_deleted_at := None, so_first_deleted_at := None\<rparr> \<in> set (db_objects db2)"
    if so: "so \<in> set (db_objects db)" "object_live roots db so"
  proof -
    let ?so = "so\<lparr>so_deleted_at := None, so_first_deleted_at := None\<rparr>"
    have "?so \<in> set (db_objects db1)"
    proof (cases "so_deleted_at so = None \<and> so_first_deleted_at so = None")
      case True
      then have e: "?so = so" by (cases so) simp
      show ?thesis unfolding e t1 using so True by (intro update_rows_same) auto
    next
      case False
      then show ?thesis unfolding t1 using so later by (intro update_rows_changed) auto
    qed
    then show ?thesis unfolding t2 using so(2) path by (intro update_rows_same) simp_all
  qed
qed

lemma ready_dead:
  "gc_marked pf t1 t2 db roots db2 \<Longrightarrow> so \<in> set (db_objects db2) \<Longrightarrow> ready_for_deletion pf t3 grace so \<Longrightarrow>
   \<not> object_live roots db so"
  using gc_marked_objects(2) by (auto simp: ready_for_deletion_def)

lemma object_key_of_Inr: "object_key_of so = Inr k \<Longrightarrow> object_key_pair k = so_key so"
  by (auto simp: object_key_of_def object_key_pair_def so_key_def storage_id_new_Inr)

lemma list_ready_Inr:
  assumes "list_storage_objects_ready_for_deletion pf now grace db = Inr ks" "k \<in> set ks"
  shows "\<exists>so\<in>set (db_objects db). ready_for_deletion pf now grace so \<and> so_key so = object_key_pair k"
  using collect_res_from[OF assms(1)[unfolded list_storage_objects_ready_for_deletion_def] assms(2)]
  by (force dest: object_key_of_Inr)

lemma fold_delete: "set (fold (\<lambda>object. delete_rows (\<lambda>so. so_key so = object_key_pair object)) ks t) =
    {so \<in> set t. so_key so \<notin> object_key_pair ` set ks}"
  by (induction ks arbitrary: t) auto

subsection \<open>Instances\<close>

definition path_a :: string where "path_a = replicate 32 (CHR ''a'')"
definition path_b :: string where "path_b = replicate 32 (CHR ''b'')"
definition path_c :: string where "path_c = replicate 32 (CHR ''c'')"

definition gc_path :: "string \<Rightarrow> path_info_row" where
  "gc_path h = \<lparr>pirow_hash = h, pirow_store_path = h @ ''-x'', pirow_url = ''nar/'' @ h, pirow_compression = ''none'',
     pirow_nar_hash = ''sha256:0'', pirow_nar_size = 1, pirow_deriver = None, pirow_ca = None\<rparr>"

definition gc_object :: "string \<Rightarrow> storage_object_row" where
  "gc_object h = \<lparr>so_storage_id = ''main'', so_object_path = ''nar/'' @ h, so_content_type = ''x'',
     so_content_length = None, so_etag = None, so_last_modified = None, so_deleted_at = None,
     so_first_deleted_at = None\<rparr>"

text \<open>A database with a published path that references another and itself is referenced by it, and a third
  path that nothing publishes.\<close>

definition gc_db :: database where
  "gc_db = demo_db\<lparr>db_path_infos := map gc_path [path_a, path_b, path_c],
     db_references := [\<lparr>pt_hash = path_a, pt_text = path_b @ ''-x'', pt_ordinal = 0\<rparr>,
       \<lparr>pt_hash = path_b, pt_text = path_a @ ''-x'', pt_ordinal = 0\<rparr>],
     db_builds := [\<lparr>brow_id = ''b1'', brow_project_id = ''p1'', brow_ref_name = ''refs/heads/main'',
         brow_revision = None, brow_status = ''finalized'', brow_created_at = ''0'', brow_finalized_at = Some ''1''\<rparr>],
     db_build_paths := [\<lparr>bp_build = ''b1'', bp_hash = path_a\<rparr>],
     db_refs := [\<lparr>ref_project = ''p1'', ref_name = ''refs/heads/main'', ref_build = ''b1'', ref_updated_at = ''1''\<rparr>],
     db_path_objects := map (\<lambda>h. \<lparr>po_hash = h, po_path = ''nar/'' @ h, po_kind = ''nar''\<rparr>) [path_a, path_b, path_c],
     db_objects := map gc_object [path_a, path_b, path_c]\<rparr>"

lemma gc_projects: "unique_projects gc_db"
  using demo_projects by (simp add: unique_projects_def gc_db_def)

lemma gc_roots: "list_root_store_path_hashes std_platform 7 gc_db = Inr [StorePathHash path_a]"
  by code_simp

lemma gc_live: "list_live_store_path_hashes std_platform 7 gc_db = Inr [StorePathHash path_a, StorePathHash path_b]"
  by code_simp

theorem live_paths_reachable_witness:
  "(\<exists>path. live [StorePathHash path_a] gc_db (path_b, path)) \<and> \<not> (\<exists>path. live [StorePathHash path_a] gc_db (path_c, path))"
proof -
  have n: "path_c \<noteq> path_a" "path_c \<noteq> path_b" by code_simp+
  have "StorePathHash h \<in> {StorePathHash path_a, StorePathHash path_b} \<longleftrightarrow>
      (\<exists>path. live [StorePathHash path_a] gc_db (h, path))" for h
    using conjunct1[OF live_paths_reachable[OF gc_live gc_roots gc_projects]] by simp
  from this[of path_b] this[of path_c] n show ?thesis by simp
qed

end
