(* ===== verification/GcService.thy ===== *)
theory GcService
  imports Backends DbGc
begin

text \<open>
  \<^verbatim>\<open>crates/depot-ingest/src/gc.rs\<close>: a run of the garbage collection over the database and the
  storages. The three statements of the database run at the times \<open>t1\<close>, \<open>t2\<close> and \<open>t3\<close>.
\<close>

record run_gc_request =
  rgq_dry_run :: bool
  rgq_grace_period_seconds :: "64 word option"

record run_gc_response =
  rgr_deleted_objects :: "string list"
  rgr_deleted_count :: nat

definition DEFAULT_GC_GRACE_PERIOD_SECONDS :: int where
  "DEFAULT_GC_GRACE_PERIOD_SECONDS = 6 * 60 * 60"

text \<open>Objects in a storage that is not configured are skipped; an error of a storage ends the run.\<close>

definition gc_delete_object :: "'w storage_catalog \<Rightarrow> storage_object_key \<Rightarrow> ('w, anyhow, bool) io" where
  "gc_delete_object cat object =
     (case catalog_storage cat (sok_storage_id object) of
        Inl e \<Rightarrow> return_io False
      | Inr storage \<Rightarrow>
          bind_io (io_context ''deleting object'' (ds_delete storage (sok_object_path object))) (\<lambda>_. return_io True))"

fun gc_delete_objects ::
    "'w storage_catalog \<Rightarrow> storage_object_key list \<Rightarrow> ('w, anyhow, storage_object_key list) io" where
  "gc_delete_objects cat [] = return_io []"
| "gc_delete_objects cat (object # objects) =
     bind_io (gc_delete_object cat object) (\<lambda>deleted.
     bind_io (gc_delete_objects cat objects) (\<lambda>rest.
     return_io (if deleted then object # rest else rest)))"

text \<open>A run is the marking of what is stale and the deletion of what has been stale for long enough.\<close>

definition gc_mark ::
    "platform \<Rightarrow> datetime \<Rightarrow> datetime \<Rightarrow> datetime \<Rightarrow> int \<Rightarrow> storage_object_key list db_op" where
  "gc_mark pf t1 t2 t3 grace_period_seconds =
     bind_io (clear_deleted_state_for_live_storage_objects pf t1) (\<lambda>_.
     bind_io (mark_stale_storage_objects pf t2) (\<lambda>_.
     query_io (list_storage_objects_ready_for_deletion pf t3 grace_period_seconds)))"

definition gc_sweep ::
    "'w storage_catalog \<Rightarrow> storage_object_key list \<Rightarrow> ('w world, anyhow, run_gc_response) io" where
  "gc_sweep cat ready_objects =
     bind_io (on_storage (gc_delete_objects cat ready_objects)) (\<lambda>deleted_rows.
     bind_io (on_db (delete_storage_objects deleted_rows)) (\<lambda>_.
     return_io \<lparr>rgr_deleted_objects = map sok_object_path deleted_rows, rgr_deleted_count = length deleted_rows\<rparr>))"

definition run_local_gc_with_grace_period ::
    "platform \<Rightarrow> datetime \<Rightarrow> datetime \<Rightarrow> datetime \<Rightarrow> 'w storage_catalog \<Rightarrow> bool \<Rightarrow> int \<Rightarrow>
     ('w world, anyhow, run_gc_response) io" where
  "run_local_gc_with_grace_period pf t1 t2 t3 cat dry_run grace_period_seconds =
     (if dry_run then
        bind_io (on_db (query_io (list_stale_storage_objects pf t1))) (\<lambda>stale_objects.
        return_io \<lparr>rgr_deleted_objects = map sok_object_path stale_objects, rgr_deleted_count = length stale_objects\<rparr>)
      else
        bind_io (on_db (gc_mark pf t1 t2 t3 grace_period_seconds)) (gc_sweep cat))"

definition run_local_gc ::
    "platform \<Rightarrow> datetime \<Rightarrow> datetime \<Rightarrow> datetime \<Rightarrow> 'w storage_catalog \<Rightarrow> bool \<Rightarrow>
     ('w world, anyhow, run_gc_response) io" where
  "run_local_gc pf t1 t2 t3 cat dry_run =
     run_local_gc_with_grace_period pf t1 t2 t3 cat dry_run DEFAULT_GC_GRACE_PERIOD_SECONDS"

subsection \<open>Deleting\<close>

definition deletable :: "'w storage_catalog \<Rightarrow> storage_object_key \<Rightarrow> bool" where
  "deletable cat k = is_ok (catalog_storage cat (sok_storage_id k))"

lemma gc_delete_objects_Inr:
  "gc_delete_objects cat ks w = (Inr ds, w') \<Longrightarrow> ds = filter (deletable cat) ks"
proof (induction ks arbitrary: w ds)
  case (Cons k ks)
  from Cons.prems obtain d w1 rest where "gc_delete_object cat k w = (Inr d, w1)" "gc_delete_objects cat ks w1 = (Inr rest, w')"
    "ds = (if d then k # rest else rest)" by (auto simp: bind_io_Inr)
  moreover from this(1) have "d = deletable cat k"
    by (auto simp: gc_delete_object_def deletable_def bind_io_Inr split: sum.splits)
  ultimately show ?case using Cons.IH by simp
qed simp

context storage_backends
begin

lemma gc_delete_object_effect:
  assumes "gc_delete_object cat k w = (r, w')" "ok w" "visible (sok_object_path k)" "visible q"
  shows "ok w' \<and> (contents j w' q = contents j w q \<or>
      sok_storage_id k = j \<and> key j q = key j (sok_object_path k) \<and> contents j w' q = None) \<and>
    (\<forall>d. r = Inr d \<longrightarrow> d = deletable cat k \<and>
      (d \<and> sok_storage_id k = j \<and> key j q = key j (sok_object_path k) \<longrightarrow> contents j w' q = None))"
proof (cases "catalog_storage cat (sok_storage_id k)")
  case (Inl e)
  then show ?thesis using assms by (auto simp: gc_delete_object_def return_io_def deletable_def)
next
  case (Inr st)
  obtain r1 w1 where d: "ds_delete st (sok_object_path k) w = (r1, w1)" by fastforce
  have "w' = w1 \<and> (\<forall>d. r = Inr d \<longrightarrow> d \<and> is_ok r1)" using assms(1) Inr d
    by (cases r1) (auto simp: gc_delete_object_def bind_io_def io_context_def context_err_def return_io_def)
  then show ?thesis using delete_backend[OF Inr d assms(2-4), of j] Inr
    by (cases "is_ok r1") (auto simp: written_def deletable_def)
qed

lemma gc_delete_objects_effect:
  assumes "gc_delete_objects cat ks w = (r, w')" "ok w" "list_all (\<lambda>k. visible (sok_object_path k)) ks" "visible q"
  shows "ok w' \<and> (contents j w' q = contents j w q \<or>
      (\<exists>k\<in>set ks. sok_storage_id k = j \<and> key j q = key j (sok_object_path k)) \<and> contents j w' q = None) \<and>
    (\<forall>ds. r = Inr ds \<longrightarrow> ds = filter (deletable cat) ks \<and>
      ((\<exists>k\<in>set ds. sok_storage_id k = j \<and> key j q = key j (sok_object_path k)) \<longrightarrow> contents j w' q = None))"
  using assms
proof (induction ks arbitrary: w r w')
  case (Cons k ks)
  obtain r1 w1 where one: "gc_delete_object cat k w = (r1, w1)" by fastforce
  note e = gc_delete_object_effect[OF one Cons.prems(2) _ Cons.prems(4), of j]
  show ?case
  proof (cases r1)
    case (Inl err)
    then show ?thesis using e Cons.prems one by (auto simp: bind_io_def)
  next
    case (Inr d)
    obtain r2 w2 where two: "gc_delete_objects cat ks w1 = (r2, w2)" by fastforce
    have rw: "w' = w2" "r = Inl err \<longleftrightarrow> r2 = Inl err" "r = Inr ds \<longleftrightarrow> (\<exists>rest. r2 = Inr rest \<and> ds = (if d then k # rest else rest))"
      for err ds using Cons.prems(1) one two Inr by (cases r2; auto simp: bind_io_def return_io_def)+
    have "ok w1" "list_all (\<lambda>k. visible (sok_object_path k)) ks" using e Cons.prems(3) by simp_all
    note ih = Cons.IH[OF two this Cons.prems(4)]
    show ?thesis unfolding rw using e ih Inr Cons.prems(3) by (cases d) auto
  qed
qed (auto simp: return_io_def)

end
subsection \<open>Runs\<close>

lemma so_key_tombstone [simp]: "so_key (so\<lparr>so_deleted_at := a, so_first_deleted_at := b\<rparr>) = so_key so"
  by (simp add: so_key_def)

lemma clear_keys: "clear_deleted_state_for_live_storage_objects pf t db = (r, db') \<Longrightarrow>
    map so_key (db_objects db') = map so_key (db_objects db)"
  by (cases "list_root_store_path_hashes pf t db")
    (auto simp: clear_deleted_state_for_live_storage_objects_def io_defs map_update_key)

lemma mark_keys: "mark_stale_storage_objects pf t db = (r, db') \<Longrightarrow>
    map so_key (db_objects db') = map so_key (db_objects db)"
  by (cases "list_root_store_path_hashes pf t db")
    (auto simp: mark_stale_storage_objects_def io_defs map_update_key)

lemma gc_mark_cases:
  assumes "gc_mark pf t1 t2 t3 grace db = (r, db2)"
  shows "map so_key (db_objects db2) = map so_key (db_objects db)"
    "r = Inr ready \<Longrightarrow> list_root_store_path_hashes pf t2 db = Inr roots \<Longrightarrow> t1 \<le> t2 \<Longrightarrow> unique_projects db \<Longrightarrow>
      gc_marked pf t1 t2 db roots db2 \<and> list_storage_objects_ready_for_deletion pf t3 grace db2 = Inr ready"
proof -
  from assms have "map so_key (db_objects db2) = map so_key (db_objects db) \<and> (\<forall>ready roots. r = Inr ready \<longrightarrow>
      list_root_store_path_hashes pf t2 db = Inr roots \<longrightarrow> t1 \<le> t2 \<longrightarrow> unique_projects db \<longrightarrow>
      gc_marked pf t1 t2 db roots db2 \<and> list_storage_objects_ready_for_deletion pf t3 grace db2 = Inr ready)"
    unfolding gc_mark_def
  proof (cases rule: bind_io_cases)
    case (1 e)
    then show ?thesis using clear_keys by simp
  next
    case c: (2 u db1)
    from c(2) show ?thesis
    proof (cases rule: bind_io_cases)
      case (1 e)
      then show ?thesis using clear_keys[OF c(1)] mark_keys by simp
    next
      case (2 u db1')
      then show ?thesis using clear_keys[OF c(1)] mark_keys c(1) by (auto simp: gc_marked_def query_io_def)
    qed
  qed
  then show "map so_key (db_objects db2) = map so_key (db_objects db)"
    "r = Inr ready \<Longrightarrow> list_root_store_path_hashes pf t2 db = Inr roots \<Longrightarrow> t1 \<le> t2 \<Longrightarrow> unique_projects db \<Longrightarrow>
      gc_marked pf t1 t2 db roots db2 \<and> list_storage_objects_ready_for_deletion pf t3 grace db2 = Inr ready" by blast+
qed

lemma gc_sweep_cases:
  assumes "gc_sweep cat ks (db, w) = (r, db', w')"
  obtains rd where "gc_delete_objects cat ks w = (rd, w')"
    "(\<exists>e. rd = Inl e \<and> r = Inl e \<and> db' = db) \<or>
     (\<exists>ds. rd = Inr ds \<and> r = Inr \<lparr>rgr_deleted_objects = map sok_object_path ds, rgr_deleted_count = length ds\<rparr> \<and>
        db' = db\<lparr>db_objects := fold (\<lambda>object. delete_rows (\<lambda>so. so_key so = object_key_pair object)) ds (db_objects db)\<rparr>)"
proof -
  obtain rd w1 where d: "gc_delete_objects cat ks w = (rd, w1)" by fastforce
  have "w' = w1 \<and> ((\<exists>e. rd = Inl e \<and> r = Inl e \<and> db' = db) \<or>
     (\<exists>ds. rd = Inr ds \<and> r = Inr \<lparr>rgr_deleted_objects = map sok_object_path ds, rgr_deleted_count = length ds\<rparr> \<and>
        db' = db\<lparr>db_objects := fold (\<lambda>object. delete_rows (\<lambda>so. so_key so = object_key_pair object)) ds (db_objects db)\<rparr>))"
    using assms d by (cases rd) (auto simp: gc_sweep_def bind_io_def on_storage_def on_db_def return_io_def
        delete_storage_objects_def tx_io_def)
  then show ?thesis using that d by blast
qed

lemma run_gc_cases:
  assumes "run_local_gc_with_grace_period pf t1 t2 t3 cat False grace (db, w) = (r, db', w')"
  obtains e where "gc_mark pf t1 t2 t3 grace db = (Inl e, db')" "r = Inl e" "w' = w"
    | ks db2 where "gc_mark pf t1 t2 t3 grace db = (Inr ks, db2)" "gc_sweep cat ks (db2, w) = (r, db', w')"
proof -
  obtain rm db2 where m: "gc_mark pf t1 t2 t3 grace db = (rm, db2)" by fastforce
  show ?thesis using assms m that
    by (cases rm) (auto simp: run_local_gc_with_grace_period_def bind_io_def on_db_def)
qed

text \<open>What the rows of the database have to satisfy: their paths are paths of objects, and no two of them
  name the same object of a storage.\<close>

definition distinct_objects :: "(storage_id \<Rightarrow> string \<Rightarrow> 'k) \<Rightarrow> (string \<Rightarrow> bool) \<Rightarrow> database \<Rightarrow> bool" where
  "distinct_objects key visible db \<longleftrightarrow> (\<forall>so\<in>set (db_objects db). visible (so_object_path so) \<and>
     (\<forall>so'\<in>set (db_objects db). \<forall>i. key i (so_object_path so) = key i (so_object_path so') \<longrightarrow>
        so_object_path so = so_object_path so'))"

lemma distinct_objects_paths: "distinct_objects key visible db \<longleftrightarrow> (\<forall>p\<in>so_object_path ` set (db_objects db).
    visible p \<and> (\<forall>p'\<in>so_object_path ` set (db_objects db). \<forall>i. key i p = key i p' \<longrightarrow> p = p'))"
  by (auto simp: distinct_objects_def)

lemma distinct_objects_keys:
  assumes "distinct_objects key visible db" "map so_key (db_objects db2) = map so_key (db_objects db)"
  shows "distinct_objects key visible db2"
proof -
  have "so_object_path ` set (db_objects db2) = so_object_path ` set (db_objects db)"
    using arg_cong[OF assms(2), of "\<lambda>l. snd ` set l"] by (simp add: image_image so_key_def)
  then show ?thesis using assms(1) by (simp only: distinct_objects_paths)
qed

text \<open>The keys that are ready come from rows of dead objects.\<close>

lemma ready_keys:
  assumes "gc_marked pf t1 t2 db roots db2" "list_storage_objects_ready_for_deletion pf t3 grace db2 = Inr ks" "k \<in> set ks"
  obtains so where "so \<in> set (db_objects db2)" "so_key so = object_key_pair k" "ready_for_deletion pf t3 grace so"
    "so_object_path so = sok_object_path k" "sok_object_path k \<notin> set (live_objects roots db)"
proof -
  from list_ready_Inr[OF assms(2,3)] obtain so where so: "so \<in> set (db_objects db2)" "ready_for_deletion pf t3 grace so"
    "so_key so = object_key_pair k" by blast
  then have "so_object_path so = sok_object_path k" by (simp add: so_key_def object_key_pair_def)
  then show ?thesis using that so ready_dead[OF assms(1) so(1,2)] by (simp add: object_live_def)
qed

lemma ready_distinct:
  assumes "gc_mark pf t1 t2 t3 grace db = (Inr ks, db2)" "gc_marked pf t1 t2 db roots db2"
    "list_storage_objects_ready_for_deletion pf t3 grace db2 = Inr ks" "distinct_objects key visible db" "k \<in> set ks"
  shows "visible (sok_object_path k)" "sok_object_path k \<notin> set (live_objects roots db)"
    "so \<in> set (db_objects db) \<Longrightarrow> key i (so_object_path so) = key i (sok_object_path k) \<Longrightarrow> so_object_path so = sok_object_path k"
proof -
  obtain so2 where k: "so2 \<in> set (db_objects db2)" "so_object_path so2 = sok_object_path k"
    "sok_object_path k \<notin> set (live_objects roots db)" by (rule ready_keys[OF assms(2,3,5)]) blast
  note keys = gc_mark_cases(1)[OF assms(1)]
  note d = distinct_objects_keys[OF assms(4) keys]
  show "visible (sok_object_path k)" "sok_object_path k \<notin> set (live_objects roots db)"
    using d k by (auto simp: distinct_objects_def)
  show "so_object_path so = sok_object_path k"
    if so: "so \<in> set (db_objects db)" "key i (so_object_path so) = key i (sok_object_path k)"
  proof -
    from so(1) arg_cong[OF keys, of set] obtain so' where so': "so' \<in> set (db_objects db2)" "so_key so' = so_key so"
      by (metis imageE image_eqI list.set_map)
    have p: "so_object_path so' = so_object_path so" using so'(2) by (simp add: so_key_def)
    have "so_object_path so' = so_object_path so2" using d so'(1) k(1,2) so(2) p unfolding distinct_objects_def by metis
    then show ?thesis using p k(2) by simp
  qed
qed

text \<open>C8 (live objects survive). Whatever fails in a run, and whatever it deletes, an object that is live
  keeps its content in every storage and its rows; a run that succeeds clears their tombstones.\<close>

theorem gc_keeps_live:
  assumes "storage_backends cat contents key visible ok" "ok w" "distinct_objects key visible db"
    "unique_projects db" "t1 \<le> t2" "list_root_store_path_hashes pf t2 db = Inr roots"
    "so \<in> set (db_objects db)" "so_object_path so \<in> set (live_objects roots db)"
    "run_local_gc_with_grace_period pf t1 t2 t3 cat False grace (db, w) = (r, db', w')"
  shows "contents i w' (so_object_path so) = contents i w (so_object_path so) \<and>
    (\<exists>so'\<in>set (db_objects db'). so_key so' = so_key so \<and> (is_ok r \<longrightarrow> so_deleted_at so' = None))"
  using assms(9)
proof (cases rule: run_gc_cases)
  case (1 e)
  then have "so_key so \<in> so_key ` set (db_objects db')"
    using arg_cong[OF gc_mark_cases(1)[OF 1(1)], of set] assms(7) by simp
  then obtain so' where "so' \<in> set (db_objects db')" "so_key so' = so_key so" by (auto simp: image_iff)
  then show ?thesis using 1 by auto
next
  case (2 ks db2)
  from gc_mark_cases(2)[OF 2(1) refl assms(6,5,4)] have
    m: "gc_marked pf t1 t2 db roots db2" "list_storage_objects_ready_for_deletion pf t3 grace db2 = Inr ks" by blast+
  note rd = ready_distinct[OF 2(1) m assms(3)]
  from 2(2) obtain rr where del: "gc_delete_objects cat ks w = (rr, w')" and
    res: "(\<exists>e. rr = Inl e \<and> r = Inl e \<and> db' = db2) \<or>
     (\<exists>ds. rr = Inr ds \<and> r = Inr \<lparr>rgr_deleted_objects = map sok_object_path ds, rgr_deleted_count = length ds\<rparr> \<and>
        db' = db2\<lparr>db_objects := fold (\<lambda>object. delete_rows (\<lambda>so. so_key so = object_key_pair object)) ds (db_objects db2)\<rparr>)"
    by (rule gc_sweep_cases)
  have vis: "list_all (\<lambda>k. visible (sok_object_path k)) ks" "visible (so_object_path so)"
    using rd(1) assms(3,7) by (auto simp: list_all_iff distinct_objects_def)
  note eff = storage_backends.gc_delete_objects_effect[OF assms(1) del assms(2) vis, of i]
  have "contents i w' (so_object_path so) = contents i w (so_object_path so)"
    using eff rd(2) rd(3)[OF _ assms(7), of _ i] assms(8) by fastforce
  moreover
  let ?so = "so\<lparr>so_deleted_at := None, so_first_deleted_at := None\<rparr>"
  have in2: "?so \<in> set (db_objects db2)"
    by (rule gc_marked_objects(4)[OF m(1) assms(7)]) (simp add: object_live_def assms(8))
  have "so_key so \<notin> object_key_pair ` set ks"
    using rd(2) assms(8) by (auto simp: so_key_def object_key_pair_def)
  then have "?so \<in> set (db_objects db')" using res in2 eff by (auto simp: fold_delete)
  ultimately show ?thesis by (intro conjI bexI[of _ ?so]) (simp_all add: so_key_def)
qed

definition collected :: "platform \<Rightarrow> datetime \<Rightarrow> int \<Rightarrow> 'w storage_catalog \<Rightarrow> storage_object_row \<Rightarrow> bool" where
  "collected pf now grace cat so \<longleftrightarrow> ready_for_deletion pf now grace so \<and> is_ok (catalog_storage cat (StorageId (so_storage_id so)))"

definition key_of_row :: "storage_object_row \<Rightarrow> storage_object_key" where
  "key_of_row so = \<lparr>sok_storage_id = StorageId (so_storage_id so), sok_object_path = so_object_path so\<rparr>"

lemma key_of_row_Inr: "object_key_of so = Inr k \<Longrightarrow> k = key_of_row so"
  by (auto simp: object_key_of_def key_of_row_def storage_id_new_Inr)

lemma keys_of_rows: "collect_res object_key_of sos = Inr ks \<Longrightarrow> ks = map key_of_row sos"
  by (induction sos arbitrary: ks) (auto dest: key_of_row_Inr)

lemma pair_of_row [simp]: "object_key_pair (key_of_row so) = so_key so"
  by (simp add: object_key_pair_def key_of_row_def so_key_def)

lemma deletable_row [simp]: "deletable cat (key_of_row so) = is_ok (catalog_storage cat (StorageId (so_storage_id so)))"
  by (simp add: deletable_def key_of_row_def)


text \<open>A row without a tombstone gets the time of the marking.\<close>

lemma marked_first:
  assumes "gc_mark pf t1 t2 t3 grace db = (Inr ks, db2)" "so \<in> set (db_objects db)" "so_first_deleted_at so = None"
  shows "\<exists>so'\<in>set (db_objects db2). so_key so' = so_key so \<and> so_first_deleted_at so' \<in> {None, Some (sql_now pf t2)}"
proof -
  from assms(1) obtain db1 where c: "clear_deleted_state_for_live_storage_objects pf t1 db = (Inr (), db1)"
    and m: "mark_stale_storage_objects pf t2 db1 = (Inr (), db2)" by (auto simp: gc_mark_def bind_io_Inr)
  from c obtain r1 where r1: "db_objects db1 = update_rows
       (\<lambda>so. (so_deleted_at so \<noteq> None \<or> so_first_deleted_at so \<noteq> None) \<and> object_live r1 db so)
       (\<lambda>so. so\<lparr>so_deleted_at := None, so_first_deleted_at := None\<rparr>) (db_objects db)"
    by (auto elim!: clear_Inr simp del: set_update)
  obtain so1 where so1: "so1 \<in> set (db_objects db1)" "so_key so1 = so_key so" "so_first_deleted_at so1 = None"
  proof (cases "(so_deleted_at so \<noteq> None \<or> so_first_deleted_at so \<noteq> None) \<and> object_live r1 db so")
    case True
    have "so\<lparr>so_deleted_at := None, so_first_deleted_at := None\<rparr> \<in> set (db_objects db1)"
      unfolding r1 by (rule update_rows_changed[OF assms(2), where f = "\<lambda>so. so\<lparr>so_deleted_at := None, so_first_deleted_at := None\<rparr>"])
        (rule True)
    then show ?thesis by (rule that) simp_all
  next
    case False
    then have "so \<in> set (db_objects db1)" unfolding r1 by (rule update_rows_same[OF assms(2)])
    then show ?thesis by (rule that) (simp_all add: assms(3))
  qed
  from m obtain r2 where r2: "db_objects db2 = update_rows (\<lambda>so. \<not> object_live r2 db1 so)
       (\<lambda>so. so\<lparr>so_deleted_at := coalesce (so_deleted_at so) (sql_now pf t2),
                so_first_deleted_at := coalesce (so_first_deleted_at so) (sql_now pf t2)\<rparr>) (db_objects db1)"
    by (auto elim!: mark_Inr simp del: set_update)
  show ?thesis
  proof (cases "object_live r2 db1 so1")
    case True
    then show ?thesis using update_rows_same[OF so1(1)] so1 unfolding r2 by (intro bexI[of _ so1]) simp_all
  next
    case False
    then have "so1\<lparr>so_deleted_at := coalesce (so_deleted_at so1) (sql_now pf t2),
                so_first_deleted_at := coalesce (so_first_deleted_at so1) (sql_now pf t2)\<rparr> \<in> set (db_objects db2)"
      unfolding r2 by (intro update_rows_changed[OF so1(1)]) simp
    then show ?thesis using so1 by (intro bexI) (simp_all add: coalesce_def)
  qed
qed

text \<open>C13 (the grace period). An object without a tombstone is not deleted by a run that takes less time than
  the grace period, whether it is live or not: its content and its row stay.\<close>

theorem gc_grace:
  assumes "storage_backends cat contents key visible ok" "ok w" "distinct_objects key visible db"
    "unique_key so_key (db_objects db)" "platform_ok pf" "0 \<le> t2" "t3 div 1000000000 - t2 div 1000000000 < grace"
    "so \<in> set (db_objects db)" "so_first_deleted_at so = None"
    "run_local_gc_with_grace_period pf t1 t2 t3 cat False grace (db, w) = (r, db', w')"
  shows "contents (StorageId (so_storage_id so)) w' (so_object_path so) = contents (StorageId (so_storage_id so)) w (so_object_path so) \<and>
    so_key so \<in> so_key ` set (db_objects db')"
  using assms(10)
proof (cases rule: run_gc_cases)
  case (1 e)
  then show ?thesis using arg_cong[OF gc_mark_cases(1)[OF 1(1)], of set] assms(8) by auto
next
  case (2 ks db2)
  let ?i = "StorageId (so_storage_id so)"
  obtain so' where so': "so' \<in> set (db_objects db2)" "so_key so' = so_key so"
    "so_first_deleted_at so' \<in> {None, Some (sql_now pf t2)}" using marked_first[OF 2(1) assms(8,9)] by blast
  have "unixepoch pf (sql_now pf t2) = Some (t2 div 1000000000)" using assms(5,6) by (simp add: platform_ok_def)
  then have not_ready: "\<not> ready_for_deletion pf t3 grace so'" using so'(3) assms(7) by (auto simp: ready_for_deletion_def)
  note keys = gc_mark_cases(1)[OF 2(1)]
  have d2: "distinct_objects key visible db2" by (rule distinct_objects_keys[OF assms(3) keys])
  have u2: "unique_key so_key (db_objects db2)" using assms(4) keys by (simp add: unique_key_def)
  have l: "list_storage_objects_ready_for_deletion pf t3 grace db2 = Inr ks"
    using 2(1) by (auto simp: gc_mark_def bind_io_Inr)
  have row: "\<exists>so2\<in>set (db_objects db2). ready_for_deletion pf t3 grace so2 \<and> so_key so2 = object_key_pair k" if "k \<in> set ks" for k
    using list_ready_Inr[OF l that] .
  have other: "object_key_pair k \<noteq> so_key so" if "k \<in> set ks" for k
    using row[OF that] not_ready unique_inj[OF u2 so'(1)] so'(2) by metis
  from 2(2) obtain rr where del: "gc_delete_objects cat ks w = (rr, w')" and
    res: "(\<exists>e. rr = Inl e \<and> r = Inl e \<and> db' = db2) \<or>
     (\<exists>ds. rr = Inr ds \<and> r = Inr \<lparr>rgr_deleted_objects = map sok_object_path ds, rgr_deleted_count = length ds\<rparr> \<and>
        db' = db2\<lparr>db_objects := fold (\<lambda>object. delete_rows (\<lambda>so. so_key so = object_key_pair object)) ds (db_objects db2)\<rparr>)"
    by (rule gc_sweep_cases)
  have path: "so_object_path so' = so_object_path so" using so'(2) by (simp add: so_key_def)
  have vis: "list_all (\<lambda>k. visible (sok_object_path k)) ks" "visible (so_object_path so)"
    using row d2 path so'(1) by (fastforce simp: list_all_iff distinct_objects_def so_key_def object_key_pair_def)+
  note eff = storage_backends.gc_delete_objects_effect[OF assms(1) del assms(2) vis, of ?i]
  have False if "k \<in> set ks" "sok_storage_id k = ?i" "key ?i (so_object_path so) = key ?i (sok_object_path k)" for k
  proof -
    obtain so2 where so2: "so2 \<in> set (db_objects db2)" "so_key so2 = object_key_pair k" using row[OF \<open>k \<in> set ks\<close>] by blast
    then have "so_object_path so2 = sok_object_path k" by (simp add: so_key_def object_key_pair_def)
    then have "so_object_path so2 = so_object_path so" using d2 so2(1) so'(1) path that(3) unfolding distinct_objects_def by metis
    then show False using other[OF that(1)] so2 that(2) by (simp add: so_key_def object_key_pair_def)
  qed
  moreover have "so' \<in> set (fold (\<lambda>object. delete_rows (\<lambda>so. so_key so = object_key_pair object)) ds (db_objects db2))"
    if "ds = filter (deletable cat) ks" for ds
    unfolding fold_delete that using so'(1,2) by (auto dest!: other)
  then have "so' \<in> set (db_objects db')" using res so'(1) eff by auto
  ultimately show ?thesis using eff so'(2) by (metis imageI)
qed

subsection \<open>Instances\<close>

text \<open>The database \<open>gc_db\<close> with the storage \<^verbatim>\<open>main\<close> on a file system that holds the object of \<open>path_c\<close>,
  which no build publishes.\<close>

definition gc_catalog :: "(storage_id \<Rightarrow> file_system) storage_catalog" where
  "gc_catalog = \<lparr>sc_default = StorageId ''main'',
     sc_backends = local_backends ''u'' [(StorageId ''main'', \<lparr>fst_root = [''data'']\<rparr>)]\<rparr>"

definition gc_files :: "storage_id \<Rightarrow> file_system" where
  "gc_files = (\<lambda>_. \<lparr>fs_nodes = (\<lambda>p. if p = [] \<or> p = [''data''] \<or> p = [''data'', ''nar''] then Some FsDir
       else if p = [''data'', ''nar'', path_c] then Some (FsFile [7]) else None),
     fs_step = 0, fs_faults = (\<lambda>_. None)\<rparr>)"

abbreviation (input) gc_contents :: "storage_id \<Rightarrow> (storage_id \<Rightarrow> file_system) \<Rightarrow> string \<Rightarrow> bytes option" where
  "gc_contents \<equiv> \<lambda>i w. local_contents (backend_at [(StorageId ''main'', \<lparr>fst_root = [''data'']\<rparr>)] i) (w i)"

lemma gc_backends: "storage_backends gc_catalog gc_contents
    (\<lambda>i. local_key (backend_at [(StorageId ''main'', \<lparr>fst_root = [''data'']\<rparr>)] i)) local_visible (\<lambda>w. \<forall>i. fs_wf (w i))"
  unfolding gc_catalog_def by (rule local_catalog.storage_backends_axioms)

lemma gc_files_wf: "\<forall>i. fs_wf (gc_files i)"
  by (auto simp: fs_wf_def gc_files_def append_eq_Cons_conv split: if_splits)

lemma gc_paths: "path_components (''nar/'' @ h) = map NormalComponent [''nar'', h]" "local_visible (''nar/'' @ h)"
  if "h \<in> {path_a, path_b, path_c}" for h
  using that by (elim insertE emptyE; simp only:; code_simp)+

lemma gc_distinct: "distinct_objects (\<lambda>i. local_key (backend_at bs i)) local_visible gc_db"
proof -
  have key: "local_key s (''nar/'' @ h) = Some (fst_root s @ [''nar'', h])" if "h \<in> {path_a, path_b, path_c}" for s h
    unfolding local_key_def resolve_object_path_def gc_paths(1)[OF that] by simp
  have h: "\<exists>h\<in>{path_a, path_b, path_c}. so_object_path so = ''nar/'' @ h" if "so \<in> set (db_objects gc_db)" for so
    using that by (auto simp: gc_db_def gc_object_def)
  show ?thesis unfolding distinct_objects_def
  proof (intro ballI conjI allI impI)
    fix so so' i
    assume so: "so \<in> set (db_objects gc_db)"
    from h[OF so] obtain a where a: "a \<in> {path_a, path_b, path_c}" "so_object_path so = ''nar/'' @ a" by blast
    show "local_visible (so_object_path so)" unfolding a(2) by (rule gc_paths(2)[OF a(1)])
    assume so': "so' \<in> set (db_objects gc_db)" and
      eq: "local_key (backend_at bs i) (so_object_path so) = local_key (backend_at bs i) (so_object_path so')"
    from h[OF so'] obtain b where b: "b \<in> {path_a, path_b, path_c}" "so_object_path so' = ''nar/'' @ b" by blast
    have "a = b" using eq unfolding a(2) b(2) key[OF a(1)] key[OF b(1)] by simp
    then show "so_object_path so = so_object_path so'" unfolding a(2) b(2) by (rule arg_cong)
  qed
qed

lemma gc_unique: "unique_key so_key (db_objects gc_db)"
  by code_simp

lemma gc_live_object: "gc_object path_b \<in> set (db_objects gc_db)"
    "so_object_path (gc_object path_b) \<in> set (live_objects [StorePathHash path_a] gc_db)"
  by code_simp+

lemma gc_run:
  obtains r db' w' where "run_local_gc_with_grace_period std_platform 7 7 7 gc_catalog False grace (gc_db, gc_files) = (r, db', w')"
  by (metis prod.collapse)

theorem gc_keeps_live_witness:
  "\<exists>so'\<in>set (db_objects (fst (snd (run_local_gc_with_grace_period std_platform 7 7 7 gc_catalog False 0 (gc_db, gc_files))))).
     so_key so' = so_key (gc_object path_b)"
proof -
  obtain r db' w' where run: "run_local_gc_with_grace_period std_platform 7 7 7 gc_catalog False 0 (gc_db, gc_files) = (r, db', w')"
    by (rule gc_run)
  from gc_keeps_live[where ok = "\<lambda>w. \<forall>i. fs_wf (w i)" and w = gc_files, OF gc_backends gc_files_wf gc_distinct
      gc_projects order_refl gc_roots gc_live_object run]
  show ?thesis unfolding run by auto
qed

theorem gc_grace_witness:
  "gc_contents (StorageId ''main'') (snd (snd (run_local_gc_with_grace_period std_platform 7 7 7 gc_catalog False
     DEFAULT_GC_GRACE_PERIOD_SECONDS (gc_db, gc_files)))) (''nar/'' @ path_c) = Some [7]"
proof -
  have c: "gc_contents (StorageId ''main'') gc_files (''nar/'' @ path_c) = Some [7]" by code_simp
  have o: "gc_object path_c \<in> set (db_objects gc_db)" "so_first_deleted_at (gc_object path_c) = None"
    "so_object_path (gc_object path_c) = ''nar/'' @ path_c" "so_storage_id (gc_object path_c) = ''main''" by code_simp+
  obtain r db' w' where run: "run_local_gc_with_grace_period std_platform 7 7 7 gc_catalog False
      DEFAULT_GC_GRACE_PERIOD_SECONDS (gc_db, gc_files) = (r, db', w')" by (rule gc_run)
  have t: "0 \<le> (7 :: int)" "(7 :: int) div 1000000000 - 7 div 1000000000 < DEFAULT_GC_GRACE_PERIOD_SECONDS"
    by (simp_all add: DEFAULT_GC_GRACE_PERIOD_SECONDS_def)
  from gc_grace[where ok = "\<lambda>w. \<forall>i. fs_wf (w i)" and w = gc_files, OF gc_backends gc_files_wf gc_distinct gc_unique
      std_platform_ok t o(1,2) run]
  show ?thesis using c unfolding run o(3,4) by simp
qed


lemma ok_caseD: "(case m of (Inl e, s) \<Rightarrow> False | (Inr x, s) \<Rightarrow> P x s) \<Longrightarrow> \<exists>x s. m = (Inr x, s) \<and> P x s"
  by (cases m; cases "fst m") auto

text \<open>(a publication during the collection). The deletion is not in one transaction with the marking: a
  path that is pinned after the ready objects were listed loses its object, while the database reports
  the path as live.\<close>

theorem gc_race:
  "\<exists>ks db2 db3 db' w' resp.
     gc_mark std_platform 7 7 7 0 gc_db = (Inr ks, db2) \<and>
     upsert_pin std_platform 7 ''keep'' None (StorePathHash path_c) (path_c @ ''-x'') db2 = (Inr (), db3) \<and>
     gc_sweep gc_catalog ks (db3, gc_files) = (Inr resp, db', w') \<and>
     list_live_storage_object_paths std_platform 7 db3 = Inr [''nar/'' @ path_a, ''nar/'' @ path_b, ''nar/'' @ path_c] \<and>
     gc_contents (StorageId ''main'') gc_files (''nar/'' @ path_c) = Some [7] \<and>
     gc_contents (StorageId ''main'') w' (''nar/'' @ path_c) = None"
proof -
  have "case gc_mark std_platform 7 7 7 0 gc_db of (Inl e, db2) \<Rightarrow> False | (Inr ks, db2) \<Rightarrow>
     (case upsert_pin std_platform 7 ''keep'' None (StorePathHash path_c) (path_c @ ''-x'') db2 of
        (Inl e, db3) \<Rightarrow> False | (Inr u, db3) \<Rightarrow>
          list_live_storage_object_paths std_platform 7 db3 = Inr [''nar/'' @ path_a, ''nar/'' @ path_b, ''nar/'' @ path_c] \<and>
          (case gc_sweep gc_catalog ks (db3, gc_files) of (Inl e, s) \<Rightarrow> False | (Inr resp, db', w') \<Rightarrow>
             gc_contents (StorageId ''main'') gc_files (''nar/'' @ path_c) = Some [7] \<and>
             gc_contents (StorageId ''main'') w' (''nar/'' @ path_c) = None))" by code_simp
  from ok_caseD[OF this] obtain ks db2 where m: "gc_mark std_platform 7 7 7 0 gc_db = (Inr ks, db2)" and
    rest: "case upsert_pin std_platform 7 ''keep'' None (StorePathHash path_c) (path_c @ ''-x'') db2 of
        (Inl e, db3) \<Rightarrow> False | (Inr u, db3) \<Rightarrow>
          list_live_storage_object_paths std_platform 7 db3 = Inr [''nar/'' @ path_a, ''nar/'' @ path_b, ''nar/'' @ path_c] \<and>
          (case gc_sweep gc_catalog ks (db3, gc_files) of (Inl e, s) \<Rightarrow> False | (Inr resp, db', w') \<Rightarrow>
             gc_contents (StorageId ''main'') gc_files (''nar/'' @ path_c) = Some [7] \<and>
             gc_contents (StorageId ''main'') w' (''nar/'' @ path_c) = None)" by (elim exE conjE)
  from ok_caseD[OF rest] obtain db3 where p: "upsert_pin std_platform 7 ''keep'' None (StorePathHash path_c) (path_c @ ''-x'') db2 = (Inr (), db3)"
    and live: "list_live_storage_object_paths std_platform 7 db3 = Inr [''nar/'' @ path_a, ''nar/'' @ path_b, ''nar/'' @ path_c]"
    and sweep: "case gc_sweep gc_catalog ks (db3, gc_files) of (Inl e, s) \<Rightarrow> False | (Inr resp, db', w') \<Rightarrow>
             gc_contents (StorageId ''main'') gc_files (''nar/'' @ path_c) = Some [7] \<and>
             gc_contents (StorageId ''main'') w' (''nar/'' @ path_c) = None" by auto
  from ok_caseD[OF sweep] obtain resp db' w' where "gc_sweep gc_catalog ks (db3, gc_files) = (Inr resp, db', w')"
    "gc_contents (StorageId ''main'') gc_files (''nar/'' @ path_c) = Some [7]"
    "gc_contents (StorageId ''main'') w' (''nar/'' @ path_c) = None" by auto
  with m p live show ?thesis by blast
qed

end
