(* ===== verification/ReadService.thy ===== *)
theory ReadService
  imports Upstream DbKeys GcService
begin

text \<open>
  \<^verbatim>\<open>crates/depot-read\<close>: narinfos and objects of a view, from the database and the storages first and
  from the upstream caches after them (\<^verbatim>\<open>resolver.rs\<close>, \<^verbatim>\<open>local_objects.rs\<close>, \<^verbatim>\<open>object_provider.rs\<close>,
  \<^verbatim>\<open>upstreams.rs\<close>, \<^verbatim>\<open>service.rs\<close>, \<^verbatim>\<open>state.rs\<close>, \<^verbatim>\<open>handlers.rs\<close>). The traits of the crate are the fields of
  the record \<open>read_service\<close>; their contracts are locales.
\<close>

subsection \<open>Narinfos\<close>

type_synonym ('s, 'a) view_query = "depot_view \<Rightarrow> ('s, anyhow, 'a) io"

definition db_resolve_narinfo :: "store_path_hash \<Rightarrow> (database \<times> 'w, nar_info option) view_query" where
  "db_resolve_narinfo h view = on_db (query_io (
     case view of Aggregate \<Rightarrow> get_aggregate_narinfo h | Project project \<Rightarrow> get_project_narinfo project h))"

record in_memory_resolver =
  imr_aggregate :: "store_path_hash \<Rightarrow> nar_info option"
  imr_projects :: "project_slug \<Rightarrow> (store_path_hash \<Rightarrow> nar_info option) option"

definition imr_insert_aggregate :: "store_path_hash \<Rightarrow> nar_info \<Rightarrow> in_memory_resolver \<Rightarrow> in_memory_resolver" where
  "imr_insert_aggregate h n r = r\<lparr>imr_aggregate := (imr_aggregate r)(h \<mapsto> n)\<rparr>"

definition imr_insert_project :: "project_slug \<Rightarrow> store_path_hash \<Rightarrow> nar_info \<Rightarrow> in_memory_resolver \<Rightarrow> in_memory_resolver" where
  "imr_insert_project p h n r = r\<lparr>imr_projects := (imr_projects r)(p \<mapsto>
     (case imr_projects r p of Some m \<Rightarrow> m | None \<Rightarrow> Map.empty)(h \<mapsto> n))\<rparr>"

definition imr_known :: "in_memory_resolver \<Rightarrow> depot_view \<Rightarrow> store_path_hash \<Rightarrow> nar_info option" where
  "imr_known r view h =
     (case view of Aggregate \<Rightarrow> imr_aggregate r h
      | Project p \<Rightarrow> Option.bind (imr_projects r p) (\<lambda>entries. entries h))"

definition imr_resolve_narinfo :: "in_memory_resolver \<Rightarrow> store_path_hash \<Rightarrow> ('s, nar_info option) view_query" where
  "imr_resolve_narinfo r h view = return_io (imr_known r view h)"

subsection \<open>Objects\<close>

definition preferred_storage_id ::
    "'w storage_catalog \<Rightarrow> (database \<times> 'w, storage_id) view_query" where
  "preferred_storage_id catalog view =
     (case view of Aggregate \<Rightarrow> return_io (sc_default catalog)
      | Project project \<Rightarrow> on_db (query_io (get_project_storage_id project)))"

definition order_preferred :: "storage_id option \<Rightarrow> storage_object_record list \<Rightarrow> storage_object_record list" where
  "order_preferred preferred records =
     (case preferred of None \<Rightarrow> records
      | Some i \<Rightarrow> sort_key (\<lambda>record. (if sor_storage_id record = i then 0 else 1 :: nat,
          storage_id_str (sor_storage_id record))) records)"

text \<open>The first storage that answers; a storage that is not configured or has lost the object is passed.\<close>

fun first_stored ::
    "('w depot_storage \<Rightarrow> ('w, anyhow, 'a option) io) \<Rightarrow> 'w storage_catalog \<Rightarrow> storage_object_record list \<Rightarrow>
     ('w, anyhow, (blob_metadata \<times> 'a) option) io" where
  "first_stored ask catalog [] = return_io None"
| "first_stored ask catalog (record # records) =
     (case catalog_storage catalog (sor_storage_id record) of
        Inl e \<Rightarrow> first_stored ask catalog records
      | Inr storage \<Rightarrow>
          bind_io (ask storage) (\<lambda>found.
          case found of
            Some x \<Rightarrow> return_io (Some (sor_metadata record, x))
          | None \<Rightarrow> first_stored ask catalog records))"

definition get_unscoped ::
    "platform \<Rightarrow> 'w storage_catalog \<Rightarrow> storage_id option \<Rightarrow> string \<Rightarrow>
     (database \<times> 'w, anyhow, (blob_metadata \<times> bytes) option) io" where
  "get_unscoped pf catalog preferred object_path =
     bind_io (on_db (query_io (list_storage_objects pf object_path))) (\<lambda>records.
     on_storage (first_stored (\<lambda>st. ds_get_bytes st object_path) catalog (order_preferred preferred records)))"

definition head_unscoped ::
    "platform \<Rightarrow> 'w storage_catalog \<Rightarrow> storage_id option \<Rightarrow> string \<Rightarrow>
     (database \<times> 'w, anyhow, blob_metadata option) io" where
  "head_unscoped pf catalog preferred object_path =
     bind_io (on_db (query_io (list_storage_objects pf object_path))) (\<lambda>records.
     bind_io (on_storage (first_stored
       (\<lambda>st. bind_io (storage_contains st object_path) (\<lambda>b. return_io (if b then Some () else None)))
       catalog (order_preferred preferred records))) (\<lambda>found.
     return_io (map_option fst found)))"

definition get_visible ::
    "platform \<Rightarrow> 'w storage_catalog \<Rightarrow> string \<Rightarrow> (database \<times> 'w, (blob_metadata \<times> bytes) option) view_query" where
  "get_visible pf catalog object_path view =
     bind_io (on_db (query_io (\<lambda>db. Inr (storage_object_visible_in_view view object_path db)))) (\<lambda>visible.
     if \<not> visible then return_io None
     else bind_io (preferred_storage_id catalog view) (\<lambda>preferred.
       get_unscoped pf catalog (Some preferred) object_path))"

definition store_head :: "platform \<Rightarrow> 'w storage_catalog \<Rightarrow> string \<Rightarrow> (database \<times> 'w, anyhow, blob_metadata option) io" where
  "store_head pf catalog object_path = head_unscoped pf catalog (Some (sc_default catalog)) object_path"

definition store_get ::
    "platform \<Rightarrow> 'w storage_catalog \<Rightarrow> string \<Rightarrow> (database \<times> 'w, anyhow, (blob_metadata \<times> bytes) option) io" where
  "store_get pf catalog object_path = get_unscoped pf catalog (Some (sc_default catalog)) object_path"

subsection \<open>Upstreams of a view\<close>

definition db_upstreams_for_view :: "platform \<Rightarrow> (database \<times> 'w, upstream_cache list) view_query" where
  "db_upstreams_for_view pf view =
     bind_io (on_db (query_io (case view of Aggregate \<Rightarrow> list_enabled_upstreams pf
       | Project project \<Rightarrow> list_enabled_upstreams_for_project pf project))) (\<lambda>records.
     return_io (map to_runtime_config records))"

record static_upstreams =
  stu_aggregate :: "upstream_cache list"
  stu_projects :: "project_slug \<Rightarrow> upstream_cache list option"

definition static_selected :: "static_upstreams \<Rightarrow> depot_view \<Rightarrow> upstream_cache list" where
  "static_selected s view =
     (case view of Aggregate \<Rightarrow> stu_aggregate s
      | Project p \<Rightarrow> (case stu_projects s p of Some us \<Rightarrow> us | None \<Rightarrow> []))"

definition static_upstreams_for_view :: "static_upstreams \<Rightarrow> ('s, upstream_cache list) view_query" where
  "static_upstreams_for_view s view = return_io (static_selected s view)"

subsection \<open>The service\<close>

record ('w, 'k) read_service =
  rs_resolver :: "store_path_hash \<Rightarrow> (database \<times> 'w, nar_info option) view_query"
  rs_provider :: "string \<Rightarrow> (database \<times> 'w, (blob_metadata \<times> bytes) option) view_query"
  rs_client :: "'w upstream_client"
  rs_selector :: "(database \<times> 'w, upstream_cache list) view_query"
  rs_store_dir :: store_dir
  rs_aggregate_key :: "'k named_signing_key option"
  rs_project_kek :: "key_encryption_key option" \<comment> \<open>\<^verbatim>\<open>DbProjectSigningKeys\<close>, over the database\<close>

definition list_of_option :: "'a option \<Rightarrow> 'a list" where
  "list_of_option x = (case x of None \<Rightarrow> [] | Some y \<Rightarrow> [y])"

definition signing_keys_for_view ::
    "platform \<Rightarrow> 'k crypto \<Rightarrow> ('w, 'k) read_service \<Rightarrow> (database \<times> 'w, 'k named_signing_key list) view_query" where
  "signing_keys_for_view pf cr s view =
     (case view of
        Aggregate \<Rightarrow> return_io (list_of_option (rs_aggregate_key s))
      | Project project \<Rightarrow>
          bind_io (case rs_project_kek s of None \<Rightarrow> return_io None
            | Some kek \<Rightarrow> on_db (query_io (active_project_signing_key pf cr project kek))) (\<lambda>project_key.
          return_io (list_of_option project_key @ list_of_option (rs_aggregate_key s))))"

definition public_key_texts_for_view ::
    "platform \<Rightarrow> 'k crypto \<Rightarrow> ('w, 'k) read_service \<Rightarrow> (database \<times> 'w, string list) view_query" where
  "public_key_texts_for_view pf cr s view =
     (let aggregate = list_of_option (map_option (public_key_text (cr_codec cr) (cr_ed cr)) (rs_aggregate_key s)) in
      case view of
        Aggregate \<Rightarrow> return_io aggregate
      | Project project \<Rightarrow>
          bind_io (case rs_project_kek s of None \<Rightarrow> return_io None
            | Some kek \<Rightarrow> on_db (query_io (active_project_signing_key_public pf project))) (\<lambda>project_key.
          return_io (list_of_option project_key @ aggregate)))"

text \<open>The text of a narinfo with its own signatures and those of the keys.\<close>

definition signed_text ::
    "'k crypto \<Rightarrow> b64_decoder \<Rightarrow> store_dir \<Rightarrow> 'k named_signing_key list \<Rightarrow> nar_info \<Rightarrow> anyhow + string" where
  "signed_text cr b64 d keys n =
     and_then (map_err (\<lambda>_. Anyhow ''signing narinfo'') (sign_narinfo (cr_codec cr) (cr_ed cr) b64
       \<lparr>signer_store_dir = d, signer_keys = keys\<rparr> n)) (\<lambda>local_signatures.
     map_err (\<lambda>_. Anyhow ''rendering narinfo'') (render_with_signatures b64 d n (ni_signatures n @ local_signatures)))"

definition render_signed_narinfo ::
    "platform \<Rightarrow> 'k crypto \<Rightarrow> b64_decoder \<Rightarrow> ('w, 'k) read_service \<Rightarrow> nar_info \<Rightarrow> (database \<times> 'w, string) view_query" where
  "render_signed_narinfo pf cr b64 s n view =
     bind_io (signing_keys_for_view pf cr s view) (\<lambda>signing_keys.
     pure_io (signed_text cr b64 (rs_store_dir s) signing_keys n))"

text \<open>The first upstream that has an answer; an error of one ends the search.\<close>

fun first_upstream :: "(upstream_cache \<Rightarrow> ('w, anyhow, 'a option) io) \<Rightarrow> upstream_cache list \<Rightarrow> ('w, anyhow, 'a option) io" where
  "first_upstream ask [] = return_io None"
| "first_upstream ask (u # us) =
     bind_io (ask u) (\<lambda>found. case found of Some x \<Rightarrow> return_io (Some x) | None \<Rightarrow> first_upstream ask us)"

definition render_narinfo ::
    "platform \<Rightarrow> 'k crypto \<Rightarrow> b64_decoder \<Rightarrow> ('w, 'k) read_service \<Rightarrow> store_path_hash \<Rightarrow>
     (database \<times> 'w, string option) view_query" where
  "render_narinfo pf cr b64 s h view =
     bind_io (rs_resolver s h view) (\<lambda>found.
     case found of
       Some n \<Rightarrow> bind_io (render_signed_narinfo pf cr b64 s n view) (\<lambda>t. return_io (Some t))
     | None \<Rightarrow>
         bind_io (rs_selector s view) (\<lambda>upstreams.
         bind_io (on_storage (first_upstream (\<lambda>u. ucl_fetch_narinfo_text (rs_client s) u h) upstreams)) (\<lambda>narinfo_text.
         case narinfo_text of
           None \<Rightarrow> return_io None
         | Some narinfo_text \<Rightarrow>
             bind_io (pure_io (map_err (\<lambda>_. Anyhow ''parsing narinfo'') (parse_narinfo narinfo_text (rs_store_dir s)))) (\<lambda>n.
             bind_io (render_signed_narinfo pf cr b64 s n view) (\<lambda>t. return_io (Some t))))))"

definition get_object ::
    "('w, 'k) read_service \<Rightarrow> string \<Rightarrow> (database \<times> 'w, (blob_metadata \<times> bytes) option) view_query" where
  "get_object s object_path view =
     bind_io (rs_provider s object_path view) (\<lambda>found.
     case found of
       Some x \<Rightarrow> return_io (Some x)
     | None \<Rightarrow>
         bind_io (rs_selector s view) (\<lambda>upstreams.
         on_storage (first_upstream (\<lambda>u. ucl_get_object (rs_client s) u object_path) upstreams)))"

subsection \<open>Handlers\<close>

record response =
  rsp_status :: nat
  rsp_headers :: "(string \<times> string) list"
  rsp_body :: bytes

definition status_response :: "nat \<Rightarrow> response" where
  "status_response c = \<lparr>rsp_status = c, rsp_headers = [], rsp_body = []\<rparr>"

definition text_response :: "string \<Rightarrow> string \<Rightarrow> response" where
  "text_response content_type t =
     \<lparr>rsp_status = 200, rsp_headers = [(''content-type'', content_type)], rsp_body = into_bytes t\<rparr>"

text \<open>\<^verbatim>\<open>HeaderValue::from_str\<close> refuses control characters; an invalid content type is replaced, other
  invalid headers are left out.\<close>

definition header_from_str :: "string \<Rightarrow> string option" where
  "header_from_str v = (if list_all (\<lambda>c. byte_of c = 9 \<or> 32 \<le> byte_of c \<and> byte_of c \<noteq> 127) v then Some v else None)"

definition blob_response :: "blob_metadata \<Rightarrow> bytes \<Rightarrow> response" where
  "blob_response m bs =
     \<lparr>rsp_status = 200,
      rsp_headers =
        [(''content-type'', case header_from_str (bm_content_type m) of Some v \<Rightarrow> v | None \<Rightarrow> ''application/octet-stream'')] @
        (case bm_content_length m of Some n \<Rightarrow> [(''content-length'', show_nat (unat n))] | None \<Rightarrow> []) @
        (case Option.bind (bm_etag m) header_from_str of Some v \<Rightarrow> [(''etag'', v)] | None \<Rightarrow> []),
      rsp_body = bs\<rparr>"

text \<open>A handler turns the outcome of a service call into a response; the state stays what the call made it.\<close>

definition respond :: "('a \<Rightarrow> response) \<Rightarrow> ('s, anyhow, 'a) io \<Rightarrow> 's \<Rightarrow> response \<times> 's" where
  "respond f m = (\<lambda>st. case m st of (Inr x, st) \<Rightarrow> (f x, st) | (Inl e, st) \<Rightarrow> (status_response 500, st))"

definition or_not_found :: "('a \<Rightarrow> response) \<Rightarrow> 'a option \<Rightarrow> response" where
  "or_not_found f x = (case x of Some y \<Rightarrow> f y | None \<Rightarrow> status_response 404)"

definition nix_cache_info_text ::
    "platform \<Rightarrow> 'k crypto \<Rightarrow> ('w, 'k) read_service \<Rightarrow> 32 word \<Rightarrow> (database \<times> 'w, string) view_query" where
  "nix_cache_info_text pf cr s priority view =
     bind_io (public_key_texts_for_view pf cr s view) (\<lambda>keys.
     return_io (''StoreDir: '' @ store_dir_str (rs_store_dir s) @ [newline] @ ''WantMassQuery: 1'' @ [newline] @
       ''Priority: '' @ show_nat (unat priority) @ [newline] @
       concat (map (\<lambda>k. ''PublicKey: '' @ k @ [newline]) keys)))"

definition cache_info_response ::
    "platform \<Rightarrow> 'k crypto \<Rightarrow> ('w, 'k) read_service \<Rightarrow> 32 word \<Rightarrow> depot_view \<Rightarrow> database \<times> 'w \<Rightarrow> response \<times> (database \<times> 'w)" where
  "cache_info_response pf cr s priority view =
     respond (text_response ''text/plain; charset=utf-8'') (nix_cache_info_text pf cr s priority view)"

definition serve_object ::
    "regexes \<Rightarrow> platform \<Rightarrow> 'k crypto \<Rightarrow> b64_decoder \<Rightarrow> ('w, 'k) read_service \<Rightarrow> depot_view \<Rightarrow> string \<Rightarrow>
     database \<times> 'w \<Rightarrow> response \<times> (database \<times> 'w)" where
  "serve_object rx pf cr b64 s view object =
     (case parse_depot_object_path rx object of
        Some (NarInfoPath h) \<Rightarrow>
          respond (or_not_found (text_response ''text/x-nix-narinfo'')) (render_narinfo pf cr b64 s h view)
      | Some (NarPath digest compression) \<Rightarrow>
          respond (or_not_found (\<lambda>(m, bs). blob_response m bs)) (get_object s object view)
      | _ \<Rightarrow> (\<lambda>st. (status_response 404, st)))"

definition for_project :: "(depot_view \<Rightarrow> 's \<Rightarrow> response \<times> 's) \<Rightarrow> string \<Rightarrow> 's \<Rightarrow> response \<times> 's" where
  "for_project f project =
     (case slug_parse project of Inl e \<Rightarrow> (\<lambda>st. (status_response 404, st)) | Inr p \<Rightarrow> f (Project p))"

subsection \<open>Contracts of the traits\<close>

locale narinfo_resolver =
  fixes resolve :: "store_path_hash \<Rightarrow> (database \<times> 'w, nar_info option) view_query"
    and known :: "database \<Rightarrow> depot_view \<Rightarrow> store_path_hash \<Rightarrow> nar_info option"
  assumes resolved: "resolve h view (db, w) = (r, s') \<Longrightarrow> s' = (db, w) \<and> (\<forall>x. r = Inr x \<longrightarrow> x = known db view h)"

text \<open>\<open>available\<close> is what may be delivered for an object, \<open>kept\<close> what a request leaves of the outside world.\<close>

locale object_provider =
  fixes provide :: "string \<Rightarrow> (database \<times> 'w, (blob_metadata \<times> bytes) option) view_query"
    and available :: "database \<Rightarrow> 'w \<Rightarrow> depot_view \<Rightarrow> string \<Rightarrow> (blob_metadata \<times> bytes) set" and ok :: "'w \<Rightarrow> bool"
    and kept :: "'w \<Rightarrow> 'c"
  assumes provided: "ok w \<Longrightarrow> provide p view (db, w) = (r, db', w') \<Longrightarrow> db' = db \<and> ok w' \<and> kept w' = kept w \<and>
      (\<forall>x. r = Inr x \<longrightarrow> (case x of Some y \<Rightarrow> y \<in> available db w view p | None \<Rightarrow> available db w view p = {}))"

locale upstream_selector =
  fixes select :: "(database \<times> 'w, upstream_cache list) view_query" and selected :: "database \<Rightarrow> depot_view \<Rightarrow> upstream_cache list"
  assumes selects: "select view (db, w) = (r, s') \<Longrightarrow> s' = (db, w) \<and> (\<forall>us. r = Inr us \<longrightarrow> us = selected db view)"

definition known_in_db :: "database \<Rightarrow> depot_view \<Rightarrow> store_path_hash \<Rightarrow> nar_info option" where
  "known_in_db db view h = (case (case view of Aggregate \<Rightarrow> get_aggregate_narinfo h db
     | Project project \<Rightarrow> get_project_narinfo project h db) of Inr x \<Rightarrow> x | Inl _ \<Rightarrow> None)"

definition selected_in_db :: "platform \<Rightarrow> database \<Rightarrow> depot_view \<Rightarrow> upstream_cache list" where
  "selected_in_db pf db view = (case (case view of Aggregate \<Rightarrow> list_enabled_upstreams pf db
     | Project project \<Rightarrow> list_enabled_upstreams_for_project pf project db) of
     Inr rs \<Rightarrow> map to_runtime_config rs | Inl _ \<Rightarrow> [])"

text \<open>The objects of a view: recorded, visible, and in a storage of the catalog.\<close>

definition stored_objects ::
    "platform \<Rightarrow> 'w storage_catalog \<Rightarrow> (storage_id \<Rightarrow> 'w \<Rightarrow> string \<Rightarrow> bytes option) \<Rightarrow> database \<Rightarrow> 'w \<Rightarrow> depot_view \<Rightarrow>
     string \<Rightarrow> (blob_metadata \<times> bytes) set" where
  "stored_objects pf cat contents db w view p =
     {(sor_metadata r, b) | r b. storage_object_visible_in_view view p db \<and>
        (\<exists>rs. list_storage_objects pf p db = Inr rs \<and> r \<in> set rs) \<and>
        is_ok (catalog_storage cat (sor_storage_id r)) \<and> contents (sor_storage_id r) w p = Some b}"

interpretation db_resolver: narinfo_resolver db_resolve_narinfo known_in_db
  by unfold_locales (auto simp: db_resolve_narinfo_def known_in_db_def query_io_def split: depot_view.splits)

interpretation in_memory_resolver: narinfo_resolver "imr_resolve_narinfo r" "\<lambda>db. imr_known r" for r
  by unfold_locales (auto simp: imr_resolve_narinfo_def return_io_def)

interpretation db_selector: upstream_selector "db_upstreams_for_view pf" "selected_in_db pf" for pf
proof (unfold_locales, goal_cases)
  case (1 view db w r s')
  then show ?case
    by (cases view; cases "case view of Aggregate \<Rightarrow> list_enabled_upstreams pf db
        | Project project \<Rightarrow> list_enabled_upstreams_for_project pf project db")
      (auto simp: db_upstreams_for_view_def selected_in_db_def bind_io_def on_db_def query_io_def return_io_def)
qed

interpretation static_selector: upstream_selector "static_upstreams_for_view s" "\<lambda>db. static_selected s" for s
  by unfold_locales (auto simp: static_upstreams_for_view_def return_io_def)

context storage_backends
begin

lemma get_backend:
  assumes "catalog_storage cat i = Inr st" "ds_get_bytes st p w = (r, w')" "ok w"
  shows "ok w' \<and> contents j w' q = contents j w q \<and> (\<forall>b. r = Inr b \<longrightarrow> b = contents i w p)"
proof -
  note g = object_storage.get_ok[OF backend[OF assms(1)] assms(3) assms(2)]
  have "storage_call st w w'" using call_get[of st w p] assms(2) by simp
  from other_backend[OF assms(1) this assms(3), of j q] g show ?thesis by (cases "j = i") auto
qed

lemma first_stored_bytes:
  assumes "first_stored (\<lambda>st. ds_get_bytes st p) cat records w = (r, w')" "ok w"
  shows "ok w' \<and> (\<forall>j q. contents j w' q = contents j w q) \<and>
    (\<forall>m b. r = Inr (Some (m, b)) \<longrightarrow> (\<exists>rec\<in>set records. m = sor_metadata rec \<and>
       is_ok (catalog_storage cat (sor_storage_id rec)) \<and> contents (sor_storage_id rec) w p = Some b)) \<and>
    (r = Inr None \<longrightarrow> (\<forall>rec\<in>set records. is_ok (catalog_storage cat (sor_storage_id rec)) \<longrightarrow> contents (sor_storage_id rec) w p = None))"
  using assms
proof (induction records arbitrary: w)
  case (Cons rec records)
  show ?case
  proof (cases "catalog_storage cat (sor_storage_id rec)")
    case (Inl e)
    then show ?thesis using Cons.IH[of w] Cons.prems by auto
  next
    case (Inr st)
    obtain r1 w1 where g: "ds_get_bytes st p w = (r1, w1)" by fastforce
    note e = get_backend[OF Inr g Cons.prems(2)]
    consider (err) e where "r1 = Inl e" | (miss) "r1 = Inr None" | (hit) b where "r1 = Inr (Some b)"
      by (metis option.exhaust sum.exhaust)
    then show ?thesis
    proof cases
      case err
      then show ?thesis using Cons.prems(1) Inr g e by (auto simp: bind_io_def)
    next
      case miss
      have "first_stored (\<lambda>st. ds_get_bytes st p) cat records w1 = (r, w')"
        using Cons.prems(1) Inr g miss by (simp add: bind_io_def)
      from Cons.IH[OF this] e have ih: "ok w' \<and> (\<forall>j q. contents j w' q = contents j w1 q) \<and>
        (\<forall>m b. r = Inr (Some (m, b)) \<longrightarrow> (\<exists>rec\<in>set records. m = sor_metadata rec \<and>
           is_ok (catalog_storage cat (sor_storage_id rec)) \<and> contents (sor_storage_id rec) w1 p = Some b)) \<and>
        (r = Inr None \<longrightarrow> (\<forall>rec\<in>set records. is_ok (catalog_storage cat (sor_storage_id rec)) \<longrightarrow>
           contents (sor_storage_id rec) w1 p = None))" by blast
      have same: "\<And>j q. contents j w1 q = contents j w q" using e by blast
      have "contents (sor_storage_id rec) w p = None" using e miss by auto
      then show ?thesis using ih unfolding same by auto
    next
      case hit
      then show ?thesis using Cons.prems(1) Inr g e by (auto simp: bind_io_def return_io_def)
    qed
  qed
qed (auto simp: return_io_def)

lemma visible_provided:
  assumes "ok w" "get_visible pf cat p view (db, w) = (r, db', w')"
  shows "db' = db \<and> ok w' \<and> (\<lambda>j. contents j w') = (\<lambda>j. contents j w) \<and> (\<forall>x. r = Inr x \<longrightarrow>
    (case x of Some y \<Rightarrow> y \<in> stored_objects pf cat contents db w view p | None \<Rightarrow> stored_objects pf cat contents db w view p = {}))"
proof (cases "storage_object_visible_in_view view p db")
  case False
  then show ?thesis using assms by (auto simp: get_visible_def stored_objects_def io_defs on_db_def)
next
  case True
  obtain rp where pref: "preferred_storage_id cat view (db, w) = (rp, db, w)"
    by (cases view) (auto simp: preferred_storage_id_def io_defs on_db_def)
  show ?thesis
  proof (cases rp)
    case (Inl e)
    then show ?thesis using assms True pref by (auto simp: get_visible_def io_defs on_db_def)
  next
    case (Inr i)
    then have g: "get_unscoped pf cat (Some i) p (db, w) = (r, db', w')"
      using assms True pref by (simp add: get_visible_def io_defs on_db_def)
    show ?thesis
    proof (cases "list_storage_objects pf p db")
      case (Inl e)
      then show ?thesis using g assms(1) by (auto simp: get_unscoped_def io_defs on_db_def)
    next
      case (Inr rs)
      then have f: "first_stored (\<lambda>st. ds_get_bytes st p) cat (order_preferred (Some i) rs) w = (r, w')" "db' = db"
        using g by (auto simp: get_unscoped_def io_defs on_db_def on_storage_def split: prod.splits)
      have "set (order_preferred (Some i) rs) = set rs" by (simp add: order_preferred_def)
      note b = first_stored_bytes[OF f(1) assms(1), unfolded this]
      have "(\<lambda>j. contents j w') = (\<lambda>j. contents j w)" using b by (intro ext) blast
      then show ?thesis using b f(2) Inr True
        by (auto simp: stored_objects_def split: option.splits)
    qed
  qed
qed

end

sublocale storage_backends \<subseteq> visible: object_provider "get_visible pf cat" "stored_objects pf cat contents" ok
  "\<lambda>w j. contents j w" for pf
  by (rule object_provider.intro) (rule visible_provided)

subsection \<open>What a reader gets\<close>

text \<open>The answer of the first upstream that has one.\<close>

fun first_held :: "(upstream_cache \<Rightarrow> 'b option) \<Rightarrow> upstream_cache list \<Rightarrow> 'b option" where
  "first_held has [] = None"
| "first_held has (u # us) = (case has u of Some y \<Rightarrow> Some y | None \<Rightarrow> first_held has us)"

lemma first_upstream_held:
  assumes ask: "\<And>u w r w'. ask u w = (r, w') \<Longrightarrow> kept w' = kept w \<and> (\<forall>x. r = Inr x \<longrightarrow> map_option f x = has u)"
    and "first_upstream ask us w = (r, w')"
  shows "kept w' = kept w \<and> (\<forall>x. r = Inr x \<longrightarrow> map_option f x = first_held has us)"
  using assms(2)
proof (induction us arbitrary: w)
  case (Cons u us)
  from Cons.prems show ?case unfolding first_upstream.simps
  proof (cases rule: bind_io_cases)
    case (1 e)
    then show ?thesis using ask by blast
  next
    case (2 x w1)
    note a = ask[OF 2(1)]
    show ?thesis
    proof (cases x)
      case None
      then have "has u = None" using a by auto
      then show ?thesis using Cons.IH[of w1] 2(2) None a by auto
    next
      case (Some y)
      then have "has u = Some (f y)" using a by auto
      then show ?thesis using a 2(2) Some by (auto simp: return_io_def)
    qed
  qed
qed (auto simp: return_io_def)

text \<open>A service on any implementation of its traits.\<close>

locale reader =
  narinfo_resolver "rs_resolver s" known + object_provider "rs_provider s" available ok kept +
  upstream_selector "rs_selector s" selected + upstream_service "rs_client s" narinfos held kept
  for s :: "('w, 'k) read_service" and known available and ok :: "'w \<Rightarrow> bool" and kept selected narinfos held
begin

lemma get_object_delivers:
  assumes "ok w" "get_object s p view (db, w) = (r, db', w')"
  shows "db' = db \<and> kept w' = kept w \<and> (\<forall>x. r = Inr x \<longrightarrow>
    (\<exists>y. x = Some y \<and> y \<in> available db w view p) \<or>
    available db w view p = {} \<and> map_option snd x = first_held (\<lambda>u. map_option snd (held u p)) (selected db view))"
  using assms(2) unfolding get_object_def
proof (cases rule: bind_io_cases)
  case (1 e)
  then show ?thesis using provided[OF assms(1)] by blast
next
  case (2 x s1)
  obtain db1 w1 where s1: "s1 = (db1, w1)" by (cases s1)
  note p = provided[OF assms(1) 2(1)[unfolded s1]]
  show ?thesis
  proof (cases x)
    case (Some y)
    then show ?thesis using 2(2) p by (cases y) (auto simp: s1 return_io_def)
  next
    case None
    from 2(2) None have "bind_io (rs_selector s view) (\<lambda>us. on_storage (first_upstream (\<lambda>u. ucl_get_object (rs_client s) u p) us))
      (db1, w1) = (r, db', w')" by (simp add: s1)
    then show ?thesis
    proof (cases rule: bind_io_cases)
      case (1 e)
      then show ?thesis using selects[OF 1(1)] p None by auto
    next
      case (2 us s2)
      note q = selects[OF 2(1)]
      from 2(2) q have f: "db' = db1" "first_upstream (\<lambda>u. ucl_get_object (rs_client s) u p) us w1 = (r, w')" by auto
      note h = first_upstream_held[OF _ f(2), where kept = kept and f = snd and has = "\<lambda>u. map_option snd (held u p)", OF get_held]
      show ?thesis using h q p None f(1) by auto
    qed
  qed
qed

end

text \<open>The service of the server: database, storages of the catalog, the upstreams of the database.\<close>

definition server_reader :: "platform \<Rightarrow> 'w storage_catalog \<Rightarrow> 'w upstream_client \<Rightarrow> store_dir \<Rightarrow>
    'k named_signing_key option \<Rightarrow> key_encryption_key option \<Rightarrow> ('w, 'k) read_service" where
  "server_reader pf cat cl d aggregate_key kek =
     \<lparr>rs_resolver = db_resolve_narinfo, rs_provider = get_visible pf cat, rs_client = cl,
      rs_selector = db_upstreams_for_view pf, rs_store_dir = d, rs_aggregate_key = aggregate_key, rs_project_kek = kek\<rparr>"

lemma server_reader_contract:
  assumes "storage_backends cat contents key visible ok" "upstream_service cl narinfos held (\<lambda>w j. contents j w)"
  shows "reader (server_reader pf cat cl d k kek) known_in_db (stored_objects pf cat contents) ok (\<lambda>w j. contents j w)
    (selected_in_db pf) narinfos held"
  unfolding server_reader_def
  by (rule reader.intro; simp add: db_resolver.narinfo_resolver_axioms db_selector.upstream_selector_axioms assms(2)
      object_provider.intro storage_backends.visible_provided[OF assms(1)])

text \<open>The service on filesystem storages and upstreams in memory.\<close>

interpretation filesystem_server: reader
  "server_reader pf \<lparr>sc_default = i, sc_backends = local_backends fresh bs\<rparr> (in_memory_client c) d k kek"
  known_in_db "stored_objects pf \<lparr>sc_default = i, sc_backends = local_backends fresh bs\<rparr> (\<lambda>i w. local_contents (backend_at bs i) (w i))"
  "\<lambda>w. \<forall>i. fs_wf (w i)" "\<lambda>w j. local_contents (backend_at bs j) (w j)" "selected_in_db pf"
  "\<lambda>u h. imu_narinfos c (uc_id u, hash_str h)" "\<lambda>u p. imu_objects c (uc_id u, p)" for pf i fresh bs c d k kek
  by (rule server_reader_contract[OF local_catalog.storage_backends_axioms in_memory.upstream_service_axioms])

text \<open>C5 (objects served). What a successful request for an object returns is the content of a visible
  object that the database records in a configured storage, with the recorded metadata; only when there
  is none, the bytes of the first enabled upstream of the view that holds the object. Reading changes
  neither the database nor a storage.\<close>

theorem served_object:
  assumes "storage_backends cat contents key visible ok" "upstream_service cl narinfos held (\<lambda>w j. contents j w)" "ok w"
    "get_object (server_reader pf cat cl d k kek) p view (db, w) = (r, db', w')"
  shows "db' = db \<and> (\<forall>i q. contents i w' q = contents i w q) \<and> (\<forall>x. r = Inr x \<longrightarrow>
    (\<exists>y. x = Some y \<and> y \<in> stored_objects pf cat contents db w view p) \<or>
    stored_objects pf cat contents db w view p = {} \<and>
    map_option snd x = first_held (\<lambda>u. map_option snd (held u p)) (selected_in_db pf db view))"
  using reader.get_object_delivers[OF server_reader_contract[OF assms(1,2)] assms(3,4)] by (metis (no_types, lifting))

text \<open>C1 (isolation of the aggregate view). A request to the aggregate view, which is open to everyone,
  for a narinfo or an object of paths that only private projects publish gets the response of a server
  that has no path and no object of its own.\<close>

theorem aggregate_isolation:
  assumes "\<And>h. parse_depot_object_path rx object = Some (NarInfoPath h) \<Longrightarrow> private_path db (hash_str h)"
    "\<And>po. po \<in> set (db_path_objects db) \<Longrightarrow> po_path po = object \<Longrightarrow> private_path db (po_hash po)"
  shows "serve_object rx pf cr b64 (server_reader pf cat cl d k kek) Aggregate object (db, w) =
    serve_object rx pf cr b64 ((server_reader pf cat cl d k kek)
      \<lparr>rs_resolver := (\<lambda>h view. return_io None), rs_provider := (\<lambda>p view. return_io None)\<rparr>) Aggregate object (db, w)"
proof -
  have hidden: "\<not> storage_object_visible_in_view Aggregate object db"
    using assms(2) by (auto simp: storage_object_visible_in_view_def list_ex_iff private_iff)
  have unknown: "get_aggregate_narinfo h db = Inr None"
    if "parse_depot_object_path rx object = Some (NarInfoPath h)" for h
    using aggregate_hides_private[OF assms(1)[OF that] assms(2)] by blast
  show ?thesis
    by (cases "parse_depot_object_path rx object"; cases "the (parse_depot_object_path rx object)")
      (auto simp: serve_object_def render_narinfo_def get_object_def server_reader_def db_resolve_narinfo_def get_visible_def
        on_db_def io_defs respond_def unknown hidden render_signed_narinfo_def signing_keys_for_view_def)
qed

lemma sign_message_line: "codec_ok c \<Longrightarrow> newline \<notin> set (nk_name k) \<Longrightarrow> line_text (sign_message c ed k m)"
proof -
  assume c: "codec_ok c" and n: "newline \<notin> set (nk_name k)"
  have "line_text (b64_encode c (ed_sign ed (nk_key k) m))" using c plain_line_text by (simp add: codec_ok_def)
  then show ?thesis using n by (auto simp: line_text_def sign_message_def)
qed

lemma render_more_signatures: "render_with_signatures b64 d n sigs = render b64 d (n\<lparr>ni_signatures := sigs\<rparr>)"
  by (simp add: render_def render_with_signatures_def ni_normalized_nar_hash_def ca_narinfo_string_def sorted_references_def)

lemma signed_text_parses:
  assumes "codec_ok (cr_codec cr)" "absolute_dir d" "wire_ok b64 d n" "ni_normalized_nar_hash b64 n = Inr nh"
    "digest_text (nh_digest nh)" "\<And>k. k \<in> set keys \<Longrightarrow> newline \<notin> set (nk_name k)" "signed_text cr b64 d keys n = Inr t"
  shows "\<exists>n' fp. parse_narinfo t d = Inr n' \<and> ni_store_path n' = ni_store_path n \<and> ni_url n' = ni_url n \<and>
    ni_nar_size n' = ni_nar_size n \<and> mset (ni_references n') = mset (ni_references n) \<and>
    fingerprint b64 \<lparr>signer_store_dir = d, signer_keys = keys\<rparr> n' = Inr fp \<and>
    mset (ni_signatures n') = mset (ni_signatures n) +
      mset (map (\<lambda>k. sign_message (cr_codec cr) (cr_ed cr) k (into_bytes fp)) keys)"
proof -
  let ?s = "\<lparr>signer_store_dir = d, signer_keys = keys\<rparr>"
  obtain fp where fp: "fingerprint b64 ?s n = Inr fp"
    and t: "render_with_signatures b64 d n (ni_signatures n @
      map (\<lambda>k. sign_message (cr_codec cr) (cr_ed cr) k (into_bytes fp)) keys) = Inr t"
    using assms(7) by (auto simp: signed_text_def sign_narinfo_def)
  let ?n = "n\<lparr>ni_signatures := ni_signatures n @ map (\<lambda>k. sign_message (cr_codec cr) (cr_ed cr) k (into_bytes fp)) keys\<rparr>"
  have h: "ni_normalized_nar_hash b64 ?n = Inr nh" using assms(4) by (simp add: ni_normalized_nar_hash_def)
  have "wire_ok b64 d ?n" using assms(3)
    by (auto simp: wire_ok_def list_all_iff ca_narinfo_string_def intro!: sign_message_line[OF assms(1)] assms(6))
  from parse_rendered[OF assms(2) this h t[unfolded render_more_signatures]]
  have p: "parse_narinfo t d = Inr (canonical b64 ?n nh)" .
  have a: "nh_algorithm nh = Sha256" using assms(4) normalize_sha256 by (auto simp: ni_normalized_nar_hash_def sha256_text_def)
  have "ni_normalized_nar_hash b64 (canonical b64 ?n nh) = Inr \<lparr>nh_algorithm = Sha256, nh_digest = nh_digest nh\<rparr>"
    using parse_text_prefixed[OF assms(5), of b64] by (simp add: canonical_def ni_normalized_nar_hash_def nar_hash_str_def a)
  then have "ni_normalized_nar_hash b64 (canonical b64 ?n nh) = Inr nh" using a by (metis (full_types) nar_info.cases normalized_nar_hash.cases normalized_nar_hash.select_convs)
  then have "fingerprint b64 ?s (canonical b64 ?n nh) = Inr fp"
    using fp assms(4) by (auto simp: fingerprint_Inr canonical_def sorted_references_def sort_again)
  then show ?thesis using p by (auto simp: canonical_def sorted_references_def sorted_signatures_def)
qed


subsection \<open>Instances\<close>

definition demo_reader :: "(unit, bool) read_service" where
  "demo_reader = \<lparr>rs_resolver = imr_resolve_narinfo (imr_insert_aggregate path_sample_hash sample_info
       \<lparr>imr_aggregate = Map.empty, imr_projects = Map.empty\<rparr>), rs_provider = (\<lambda>p view. return_io None),
     rs_client = in_memory_client \<lparr>imu_narinfos = Map.empty, imu_objects = Map.empty\<rparr>,
     rs_selector = (\<lambda>view. return_io []), rs_store_dir = default_nix, rs_aggregate_key = Some sample_key, rs_project_kek = None\<rparr>"


abbreviation (input) no_upstreams :: "'w upstream_client" where
  "no_upstreams \<equiv> in_memory_client \<lparr>imu_narinfos = Map.empty, imu_objects = Map.empty\<rparr>"

theorem aggregate_isolation_witness:
  "serve_object std_regexes std_platform toy_crypto no_base64 (server_reader std_platform \<lparr>sc_default = StorageId ''main'', sc_backends = []\<rparr>
       no_upstreams default_nix None None) Aggregate (hash_str path_sample_hash @ ''.narinfo'') (private_db, ()) =
   (status_response 404, private_db, ())"
proof -
  let ?object = "hash_str path_sample_hash @ ''.narinfo''"
  have p: "parse_depot_object_path std_regexes ?object = Some (NarInfoPath path_sample_hash)" by code_simp
  have priv: "private_path private_db (hash_str path_sample_hash)" by (simp add: private_path_def private_db_def)
  have h: "private_path private_db (hash_str h)" if "parse_depot_object_path std_regexes ?object = Some (NarInfoPath h)" for h
    using that priv unfolding p by simp
  have po: "private_path private_db (po_hash po)" if "po \<in> set (db_path_objects private_db)" for po
    using that by (simp add: private_path_def private_db_def)
  have e: "list_enabled_upstreams std_platform private_db = Inr []" by code_simp
  show ?thesis
    by (rule trans[OF aggregate_isolation[OF h po]])
      (simp_all add: serve_object_def p render_narinfo_def server_reader_def db_upstreams_for_view_def e io_defs on_db_def on_storage_def
        respond_def or_not_found_def)
qed

definition read_files :: "storage_id \<Rightarrow> file_system" where
  "read_files = (\<lambda>_. \<lparr>fs_nodes = (\<lambda>p. if p = [] \<or> p = [''data''] \<or> p = [''data'', ''nar''] then Some FsDir
       else if p = [''data'', ''nar'', path_a] then Some (FsFile [7]) else None),
     fs_step = 0, fs_faults = (\<lambda>_. None)\<rparr>)"

lemma read_files_wf: "\<forall>i. fs_wf (read_files i)"
  by (auto simp: fs_wf_def read_files_def append_eq_Cons_conv split: if_splits)

theorem served_object_witness:
  "\<exists>m. (m, [7]) \<in> stored_objects std_platform gc_catalog gc_contents gc_db read_files (Project demo) (''nar/'' @ path_a)"
proof -
  let ?s = "server_reader std_platform gc_catalog no_upstreams default_nix None None :: (storage_id \<Rightarrow> file_system, bool) read_service"
  have "case fst (get_object ?s (''nar/'' @ path_a) (Project demo) (gc_db, read_files)) of
      Inr (Some (m, b)) \<Rightarrow> b = [7] | _ \<Rightarrow> False" by code_simp
  then obtain m db' w' where run: "get_object ?s (''nar/'' @ path_a) (Project demo) (gc_db, read_files) = (Inr (Some (m, [7])), db', w')"
    by (cases "get_object ?s (''nar/'' @ path_a) (Project demo) (gc_db, read_files)") (auto split: sum.splits option.splits)
  have e: "selected_in_db std_platform gc_db (Project demo) = []" by code_simp
  from served_object[OF gc_backends in_memory.upstream_service_axioms read_files_wf run] e show ?thesis by auto
qed

end
