(* ===== verification/Ingest.thy ===== *)
theory Ingest
  imports ReadService Validation DbBuilds
begin

text \<open>
  \<^verbatim>\<open>crates/depot-ingest\<close>: the steps of a publication (\<^verbatim>\<open>service.rs\<close>, \<^verbatim>\<open>planner.rs\<close>) over the database,
  the storages and the upstreams, with the requests and responses of \<^verbatim>\<open>crates/depot-api/src/builds.rs\<close>.
\<close>

subsection \<open>Requests and responses\<close>

record begin_build_request =
  bbr_project :: string
  bbr_ref_name :: string
  bbr_revision :: "string option"

record begin_build_response =
  bbs_build_id :: string

record nar_info_payload =
  np_store_path :: string
  np_url :: string
  np_compression :: string
  np_nar_hash :: string
  np_nar_size :: "64 word"
  np_references :: "string list"
  np_deriver :: "string option"
  np_signatures :: "string list"
  np_ca :: "string option"

record register_paths_request =
  rpr_build_id :: string
  rpr_paths :: "nar_info_payload list"

record s3_multipart_upload =
  smu_upload_id :: string
  smu_part_size :: "64 word"

datatype upload_method = Proxy | S3Multipart s3_multipart_upload

record presign_multipart_upload_part_request =
  pmr_object_path :: string
  pmr_upload_id :: string
  pmr_content_length :: "64 word"

record presign_multipart_upload_part_response =
  pms_url :: string
  pms_expires_at :: string

record completed_upload_part =
  cup_part_number :: part_number
  cup_etag :: string

record complete_multipart_upload_request =
  cmr_object_path :: string
  cmr_upload_id :: string
  cmr_parts :: "completed_upload_part list"
  cmr_content_length :: "64 word"

record abort_multipart_upload_request =
  amr_object_path :: string
  amr_upload_id :: string

record required_upload =
  ru_store_path_hash :: string
  ru_object_path :: string
  ru_content_type :: string
  ru_method :: upload_method

record register_paths_response =
  rps_required_uploads :: "required_upload list"

record finalize_build_request =
  fbr_build_id :: string

definition narinfo_of_payload :: "nar_info_payload \<Rightarrow> nar_info" where
  "narinfo_of_payload v =
     \<lparr>ni_store_path = np_store_path v, ni_url = np_url v, ni_compression = np_compression v,
      ni_nar_hash = Raw (np_nar_hash v), ni_nar_size = np_nar_size v, ni_references = np_references v,
      ni_deriver = np_deriver v, ni_signatures = np_signatures v, ni_ca = map_option CaRaw (np_ca v)\<rparr>"

definition payload_of_narinfo :: "b64_decoder \<Rightarrow> nar_info \<Rightarrow> nar_info_payload" where
  "payload_of_narinfo b64 v =
     \<lparr>np_store_path = ni_store_path v, np_url = ni_url v, np_compression = ni_compression v,
      np_nar_hash = render_text (ni_nar_hash v), np_nar_size = ni_nar_size v, np_references = ni_references v,
      np_deriver = ni_deriver v, np_signatures = ni_signatures v,
      np_ca = map_option (format_for_narinfo b64) (ni_ca v)\<rparr>"

subsection \<open>Planning uploads\<close>

record planned_upload =
  plu_store_path_hash :: store_path_hash
  plu_object_path :: string
  plu_content_type :: string

definition to_api_required_upload :: "planned_upload \<Rightarrow> upload_method \<Rightarrow> required_upload" where
  "to_api_required_upload p m =
     \<lparr>ru_store_path_hash = hash_str (plu_store_path_hash p), ru_object_path = plu_object_path p,
      ru_content_type = plu_content_type p, ru_method = m\<rparr>"

definition octet_stream :: string where
  "octet_stream = ''application/octet-stream''"

fun object_exists_upstream ::
    "'w upstream_client \<Rightarrow> upstream_cache list \<Rightarrow> string \<Rightarrow> ('w, anyhow, bool) io" where
  "object_exists_upstream client [] object_path = return_io False"
| "object_exists_upstream client (u # us) object_path =
     bind_io (ucl_head_object client u object_path) (\<lambda>found.
     if found \<noteq> None then return_io True else object_exists_upstream client us object_path)"

definition is_nar_path :: "regexes \<Rightarrow> string \<Rightarrow> bool" where
  "is_nar_path rx object_path = (case parse_depot_object_path rx object_path of Some (NarPath _ _) \<Rightarrow> True | _ \<Rightarrow> False)"

text \<open>One round of the planner: the upload of this narinfo, if one is needed.\<close>

definition plan_upload ::
    "regexes \<Rightarrow> 'w depot_storage \<Rightarrow> 'w upstream_client \<Rightarrow> upstream_cache list \<Rightarrow> nar_info \<Rightarrow>
     ('w, anyhow, planned_upload list) io" where
  "plan_upload rx storage client upstreams n =
     bind_io (pure_io (context_err ''deriving store path hash for upload planning''
       (parse_from_store_path (ni_store_path n)))) (\<lambda>store_path_hash.
     if \<not> is_nar_path rx (ni_url n) then return_io []
     else bind_io (ds_head storage (ni_url n)) (\<lambda>found.
     if found \<noteq> None then return_io []
     else bind_io (object_exists_upstream client upstreams (ni_url n)) (\<lambda>exists_upstream.
     return_io (if exists_upstream then []
       else [\<lparr>plu_store_path_hash = store_path_hash, plu_object_path = ni_url n, plu_content_type = octet_stream\<rparr>]))))"

definition plan_required_uploads ::
    "regexes \<Rightarrow> 'w depot_storage \<Rightarrow> 'w upstream_client \<Rightarrow> upstream_cache list \<Rightarrow> nar_info list \<Rightarrow>
     ('w, anyhow, planned_upload list) io" where
  "plan_required_uploads rx storage client upstreams narinfos =
     bind_io (map_io (plan_upload rx storage client upstreams) narinfos) (\<lambda>planned. return_io (concat planned))"

subsection \<open>The service\<close>

record 'w ingest_service =
  ing_store_dir :: store_dir
  ing_catalog :: "'w storage_catalog"
  ing_client :: "'w upstream_client"

type_synonym ('w, 'a) ingest = "(database \<times> 'w, anyhow, 'a) io"

definition ingest_begin_build ::
    "platform \<Rightarrow> datetime \<Rightarrow> uuid \<Rightarrow> begin_build_request \<Rightarrow> ('w, begin_build_response) ingest" where
  "ingest_begin_build pf now fresh request =
     bind_io (pure_io (map_err (\<lambda>_. Anyhow (''invalid project slug '' @ bbr_project request))
       (slug_parse (bbr_project request)))) (\<lambda>project.
     bind_io (on_db (begin_build pf now fresh project (bbr_ref_name request) (bbr_revision request))) (\<lambda>build.
     return_io \<lparr>bbs_build_id = bld_id build\<rparr>))"

definition project_upstreams :: "platform \<Rightarrow> project_slug \<Rightarrow> ('w, upstream_cache list) ingest" where
  "project_upstreams pf project =
     bind_io (on_db (query_io (list_enabled_upstreams_for_project pf project))) (\<lambda>records.
     return_io (map to_runtime_config records))"

definition project_storage ::
    "'w ingest_service \<Rightarrow> project_slug \<Rightarrow> ('w, storage_id \<times> 'w depot_storage) ingest" where
  "project_storage s project =
     bind_io (on_db (query_io (get_project_storage_id project))) (\<lambda>storage_id.
     bind_io (pure_io (catalog_storage (ing_catalog s) storage_id)) (\<lambda>storage.
     return_io (storage_id, storage)))"

definition build_not_found :: "uuid \<Rightarrow> anyhow" where
  "build_not_found build_id = Anyhow (''build '' @ build_id @ '' not found'')"

text \<open>The context of a build that is still pending.\<close>

definition pending_context :: "platform \<Rightarrow> uuid \<Rightarrow> ('w, build_context) ingest" where
  "pending_context pf build_id =
     bind_io (on_db (query_io (get_build_context pf build_id))) (\<lambda>found.
     bind_io (pure_io (ok_or (build_not_found build_id) found)) (\<lambda>context.
     if ctx_status context \<noteq> Pending then fail_io (Anyhow (''build '' @ build_id @ '' is not pending''))
     else return_io context))"

text \<open>The row of an object that the storage holds, and its link to the path.\<close>

definition record_object ::
    "platform \<Rightarrow> storage_id \<Rightarrow> store_path_hash \<Rightarrow> string \<Rightarrow> blob_metadata \<Rightarrow> ('w, unit) ingest" where
  "record_object pf storage_id h object_path m =
     bind_io (on_db (upsert_storage_object pf storage_id object_path m)) (\<lambda>_.
     on_db (link_path_object h object_path KindNar))"

text \<open>The body of the first loop of \<^verbatim>\<open>register_paths\<close>, and of the second.\<close>

definition register_path ::
    "regexes \<Rightarrow> b64_decoder \<Rightarrow> store_dir \<Rightarrow> uuid \<Rightarrow> nar_info_payload \<Rightarrow> ('w, nar_info) ingest" where
  "register_path rx b64 d build_id path =
     (let n = narinfo_of_payload path in
      bind_io (pure_io (map_err (\<lambda>_. Anyhow ''invalid narinfo'') (validate_publish_narinfo rx b64 d n))) (\<lambda>h.
      bind_io (on_db (upsert_path_info b64 n)) (\<lambda>_.
      bind_io (on_db (attach_build_path build_id h)) (\<lambda>_.
      return_io n))))"

definition link_stored ::
    "platform \<Rightarrow> regexes \<Rightarrow> storage_id \<Rightarrow> 'w depot_storage \<Rightarrow> nar_info \<Rightarrow> ('w, unit) ingest" where
  "link_stored pf rx storage_id storage n =
     bind_io (pure_io (context_err ''deriving store path hash for path object linking''
       (parse_from_store_path (ni_store_path n)))) (\<lambda>h.
     if \<not> is_nar_path rx (ni_url n) then return_io ()
     else bind_io (on_storage (ds_head storage (ni_url n))) (\<lambda>found.
     case found of None \<Rightarrow> return_io () | Some m \<Rightarrow> record_object pf storage_id h (ni_url n) m))"

definition require_upload :: "'w depot_storage \<Rightarrow> planned_upload \<Rightarrow> ('w, anyhow, required_upload) io" where
  "require_upload storage p =
     bind_io (ds_create_multipart_upload storage (plu_object_path p)) (\<lambda>upload.
     return_io (to_api_required_upload p (case upload of
       Some u \<Rightarrow> S3Multipart \<lparr>smu_upload_id = mu_upload_id u, smu_part_size = mu_part_size u\<rparr> | None \<Rightarrow> Proxy)))"

definition parse_build_id :: "platform \<Rightarrow> string \<Rightarrow> ('w, uuid) ingest" where
  "parse_build_id pf t = pure_io (ok_or (Anyhow ''parsing build_id'') (uuid_parse pf t))"

definition register_paths ::
    "platform \<Rightarrow> regexes \<Rightarrow> b64_decoder \<Rightarrow> 'w ingest_service \<Rightarrow> register_paths_request \<Rightarrow>
     ('w, register_paths_response) ingest" where
  "register_paths pf rx b64 s request =
     bind_io (parse_build_id pf (rpr_build_id request)) (\<lambda>build_id.
     bind_io (pending_context pf build_id) (\<lambda>context.
     bind_io (map_io (register_path rx b64 (ing_store_dir s) build_id) (rpr_paths request)) (\<lambda>narinfos.
     bind_io (project_storage s (ctx_project_slug context)) (\<lambda>(storage_id, storage).
     bind_io (project_upstreams pf (ctx_project_slug context)) (\<lambda>upstreams.
     bind_io (on_storage (plan_required_uploads rx storage (ing_client s) upstreams narinfos)) (\<lambda>planned.
     bind_io (for_io (link_stored pf rx storage_id storage) narinfos) (\<lambda>_.
     bind_io (on_storage (map_io (require_upload storage) planned)) (\<lambda>required_uploads.
     return_io \<lparr>rps_required_uploads = required_uploads\<rparr>))))))))"

subsection \<open>Uploads\<close>

definition validate_upload_target ::
    "platform \<Rightarrow> regexes \<Rightarrow> 'w ingest_service \<Rightarrow> uuid \<Rightarrow> store_path_hash \<Rightarrow> string \<Rightarrow>
     ('w, storage_id \<times> 'w depot_storage) ingest" where
  "validate_upload_target pf rx s build_id h object_path =
     bind_io (pending_context pf build_id) (\<lambda>context.
     bind_io (pure_io (case parse_depot_object_path rx object_path of
         Some (NarPath _ _) \<Rightarrow> Inr ()
       | Some (NarInfoPath _) \<Rightarrow> Inl (Anyhow ''clients must not upload narinfo objects directly'')
       | _ \<Rightarrow> Inl (Anyhow (''invalid upload object path '' @ object_path)))) (\<lambda>_.
     bind_io (on_db (query_io (get_build_path_narinfo build_id h))) (\<lambda>found.
     case found of
       None \<Rightarrow> fail_io (Anyhow (''build '' @ build_id @ '' does not include path '' @ hash_str h))
     | Some n \<Rightarrow>
         if object_path \<noteq> ni_url n
         then fail_io (Anyhow (''object path '' @ object_path @ '' does not match registered nar '' @ ni_url n @
           '' for path '' @ hash_str h))
         else project_storage s (ctx_project_slug context))))"

text \<open>When the rows cannot be written the object is deleted again, whatever that gives.\<close>

definition persist_or_delete ::
    "platform \<Rightarrow> storage_id \<times> 'w depot_storage \<Rightarrow> store_path_hash \<Rightarrow> string \<Rightarrow> blob_metadata \<Rightarrow> ('w, unit) ingest" where
  "persist_or_delete pf target h object_path m = (\<lambda>st.
     case record_object pf (fst target) h object_path m st of
       (Inr u, st) \<Rightarrow> (Inr u, st)
     | (Inl e, st) \<Rightarrow> (Inl e, snd (on_storage (ds_delete (snd target) object_path) st)))"

definition upload_object ::
    "platform \<Rightarrow> regexes \<Rightarrow> 'w ingest_service \<Rightarrow> uuid \<Rightarrow> store_path_hash \<Rightarrow> string \<Rightarrow> upload_reader \<Rightarrow>
     ('w, unit) ingest" where
  "upload_object pf rx s build_id h object_path body =
     bind_io (validate_upload_target pf rx s build_id h object_path) (\<lambda>target.
     bind_io (on_storage (ds_put_stream (snd target) object_path body)) (\<lambda>written.
     persist_or_delete pf target h object_path
       \<lparr>bm_content_type = octet_stream, bm_content_length = Some written, bm_etag = None, bm_last_modified = None\<rparr>))"

definition PRESIGNED_MULTIPART_PART_TTL :: int where
  "PRESIGNED_MULTIPART_PART_TTL = 60 * 60"

definition presign_multipart_upload_part ::
    "platform \<Rightarrow> regexes \<Rightarrow> (datetime \<Rightarrow> string) \<Rightarrow> 'w ingest_service \<Rightarrow> uuid \<Rightarrow> store_path_hash \<Rightarrow> part_number \<Rightarrow>
     presign_multipart_upload_part_request \<Rightarrow> ('w, presign_multipart_upload_part_response) ingest" where
  "presign_multipart_upload_part pf rx show_time s build_id h part_number request =
     bind_io (validate_upload_target pf rx s build_id h (pmr_object_path request)) (\<lambda>target.
     bind_io (on_storage (ds_presign_multipart_upload_part (snd target) (pmr_object_path request)
       (pmr_upload_id request) part_number (pmr_content_length request) PRESIGNED_MULTIPART_PART_TTL)) (\<lambda>url.
     bind_io (pure_io (ok_or no_multipart url)) (\<lambda>url.
     return_io \<lparr>pms_url = pu_url url, pms_expires_at = show_time (pu_expires_at url)\<rparr>)))"

definition complete_multipart_upload ::
    "platform \<Rightarrow> regexes \<Rightarrow> 'w ingest_service \<Rightarrow> uuid \<Rightarrow> store_path_hash \<Rightarrow> complete_multipart_upload_request \<Rightarrow>
     ('w, unit) ingest" where
  "complete_multipart_upload pf rx s build_id h request =
     bind_io (validate_upload_target pf rx s build_id h (cmr_object_path request)) (\<lambda>target.
     bind_io (on_storage (ds_complete_multipart_upload (snd target) (cmr_object_path request) (cmr_upload_id request)
       (map (\<lambda>part. \<lparr>cp_part_number = cup_part_number part, cp_etag = cup_etag part\<rparr>) (cmr_parts request))
       (cmr_content_length request))) (\<lambda>completed.
     persist_or_delete pf target h (cmr_object_path request)
       \<lparr>bm_content_type = octet_stream, bm_content_length = Some (cm_content_length completed),
        bm_etag = cm_e_tag completed, bm_last_modified = None\<rparr>))"

definition abort_multipart_upload ::
    "platform \<Rightarrow> regexes \<Rightarrow> 'w ingest_service \<Rightarrow> uuid \<Rightarrow> store_path_hash \<Rightarrow> abort_multipart_upload_request \<Rightarrow>
     ('w, unit) ingest" where
  "abort_multipart_upload pf rx s build_id h request =
     bind_io (validate_upload_target pf rx s build_id h (amr_object_path request)) (\<lambda>target.
     on_storage (ds_abort_multipart_upload (snd target) (amr_object_path request) (amr_upload_id request)))"

subsection \<open>Finalization\<close>

definition nar_missing :: "uuid \<Rightarrow> store_path_hash \<times> string \<Rightarrow> anyhow" where
  "nar_missing build_id path =
     Anyhow (''cannot finalize build '' @ build_id @ '': required nar object '' @ snd path @
       '' for path '' @ hash_str (fst path) @ '' is not available locally or upstream'')"

text \<open>The check of one path of the build: stored and recorded, or held by an upstream.\<close>

definition finalize_path ::
    "platform \<Rightarrow> 'w upstream_client \<Rightarrow> uuid \<Rightarrow> upstream_cache list \<Rightarrow> storage_id \<times> 'w depot_storage \<Rightarrow>
     store_path_hash \<times> string \<Rightarrow> ('w, unit) ingest" where
  "finalize_path pf client build_id upstreams target path =
     bind_io (on_storage (ds_head (snd target) (snd path))) (\<lambda>found.
     case found of
       Some m \<Rightarrow> record_object pf (fst target) (fst path) (snd path) m
     | None \<Rightarrow>
         bind_io (on_storage (object_exists_upstream client upstreams (snd path))) (\<lambda>exists.
         if exists then return_io () else fail_io (nar_missing build_id path)))"

definition finalize_build ::
    "platform \<Rightarrow> datetime \<Rightarrow> 'w ingest_service \<Rightarrow> finalize_build_request \<Rightarrow> ('w, unit) ingest" where
  "finalize_build pf now s request =
     bind_io (parse_build_id pf (fbr_build_id request)) (\<lambda>build_id.
     bind_io (pending_context pf build_id) (\<lambda>context.
     bind_io (on_db (query_io (list_build_path_nar_objects build_id))) (\<lambda>build_paths.
     if build_paths = [] then fail_io (Anyhow (''build '' @ build_id @ '' has no registered paths''))
     else
       bind_io (project_upstreams pf (ctx_project_slug context)) (\<lambda>upstreams.
       bind_io (project_storage s (ctx_project_slug context)) (\<lambda>target.
       bind_io (for_io (finalize_path pf (ing_client s) build_id upstreams target) build_paths) (\<lambda>_.
       on_db (publish_build_to_ref pf now (ctx_project_slug context) (ctx_ref_name context) build_id)))))))"

subsection \<open>What the steps of the service do\<close>

text \<open>The rows that say that a storage holds an object, and that it belongs to a path.\<close>

definition recorded :: "storage_id \<Rightarrow> string \<Rightarrow> database \<Rightarrow> bool" where
  "recorded i p db \<longleftrightarrow> (\<exists>so\<in>set (db_objects db). so_key so = (storage_id_str i, p) \<and> so_deleted_at so = None)"

definition linked :: "store_path_hash \<Rightarrow> string \<Rightarrow> database \<Rightarrow> bool" where
  "linked h p db \<longleftrightarrow> (\<exists>po\<in>set (db_path_objects db). po_hash po = hash_str h \<and> po_path po = p)"

definition rows_grow :: "database \<Rightarrow> database \<Rightarrow> bool" where
  "rows_grow db db' \<longleftrightarrow> db' = db\<lparr>db_objects := db_objects db', db_path_objects := db_path_objects db'\<rparr> \<and>
     (\<forall>i p. recorded i p db \<longrightarrow> recorded i p db') \<and> (\<forall>h p. linked h p db \<longrightarrow> linked h p db')"

lemma rows_grow_refl: "rows_grow db db"
  by (simp add: rows_grow_def)

lemma rows_grow_trans:
  assumes "rows_grow a b" "rows_grow b c"
  shows "rows_grow a c"
proof -
  obtain x y where b: "b = a\<lparr>db_objects := x, db_path_objects := y\<rparr>" using assms(1) unfolding rows_grow_def by blast
  obtain u v where "c = b\<lparr>db_objects := u, db_path_objects := v\<rparr>" using assms(2) unfolding rows_grow_def by blast
  then have "c = a\<lparr>db_objects := db_objects c, db_path_objects := db_path_objects c\<rparr>" unfolding b by simp
  then show ?thesis using assms by (auto simp: rows_grow_def)
qed

lemma upsert_object_rows:
  assumes "upsert_storage_object pf i p m db = (r, db')"
  shows "rows_grow db db' \<and> (is_ok r \<longrightarrow> recorded i p db')"
proof (cases r)
  case (Inl e)
  then have "db' = db" using assms by (auto simp: upsert_storage_object_def tx_io_def split: sum.splits)
  then show ?thesis using Inl rows_grow_refl by simp
next
  case (Inr u)
  let ?f = "\<lambda>old excluded. old\<lparr>so_content_type := so_content_type excluded,
            so_content_length := so_content_length excluded, so_etag := so_etag excluded,
            so_last_modified := so_last_modified excluded, so_deleted_at := None,
            so_first_deleted_at := None\<rparr>"
  from assms Inr obtain len lm where lit: "db' = db\<lparr>db_objects := upsert_row so_key ?f \<lparr>so_storage_id = storage_id_str i,
        so_object_path = p, so_content_type = bm_content_type m, so_content_length = len, so_etag = bm_etag m,
        so_last_modified = lm, so_deleted_at = None, so_first_deleted_at = None\<rparr> (db_objects db)\<rparr>"
    by (auto simp: upsert_storage_object_def Let_def)
  obtain row where row: "so_key row = (storage_id_str i, p)" "so_deleted_at row = None"
    and db': "db' = db\<lparr>db_objects := upsert_row so_key ?f row (db_objects db)\<rparr>"
    by (rule that[OF _ _ lit]) (simp_all add: so_key_def)
  have o: "db_objects db' = upsert_row so_key ?f row (db_objects db)" by (simp add: db')
  have new: "recorded i p db'" unfolding recorded_def o
    by (rule upsert_ex) (use row in \<open>simp_all add: so_key_def\<close>)
  have "recorded j q db'" if "recorded j q db" for j q
  proof (cases "(storage_id_str j, q) = so_key row")
    case True
    then show ?thesis using new unfolding row recorded_def by simp
  next
    case False
    from that obtain so where so: "so \<in> set (db_objects db)" "so_key so = (storage_id_str j, q)" "so_deleted_at so = None"
      by (auto simp: recorded_def)
    have "so \<in> set (upsert_row so_key ?f row (db_objects db)) \<longleftrightarrow> so \<in> set (db_objects db)"
      by (rule upsert_other) (use False so(2) in \<open>simp_all add: so_key_def\<close>)
    then show ?thesis using so unfolding recorded_def o by blast
  qed
  moreover have "linked h q db' = linked h q db" for h q by (simp add: linked_def db')
  ultimately show ?thesis using new unfolding rows_grow_def db' by simp
qed

lemma link_object_rows:
  assumes "link_path_object h p k db = (r, db')"
  shows "rows_grow db db' \<and> (is_ok r \<longrightarrow> linked h p db')"
proof (cases r)
  case (Inl e)
  then have "db' = db" using assms by (auto simp: link_path_object_def tx_io_def split: sum.splits)
  then show ?thesis using Inl rows_grow_refl by simp
next
  case (Inr u)
  then have db': "db' = db\<lparr>db_path_objects := insert_ignore po_key
      \<lparr>po_hash = hash_str h, po_path = p, po_kind = kind_str k\<rparr> (db_path_objects db)\<rparr>"
    using assms by (auto simp: link_path_object_def)
  have "po_key ` set (db_path_objects db') = insert (hash_str h, p, kind_str k) (po_key ` set (db_path_objects db))"
    using insert_ignore_key[of po_key "\<lparr>po_hash = hash_str h, po_path = p, po_kind = kind_str k\<rparr>" "db_path_objects db"]
    by (simp add: db' po_key_def[of "\<lparr>po_hash = hash_str h, po_path = p, po_kind = kind_str k\<rparr>"])
  then obtain po where "po \<in> set (db_path_objects db')" "po_key po = (hash_str h, p, kind_str k)"
    by (metis imageE insertI1)
  then have "linked h p db'" by (auto simp: linked_def po_key_def)
  moreover have "set (db_path_objects db) \<subseteq> set (db_path_objects db')" unfolding db' by (auto simp: insert_ignore_def)
  moreover have "recorded i q db' = recorded i q db" for i q by (simp add: recorded_def db')
  ultimately show ?thesis unfolding rows_grow_def by (auto simp: linked_def db')
qed

lemma record_object_rows:
  assumes "record_object pf i h p m (db, w) = (r, db', w')"
  shows "w' = w \<and> rows_grow db db' \<and> (is_ok r \<longrightarrow> recorded i p db' \<and> linked h p db')"
  using assms unfolding record_object_def
proof (cases rule: bind_io_cases)
  case (1 e)
  then show ?thesis using upsert_object_rows[of pf i p m db "Inl e"] by auto
next
  case (2 u st)
  then obtain db1 where s: "upsert_storage_object pf i p m db = (Inr u, db1)" "link_path_object h p KindNar db1 = (r, db')" "w' = w"
    by (cases st) auto
  note a = upsert_object_rows[OF s(1)] and b = link_object_rows[OF s(2)]
  have "recorded i p db'" using a b by (simp add: rows_grow_def)
  then show ?thesis using a b s(3) rows_grow_trans by simp blast
qed

text \<open>What the service relies on of the outside world: the storages of the catalog and the upstreams, whose
  requests leave the storages alone.\<close>

abbreviation (input) store_view :: "(storage_id \<Rightarrow> 'w \<Rightarrow> string \<Rightarrow> bytes option) \<Rightarrow> ('w \<Rightarrow> bool) \<Rightarrow> 'w \<Rightarrow>
    bool \<times> (storage_id \<Rightarrow> string \<Rightarrow> bytes option)" where
  "store_view contents ok \<equiv> (\<lambda>w. (ok w, \<lambda>j. contents j w))"

lemma object_exists_held:
  assumes "upstream_service cl narinfos held kept" "object_exists_upstream cl us p w = (r, w')"
  shows "kept w' = kept w \<and> (\<forall>b. r = Inr b \<longrightarrow> b = (\<exists>u\<in>set us. held u p \<noteq> None))"
  using assms(2)
proof (induction us arbitrary: w)
  case (Cons u us)
  from Cons.prems show ?case unfolding object_exists_upstream.simps
  proof (cases rule: bind_io_cases)
    case (1 e)
    then show ?thesis using upstream_service.head_held[OF assms(1) 1(1)] by simp
  next
    case (2 x w1)
    note h = upstream_service.head_held[OF assms(1) 2(1)]
    show ?thesis
    proof (cases "x = None")
      case True
      then show ?thesis using Cons.IH[of w1] 2(2) h by auto
    next
      case False
      then show ?thesis using 2(2) h by (auto simp: return_io_def)
    qed
  qed
qed (auto simp: return_io_def)

lemma pending_context_state:
  assumes "pending_context pf b (db, w) = (r, s')"
  shows "s' = (db, w) \<and> (\<forall>c. r = Inr c \<longrightarrow> get_build_context pf b db = Inr (Some c) \<and> ctx_status c = Pending)"
proof (cases "get_build_context pf b db")
  case (Inr found)
  then show ?thesis using assms by (cases found) (auto simp: pending_context_def io_defs on_db_def split: if_splits)
qed (use assms in \<open>auto simp: pending_context_def io_defs on_db_def\<close>)

lemma project_storage_state:
  assumes "project_storage s project (db, w) = (r, s')"
  shows "s' = (db, w) \<and> (\<forall>i st. r = Inr (i, st) \<longrightarrow>
    get_project_storage_id project db = Inr i \<and> catalog_storage (ing_catalog s) i = Inr st)"
  using assms by (cases "get_project_storage_id project db";
      cases "catalog_storage (ing_catalog s) (the (res_opt (get_project_storage_id project db)))")
    (auto simp: project_storage_def io_defs on_db_def)

lemma project_upstreams_state:
  assumes "project_upstreams pf project (db, w) = (r, s')"
  shows "s' = (db, w) \<and> (\<forall>us. r = Inr us \<longrightarrow> us = selected_in_db pf db (Project project))"
  using assms by (cases "list_enabled_upstreams_for_project pf project db")
    (auto simp: project_upstreams_def selected_in_db_def io_defs on_db_def)

context storage_backends
begin

lemma head_backend:
  assumes "catalog_storage cat i = Inr st" "ds_head st p w = (r, w')" "ok w"
  shows "store_view contents ok w' = store_view contents ok w \<and> (\<forall>m. r = Inr m \<longrightarrow> (m = None \<longleftrightarrow> contents i w p = None))"
proof -
  note g = object_storage.head_ok[OF backend[OF assms(1)] assms(3) assms(2)]
  have "storage_call st w w'" using call_head[of st w p] assms(2) by simp
  then have "contents j w' q = contents j w q" for j q
    using other_backend[OF assms(1) _ assms(3), of w' j q] g by (cases "j = i") auto
  then show ?thesis using g assms(3) by (auto intro!: ext)
qed

text \<open>The loop of the finalization.\<close>

lemma finalize_paths:
  assumes up: "upstream_service cl narinfos held (store_view contents ok)" and st: "catalog_storage cat i = Inr st"
    and "for_io (finalize_path pf cl b us (i, st)) paths (db, w) = (r, db', w')" "ok w"
  shows "rows_grow db db' \<and> store_view contents ok w' = store_view contents ok w \<and>
    (\<forall>u. r = Inr u \<longrightarrow> (\<forall>(h, p)\<in>set paths. contents i w p \<noteq> None \<and> recorded i p db' \<and> linked h p db' \<or>
      (\<exists>u\<in>set us. held u p \<noteq> None)))"
  using assms(3,4)
proof (induction paths arbitrary: db w)
  case (Cons hp paths)
  obtain h p where hp: "hp = (h, p)" by (cases hp)
  have step: "rows_grow db db1 \<and> store_view contents ok w1 = store_view contents ok w \<and>
      (\<forall>u. r1 = Inr u \<longrightarrow> contents i w p \<noteq> None \<and> recorded i p db1 \<and> linked h p db1 \<or> (\<exists>u\<in>set us. held u p \<noteq> None))"
    if "finalize_path pf cl b us (i, st) (h, p) (db, w) = (r1, db1, w1)" for r1 db1 w1
    using that unfolding finalize_path_def
  proof (cases rule: bind_io_cases)
    case (1 e)
    then show ?thesis using head_backend[OF st _ Cons.prems(2)] rows_grow_refl by auto
  next
    case (2 found s2)
    then obtain w2 where s2: "s2 = (db, w2)" "ds_head st p w = (Inr found, w2)" by auto
    note hd = head_backend[OF st s2(2) Cons.prems(2)]
    show ?thesis
    proof (cases found)
      case None
      from 2(2) None have "bind_io (on_storage (object_exists_upstream cl us p)) (\<lambda>exists. if exists then return_io ()
         else fail_io (nar_missing b (h, p))) (db, w2) = (r1, db1, w1)"
        by (simp add: s2(1))
      then show ?thesis
      proof (cases rule: bind_io_cases)
        case (1 e)
        then show ?thesis using object_exists_held[OF up] hd rows_grow_refl by auto
      next
        case (2 x s3)
        then obtain w3 where s3: "s3 = (db, w3)" "object_exists_upstream cl us p w2 = (Inr x, w3)" by auto
        show ?thesis using object_exists_held[OF up s3(2)] hd 2(2) s3(1) rows_grow_refl
          by (auto simp: io_defs split: if_splits)
      qed
    next
      case (Some m)
      then have "record_object pf i h p m (db, w2) = (r1, db1, w1)" using 2(2) s2(1) by simp
      from record_object_rows[OF this] show ?thesis using hd Some by simp
    qed
  qed
  from Cons.prems(1)[unfolded hp for_io.simps] show ?case
  proof (cases rule: bind_io_cases)
    case (1 e)
    then show ?thesis using step by auto
  next
    case (2 u s1)
    obtain db1 w1 where s1: "s1 = (db1, w1)" by (cases s1)
    note a = step[OF 2(1)[unfolded s1]]
    then have "ok w1" using Cons.prems(2) by simp
    note ih = Cons.IH[OF 2(2)[unfolded s1] this]
    have c: "contents i w1 q = contents i w q" for q using a by (metis snd_conv)
    have g: "recorded i p db1 \<Longrightarrow> recorded i p db'" "linked h p db1 \<Longrightarrow> linked h p db'" using ih by (simp_all add: rows_grow_def)
    show ?thesis
    proof (intro conjI allI impI)
      show "rows_grow db db'" using a ih rows_grow_trans by blast
      show "store_view contents ok w' = store_view contents ok w" using a ih by simp
      show "\<forall>(h, p)\<in>set (hp # paths). contents i w p \<noteq> None \<and> recorded i p db' \<and> linked h p db' \<or>
          (\<exists>u\<in>set us. held u p \<noteq> None)" if "r = Inr v" for v
      proof -
        have "\<forall>(h, p)\<in>set paths. contents i w p \<noteq> None \<and> recorded i p db' \<and> linked h p db' \<or> (\<exists>u\<in>set us. held u p \<noteq> None)"
          using ih[unfolded c] that by blast
        moreover have "contents i w p \<noteq> None \<and> recorded i p db' \<and> linked h p db' \<or> (\<exists>u\<in>set us. held u p \<noteq> None)"
          using a g by blast
        ultimately show ?thesis unfolding hp list.set ball_simps prod.case by blast
      qed
    qed
  qed
qed (auto simp: return_io_def rows_grow_refl)

end

lemma finalize_build_runs:
  assumes "finalize_build pf now s request (db, w) = (r, st')"
  obtains (early) e where "r = Inl e" "st' = (db, w)"
  | (checked) b c paths i st r1 db1 w1 where
      "uuid_parse pf (fbr_build_id request) = Some b" "get_build_context pf b db = Inr (Some c)" "ctx_status c = Pending"
      "list_build_path_nar_objects b db = Inr paths" "paths \<noteq> []"
      "get_project_storage_id (ctx_project_slug c) db = Inr i" "catalog_storage (ing_catalog s) i = Inr st"
      "for_io (finalize_path pf (ing_client s) b (selected_in_db pf db (Project (ctx_project_slug c))) (i, st)) paths (db, w)
         = (r1, db1, w1)"
      "(\<exists>e. r1 = Inl e \<and> r = Inl e \<and> st' = (db1, w1)) \<or>
       (\<exists>db'. r1 = Inr () \<and> publish_build_to_ref pf now (ctx_project_slug c) (ctx_ref_name c) b db1 = (r, db') \<and> st' = (db', w1))"
  using assms unfolding finalize_build_def
proof (cases rule: bind_io_cases)
  case (1 e)
  then show ?thesis using early by (auto simp: parse_build_id_def pure_io_def)
next
  case (2 b s1)
  then have b: "s1 = (db, w)" "uuid_parse pf (fbr_build_id request) = Some b" by (auto simp: parse_build_id_def)
  from 2(2)[unfolded b(1)] show ?thesis
  proof (cases rule: bind_io_cases)
    case (1 e)
    then show ?thesis using early pending_context_state[OF 1(1)] by simp
  next
    case (2 c s2)
    note c = pending_context_state[OF 2(1)]
    then have "s2 = (db, w)" ..
    from 2(2)[unfolded this] show ?thesis
    proof (cases rule: bind_io_cases)
      case (1 e)
      then show ?thesis using early by (auto simp: query_io_def)
    next
      case (2 paths s3)
      then have paths: "s3 = (db, w)" "list_build_path_nar_objects b db = Inr paths" by auto
      show ?thesis
      proof (cases "paths = []")
        case True
        then have "\<exists>e. r = Inl e \<and> st' = (db, w)" using 2(2) paths(1) by (auto simp: fail_io_def)
        then show ?thesis using early by blast
      next
        case False
        then have "bind_io (project_upstreams pf (ctx_project_slug c)) (\<lambda>upstreams.
            bind_io (project_storage s (ctx_project_slug c)) (\<lambda>target.
            bind_io (for_io (finalize_path pf (ing_client s) b upstreams target) paths) (\<lambda>_.
            on_db (publish_build_to_ref pf now (ctx_project_slug c) (ctx_ref_name c) b)))) (db, w) = (r, st')"
          using 2(2) paths(1) by simp
        then show ?thesis
        proof (cases rule: bind_io_cases)
          case (1 e)
          then show ?thesis using early project_upstreams_state[OF 1(1)] by simp
        next
          case (2 us s4)
          note us = project_upstreams_state[OF 2(1)]
          then have "s4 = (db, w)" "us = selected_in_db pf db (Project (ctx_project_slug c))" by simp_all
          from 2(2)[unfolded this] show ?thesis
          proof (cases rule: bind_io_cases)
            case (1 e)
            then show ?thesis using early project_storage_state[OF 1(1)] by simp
          next
            case (2 target s5)
            obtain i st where target: "target = (i, st)" by (cases target)
            note t = project_storage_state[OF 2(1)[unfolded target]]
            then have "s5 = (db, w)" by simp
            from 2(2)[unfolded this target] show ?thesis
            proof (cases rule: bind_io_cases)
              case (1 e)
              obtain db1 w1 where st': "st' = (db1, w1)" by (cases st')
              from checked[OF b(2) _ _ paths(2) False _ _ 1(1)[unfolded st']] c t 1(2) show ?thesis by (simp add: st')
            next
              case (2 u s6)
              obtain db1 w1 where s6: "s6 = (db1, w1)" by (cases s6)
              from checked[OF b(2) _ _ paths(2) False _ _ 2(1)[unfolded s6]] c t 2(2) show ?thesis
                by (cases st') (simp add: s6)
            qed
          qed
        qed
      qed
    qed
  qed
qed

text \<open>C9 (finalization). A finalization that fails publishes nothing: no ref and no build changes, and
  the rows it wrote only record objects that the storage holds. One that succeeds was for a pending build
  with registered paths, each of whose NARs the storage of the project holds, recorded and linked, or an
  enabled upstream of the project; no storage changes.\<close>

theorem finalize_complete:
  assumes "storage_backends (ing_catalog s) contents key visible ok" "ok w"
    "upstream_service (ing_client s) narinfos held (store_view contents ok)"
    "finalize_build pf now s request (db, w) = (r, db', w')"
  shows "(\<forall>i q. contents i w' q = contents i w q) \<and>
    (\<forall>e. r = Inl e \<longrightarrow> db' = db\<lparr>db_objects := db_objects db', db_path_objects := db_path_objects db'\<rparr>) \<and>
    (\<forall>u. r = Inr u \<longrightarrow> (\<exists>b c paths i. uuid_parse pf (fbr_build_id request) = Some b \<and>
       get_build_context pf b db = Inr (Some c) \<and> ctx_status c = Pending \<and>
       list_build_path_nar_objects b db = Inr paths \<and> paths \<noteq> [] \<and>
       get_project_storage_id (ctx_project_slug c) db = Inr i \<and>
       (\<forall>(h, p)\<in>set paths. contents i w' p \<noteq> None \<and> recorded i p db' \<and> linked h p db' \<or>
         (\<exists>u\<in>set (selected_in_db pf db (Project (ctx_project_slug c))). held u p \<noteq> None))))"
  using assms(4)
proof (cases rule: finalize_build_runs)
  case (early e)
  then show ?thesis by simp
next
  case (checked b c paths i st r1 db1 w1)
  note f = storage_backends.finalize_paths[OF assms(1,3) checked(7,8) assms(2)]
  then have same: "contents i w1 q = contents i w q" for i q by (metis snd_conv)
  have frame: "db1 = db\<lparr>db_objects := db_objects db1, db_path_objects := db_path_objects db1\<rparr>"
    using f by (simp add: rows_grow_def)
  from checked(9) show ?thesis
  proof (elim disjE exE conjE)
    fix e assume "r1 = Inl e" "r = Inl e" "(db', w') = (db1, w1)"
    then show ?thesis using same frame by simp
  next
    fix db2 assume p: "r1 = Inr ()" "publish_build_to_ref pf now (ctx_project_slug c) (ctx_ref_name c) b db1 = (r, db2)"
      "(db', w') = (db2, w1)"
    show ?thesis
    proof (cases r)
      case (Inl e)
      then have "db2 = db1" using p(2) by (auto simp: publish_build_to_ref_def io_defs split: sum.splits)
      then show ?thesis using Inl p(3) same frame by simp
    next
      case (Inr u)
      from p(2)[unfolded Inr] have "db2 = db1\<lparr>db_refs := db_refs db2, db_builds := db_builds db2\<rparr>"
        by (cases u) (auto elim: publish_Inr)
      then have t: "db_objects db' = db_objects db1" "db_path_objects db' = db_path_objects db1"
        using p(3) by (metis (no_types, lifting) Pair_inject database.select_convs(7) database.surjective database.update_convs(8) database.update_convs(10), metis (no_types, lifting) Pair_inject database.select_convs(11) database.surjective database.update_convs(8) database.update_convs(10))
      have "recorded i p db' = recorded i p db1" "linked h p db' = linked h p db1" for i h p
        by (simp_all add: recorded_def linked_def t)
      then show ?thesis using f p(1,3) Inr same checked(1-6) by auto
    qed
  qed
qed

lemma listed_build_path:
  assumes "list_build_path_nar_objects b db = Inr paths" "(h, p) \<in> set paths"
  shows "\<exists>bp\<in>set (db_build_paths db). bp_build bp = b \<and> bp_hash bp = hash_str h \<and>
    (\<exists>row\<in>set (db_path_infos db). pirow_hash row = hash_str h \<and> pirow_url row = p)"
proof -
  from collect_res_from[OF assms(1)[unfolded list_build_path_nar_objects_def] assms(2)]
  obtain t where t: "(t, p) \<in> set (build_path_rows b db)" "from_hash t = Inr h" by auto
  then have "hash_str h = t" by (auto simp: from_hash_def split: if_splits)
  then show ?thesis using t(1) by (fastforce simp: build_path_rows_def split: if_splits)
qed

context storage_backends
begin

text \<open>A visible object whose row names a storage that holds it is never reported missing.\<close>

lemma visible_found:
  assumes "get_visible pf cat p view (db, w) = (Inr x, s')" "ok w" "storage_object_visible_in_view view p db"
    "recorded i p db" "catalog_storage cat i = Inr st" "storage_id_new (storage_id_str i) = Inr i" "contents i w p \<noteq> None"
  shows "x \<noteq> None"
proof
  assume "x = None"
  obtain db' w' where s': "s' = (db', w')" by (cases s')
  from visible_provided[OF assms(2) assms(1)[unfolded s']] \<open>x = None\<close>
  have none: "stored_objects pf cat contents db w view p = {}" by simp
  have "is_ok (list_storage_objects pf p db)"
    using assms(1,3) by (cases "list_storage_objects pf p db"; cases view)
      (auto simp: get_visible_def get_unscoped_def preferred_storage_id_def io_defs on_db_def is_ok_iff
        split: prod.splits sum.splits)
  then obtain rs where rs: "list_storage_objects pf p db = Inr rs" by (auto simp: is_ok_iff)
  obtain so where so: "so \<in> set (db_objects db)" "so_key so = (storage_id_str i, p)" "so_deleted_at so = None"
    using assms(4) by (auto simp: recorded_def)
  then have "so \<in> set (order_by so_storage_id (filter (\<lambda>r. so_object_path r = p \<and> so_deleted_at r = None) (db_objects db)))"
    by (simp add: so_key_def)
  from collect_res_mem[OF rs[unfolded list_storage_objects_def] this]
  obtain rec where rec: "rec \<in> set rs" "storage_object_into_record pf so = Inr rec" by blast
  then have "sor_storage_id rec = i"
    using so(2) assms(6) by (auto simp: storage_object_into_record_def so_key_def)
  then have "(sor_metadata rec, the (contents i w p)) \<in> stored_objects pf cat contents db w view p"
    using rs rec(1) assms(3,5,7) by (auto simp: stored_objects_def)
  then show False using none by simp
qed

end

lemma first_held_None: "first_held has us = None \<longleftrightarrow> (\<forall>u\<in>set us. has u = None)"
  by (induction us) (auto split: option.splits)

lemma finalized:
  assumes "storage_backends (ing_catalog s) contents key visible ok" "ok w"
    "upstream_service (ing_client s) narinfos held (store_view contents ok)"
    "finalize_build pf now s request (db, w) = (Inr u, db', w')"
  obtains b c paths i st db1 where
    "uuid_parse pf (fbr_build_id request) = Some b" "get_build_context pf b db = Inr (Some c)"
    "list_build_path_nar_objects b db = Inr paths" "get_project_storage_id (ctx_project_slug c) db = Inr i"
    "catalog_storage (ing_catalog s) i = Inr st" "rows_grow db db1"
    "publish_build_to_ref pf now (ctx_project_slug c) (ctx_ref_name c) b db1 = (Inr (), db')"
    "ok w'" "\<And>j q. contents j w' q = contents j w q"
    "\<And>h p. (h, p) \<in> set paths \<Longrightarrow> contents i w p \<noteq> None \<and> recorded i p db1 \<and> linked h p db1 \<or>
       (\<exists>u\<in>set (selected_in_db pf db (Project (ctx_project_slug c))). held u p \<noteq> None)"
  using assms(4)
proof (cases rule: finalize_build_runs)
  case (checked b c paths i st r1 db1 w1)
  note f = storage_backends.finalize_paths[OF assms(1,3) checked(7,8) assms(2)]
  from checked(9) have p: "r1 = Inr ()" "publish_build_to_ref pf now (ctx_project_slug c) (ctx_ref_name c) b db1 = (Inr (), db')"
    "w' = w1" by auto
  show ?thesis
  proof (rule that[OF checked(1,2,4,6,7) _ p(2)])
    show "rows_grow db db1" "ok w'" using f assms(2) p(3) by simp_all
    show "contents j w' q = contents j w q" for j q using f p(3) by (metis snd_conv)
    show "contents i w q \<noteq> None \<and> recorded i q db1 \<and> linked h q db1 \<or>
       (\<exists>u\<in>set (selected_in_db pf db (Project (ctx_project_slug c))). held u q \<noteq> None)" if "(h, q) \<in> set paths" for h q
      using f p(1) that by blast
  qed
qed simp

lemma published_frame:
  assumes "publish_build_to_ref pf now project name b db = (Inr (), db')"
  shows "db_objects db' = db_objects db" "db_path_objects db' = db_path_objects db" "db_path_infos db' = db_path_infos db"
    "db_projects db' = db_projects db" "db_upstreams db' = db_upstreams db" "db_project_upstreams db' = db_project_upstreams db"
    "db_build_paths db' = db_build_paths db"
proof -
  from assms obtain "db' = db\<lparr>db_refs := db_refs db', db_builds := db_builds db'\<rparr>" by (rule publish_Inr)
  from arg_cong[OF this, of db_objects] arg_cong[OF this, of db_path_objects] arg_cong[OF this, of db_path_infos]
    arg_cong[OF this, of db_projects] arg_cong[OF this, of db_upstreams] arg_cong[OF this, of db_project_upstreams]
    arg_cong[OF this, of db_build_paths]
  show "db_objects db' = db_objects db" "db_path_objects db' = db_path_objects db" "db_path_infos db' = db_path_infos db"
    "db_projects db' = db_projects db" "db_upstreams db' = db_upstreams db" "db_project_upstreams db' = db_project_upstreams db"
    "db_build_paths db' = db_build_paths db" by simp_all
qed

lemma rows_grow_frame:
  assumes "rows_grow db db'"
  shows "db_path_infos db' = db_path_infos db" "db_projects db' = db_projects db" "db_upstreams db' = db_upstreams db"
    "db_project_upstreams db' = db_project_upstreams db" "db_build_paths db' = db_build_paths db"
    "db_refs db' = db_refs db" "db_builds db' = db_builds db"
proof -
  have *: "db' = db\<lparr>db_objects := db_objects db', db_path_objects := db_path_objects db'\<rparr>" using assms by (simp add: rows_grow_def)
  from arg_cong[OF *, of db_path_infos] arg_cong[OF *, of db_projects] arg_cong[OF *, of db_upstreams]
    arg_cong[OF *, of db_project_upstreams] arg_cong[OF *, of db_build_paths] arg_cong[OF *, of db_refs] arg_cong[OF *, of db_builds]
  show "db_path_infos db' = db_path_infos db" "db_projects db' = db_projects db" "db_upstreams db' = db_upstreams db"
    "db_project_upstreams db' = db_project_upstreams db" "db_build_paths db' = db_build_paths db"
    "db_refs db' = db_refs db" "db_builds db' = db_builds db" by simp_all
qed

lemma upstream_service_less:
  assumes "upstream_service cl n h k"
  shows "upstream_service cl n h (\<lambda>w. f (k w))"
proof (rule upstream_service.intro, goal_cases)
  case (1 u p w r w')
  then show ?case using upstream_service.fetch_text[OF assms 1] by simp
next
  case (2 u p w r w')
  then show ?case using upstream_service.head_held[OF assms 2] by simp
next
  case (3 u p w r w')
  then show ?case using upstream_service.get_held[OF assms 3] by simp
qed

lemma get_object_None:
  "get_object s p view st = (Inr None, st') \<Longrightarrow> \<exists>st1. rs_provider s p view st = (Inr None, st1)"
  unfolding get_object_def by (erule bind_io_cases) (auto simp: return_io_def split: option.splits)

lemma get_project_narinfo_None:
  assumes "get_project_narinfo slug h db = Inr None" "row \<in> set (db_path_infos db)" "pirow_hash row = hash_str h"
  shows "\<not> visible_in_project db slug (hash_str h)"
  using assms by (force simp: get_project_narinfo_def inflate_optional_def fetch_optional_None)

text \<open>C7 (a published build is served). After a finalization the project view never answers that it
  does not have a path of the build: for its narinfo, and for its NAR, a successful request delivers.\<close>

theorem finalized_served:
  assumes "storage_backends (ing_catalog s) contents key visible ok" "ok w"
    "upstream_service (ing_client s) narinfos held (store_view contents ok)"
    "finalize_build pf now s request (db, w) = (Inr u, db', w')" "uuid_parse pf (fbr_build_id request) = Some b"
    "get_build_context pf b db = Inr (Some c)" "list_build_path_nar_objects b db = Inr paths" "(h, p) \<in> set paths"
  shows "(get_object (server_reader pf (ing_catalog s) (ing_client s) d k kek) p (Project (ctx_project_slug c)) (db', w') = (Inr x, st1)
       \<longrightarrow> x \<noteq> None) \<and>
    (render_narinfo pf cr b64 (server_reader pf (ing_catalog s) (ing_client s) d k kek) h (Project (ctx_project_slug c)) (db', w')
       = (Inr y, st2) \<longrightarrow> y \<noteq> None)"
  using assms(1-4)
proof (rule finalized, goal_cases)
  case (1 b2 c2 paths2 i st db1)
  let ?slug = "ctx_project_slug c" and ?s = "server_reader pf (ing_catalog s) (ing_client s) d k kek"
  have eq: "c2 = c" "paths2 = paths" "b2 = b" using 1(1-3) assms(5-7) by simp_all
  note pub = 1(7)[unfolded eq]
  from pub obtain pr where pr: "find_project ?slug db1 = Some pr" by (rule publish_Inr)
  have frame: "db_path_infos db' = db_path_infos db" "db_projects db' = db_projects db" "db_upstreams db' = db_upstreams db"
    "db_project_upstreams db' = db_project_upstreams db" "db_build_paths db' = db_build_paths db"
    using published_frame[OF pub] rows_grow_frame[OF 1(6)] by simp_all
  obtain bp row where bp: "bp \<in> set (db_build_paths db)" "bp_build bp = b" "bp_hash bp = hash_str h"
    and row: "row \<in> set (db_path_infos db)" "pirow_hash row = hash_str h" "pirow_url row = p"
    using listed_build_path[OF assms(7,8)] by blast
  have vis: "visible_in_project db' ?slug (hash_str h)"
    using published_ref(1)[OF pub pr] find_project_Some[OF pr] bp published_frame(4,7)[OF pub] frame(5)
    unfolding visible_in_project_iff by metis
  have sel: "selected_in_db pf db' (Project ?slug) = selected_in_db pf db (Project ?slug)"
    unfolding selected_in_db_def depot_view.case list_enabled_upstreams_for_project_def project_upstream_rows_def frame ..
  have upc: "upstream_service (ing_client s) narinfos held (\<lambda>w j. contents j w)"
    using upstream_service_less[OF assms(3), of snd] by simp
  have "x \<noteq> None" if run: "get_object ?s p (Project ?slug) (db', w') = (Inr x, st1)"
  proof
    assume x: "x = None"
    obtain db3 w3 where st1: "st1 = (db3, w3)" by (cases st1)
    from reader.get_object_delivers[OF server_reader_contract[OF assms(1) upc] 1(8) run[unfolded st1]] x
    have none: "first_held (\<lambda>u. map_option snd (held u p)) (selected_in_db pf db (Project ?slug)) = None"
      unfolding sel by simp
    then have stored: "contents i w p \<noteq> None" "recorded i p db1" "linked h p db1"
      using 1(10)[unfolded eq, OF assms(8)] unfolding first_held_None by auto
    obtain st0 where "get_visible pf (ing_catalog s) p (Project ?slug) (db', w') = (Inr None, st0)"
      using get_object_None[OF run[unfolded x]] by (auto simp: server_reader_def)
    moreover have "storage_object_visible_in_view (Project ?slug) p db'"
      using stored(3) vis published_frame(2)[OF pub] unfolding storage_object_visible_in_view_def depot_view.case list_ex_iff linked_def
      by metis
    moreover have "recorded i p db'" using stored(2) published_frame(1)[OF pub] by (simp add: recorded_def)
    moreover have "storage_id_new (storage_id_str i) = Inr i"
      using 1(4) by (auto simp: get_project_storage_id_def storage_id_new_Inr)
    moreover have "contents i w' p \<noteq> None" using stored(1) 1(9) by simp
    ultimately show False using storage_backends.visible_found[OF assms(1) _ 1(8) _ _ 1(5)] by blast
  qed
  moreover have "y \<noteq> None" if run: "render_narinfo pf cr b64 ?s h (Project ?slug) (db', w') = (Inr y, st2)"
  proof -
    have "get_project_narinfo ?slug h db' \<noteq> Inr None"
      using get_project_narinfo_None[of ?slug h db' row] vis row frame(1) by auto
    then show ?thesis using run
      by (cases "get_project_narinfo ?slug h db'")
        (auto simp: render_narinfo_def server_reader_def db_resolve_narinfo_def on_db_def io_defs split: prod.splits sum.splits option.splits)
  qed
  ultimately show ?case by blast
qed

subsection \<open>Uploads\<close>

lemma validate_upload_target_state:
  assumes "validate_upload_target pf rx s b h p (db, w) = (r, s')"
  shows "s' = (db, w) \<and> (\<forall>i st. r = Inr (i, st) \<longrightarrow> is_nar_path rx p \<and> catalog_storage (ing_catalog s) i = Inr st \<and>
    (\<exists>c n. get_build_context pf b db = Inr (Some c) \<and> ctx_status c = Pending \<and>
      get_build_path_narinfo b h db = Inr (Some n) \<and> ni_url n = p \<and> get_project_storage_id (ctx_project_slug c) db = Inr i))"
  using assms unfolding validate_upload_target_def
proof (cases rule: bind_io_cases)
  case (1 e)
  then show ?thesis using pending_context_state[OF 1(1)] by simp
next
  case (2 c s1)
  note c = pending_context_state[OF 2(1)]
  then have "s1 = (db, w)" by simp
  from 2(2)[unfolded this] show ?thesis
  proof (cases rule: bind_io_cases)
    case (1 e)
    then show ?thesis by (auto simp: pure_io_def)
  next
    case (2 u s2)
    then have nar: "s2 = (db, w)" "is_nar_path rx p" by (auto simp: is_nar_path_def split: option.splits depot_object_path.splits)
    from 2(2)[unfolded nar(1)] show ?thesis
    proof (cases rule: bind_io_cases)
      case (1 e)
      then show ?thesis by (auto simp: query_io_def)
    next
      case (2 found s3)
      then have f: "s3 = (db, w)" "get_build_path_narinfo b h db = Inr found" by auto
      show ?thesis
      proof (cases found)
        case None
        then show ?thesis using 2(2) f(1) by (auto simp: fail_io_def)
      next
        case (Some n)
        show ?thesis
        proof (cases "p = ni_url n")
          case True
          then have "project_storage s (ctx_project_slug c) (db, w) = (r, s')" using 2(2) Some f(1) by simp
          from project_storage_state[OF this] show ?thesis using c f(2) Some nar(2) True by simp
        next
          case False
          then show ?thesis using 2(2) Some f(1) by (auto simp: fail_io_def)
        qed
      qed
    qed
  qed
qed

text \<open>Only the length of the object can keep its rows from being written.\<close>

lemma record_object_known:
  assumes "record_object pf i h p m (db, w) = (Inl e, db', w')" "has_key pirow_hash (hash_str h) (db_path_infos db)"
  shows "db' = db"
  using assms(1) unfolding record_object_def
proof (cases rule: bind_io_cases)
  case (1 e)
  then show ?thesis by (auto simp: upsert_storage_object_def tx_io_def split: sum.splits)
next
  case (2 u s1)
  then obtain db1 where s1: "s1 = (db1, w)" "upsert_storage_object pf i p m db = (Inr u, db1)" by auto
  have "db_path_infos db1 = db_path_infos db" using rows_grow_frame(1) upsert_object_rows[OF s1(2)] by blast
  then show ?thesis using 2(2) assms(2) s1(1) by (auto simp: link_path_object_def tx_io_def foreign_key_def)
qed

lemma persist_or_delete_cases:
  assumes "persist_or_delete pf (i, st) h p m (db, w) = (r, db', w')" "has_key pirow_hash (hash_str h) (db_path_infos db)"
  obtains (kept) "r = Inr ()" "w' = w" "rows_grow db db'" "recorded i p db'" "linked h p db'"
    | (deleted) e where "r = Inl e" "db' = db" "w' = snd (ds_delete st p w)"
proof (cases "record_object pf i h p m (db, w)")
  case (fields r1 db1 w1)
  note rec = record_object_rows[OF fields]
  show ?thesis
  proof (cases r1)
    case (Inl e)
    then have "db1 = db" using record_object_known[of pf i h p m db w e] fields assms(2) by simp
    then show ?thesis using assms(1) Inl fields rec deleted
      by (auto simp: persist_or_delete_def on_storage_def split: prod.splits)
  next
    case (Inr u)
    then show ?thesis using assms(1) fields rec kept by (auto simp: persist_or_delete_def)
  qed
qed

lemma build_path_known: "get_build_path_narinfo b h db = Inr (Some n) \<Longrightarrow> has_key pirow_hash (hash_str h) (db_path_infos db)"
  by (auto simp: get_build_path_narinfo_def inflate_optional_def has_key_iff list_ex_iff dest!: fetch_optional_Some)

context storage_backends
begin

lemma stream_backend:
  assumes "catalog_storage cat i = Inr st" "ds_put_stream st p body w = (r, w')" "ok w" "visible p" "visible q"
  shows "ok w' \<and> (\<forall>j. contents j w' q = contents j w q \<or>
      j = i \<and> key i q = key i p \<and> rd_error body = None \<and> contents i w' q = Some (rd_bytes body)) \<and>
    (is_ok r \<longrightarrow> rd_error body = None \<and> (key i q = key i p \<longrightarrow> contents i w' q = Some (rd_bytes body)))"
proof -
  note d = object_storage.stream_ok[OF backend[OF assms(1)] assms(3,4) assms(5,2)]
  have "storage_call st w w'" using call_stream[of st w p body] assms(2) by simp
  from other_backend[OF assms(1) this assms(3)] have o: "j \<noteq> i \<Longrightarrow> contents j w' q = contents j w q" for j by blast
  have "rd_error body \<noteq> None \<Longrightarrow> contents i w' q = contents i w q" "is_ok r \<Longrightarrow> rd_error body = None"
    using d by (auto simp: is_ok_iff)
  then have "contents i w' q = contents i w q \<or> key i q = key i p \<and> rd_error body = None \<and> contents i w' q = Some (rd_bytes body)"
    "is_ok r \<Longrightarrow> rd_error body = None \<and> (key i q = key i p \<longrightarrow> contents i w' q = Some (rd_bytes body))"
    using d by (auto simp: written_def split: if_splits)
  then show ?thesis using d o by metis
qed

end


end
