(* ===== verification/Register.thy ===== *)
theory Register
  imports Ingest
begin

text \<open>
  What \<^verbatim>\<open>register_paths\<close> and \<^verbatim>\<open>plan_required_uploads\<close> of \<^verbatim>\<open>crates/depot-ingest\<close> do, and the instances of
  the properties of \<open>Ingest\<close>.
\<close>

subsection \<open>Registering paths\<close>

definition registered :: "uuid \<Rightarrow> store_path_hash \<Rightarrow> database \<Rightarrow> bool" where
  "registered b h db \<longleftrightarrow> (\<exists>bp\<in>set (db_build_paths db). bp_build bp = b \<and> bp_hash bp = hash_str h)"

text \<open>Registering touches the path infos and the paths of builds only.\<close>

definition paths_grow :: "database \<Rightarrow> database \<Rightarrow> bool" where
  "paths_grow db db' \<longleftrightarrow> (\<exists>infos refs sigs paths.
     db' = db\<lparr>db_path_infos := infos, db_references := refs, db_signatures := sigs, db_build_paths := paths\<rparr> \<and>
     set (db_build_paths db) \<subseteq> set paths \<and> set (db_path_infos db) \<subseteq> set infos)"

lemma paths_grow_refl: "paths_grow db db"
  unfolding paths_grow_def
  by (intro exI[of _ "db_path_infos db"] exI[of _ "db_references db"] exI[of _ "db_signatures db"] exI[of _ "db_build_paths db"]) simp

lemma paths_grow_trans:
  assumes "paths_grow a b" "paths_grow b c"
  shows "paths_grow a c"
proof -
  obtain i r s p where b: "b = a\<lparr>db_path_infos := i, db_references := r, db_signatures := s, db_build_paths := p\<rparr>"
    "set (db_build_paths a) \<subseteq> set p" "set (db_path_infos a) \<subseteq> set i" using assms(1) unfolding paths_grow_def by blast
  obtain i' r' s' p' where c: "c = b\<lparr>db_path_infos := i', db_references := r', db_signatures := s', db_build_paths := p'\<rparr>"
    "set (db_build_paths b) \<subseteq> set p'" "set (db_path_infos b) \<subseteq> set i'" using assms(2) unfolding paths_grow_def by blast
  have "c = a\<lparr>db_path_infos := i', db_references := r', db_signatures := s', db_build_paths := p'\<rparr>"
    using c(1) unfolding b(1) by simp
  moreover have "set (db_build_paths a) \<subseteq> set p'" "set (db_path_infos a) \<subseteq> set i'" using b c(2,3) by auto
  ultimately show ?thesis unfolding paths_grow_def by blast
qed

lemma paths_grow_frame:
  assumes "paths_grow db db'"
  shows "db_projects db' = db_projects db" "db_upstreams db' = db_upstreams db"
    "db_project_upstreams db' = db_project_upstreams db" "db_builds db' = db_builds db" "db_refs db' = db_refs db"
    "set (db_build_paths db) \<subseteq> set (db_build_paths db')"
proof -
  obtain i r s p where b: "db' = db\<lparr>db_path_infos := i, db_references := r, db_signatures := s, db_build_paths := p\<rparr>"
    "set (db_build_paths db) \<subseteq> set p" using assms unfolding paths_grow_def by blast
  show "db_projects db' = db_projects db" "db_upstreams db' = db_upstreams db"
    "db_project_upstreams db' = db_project_upstreams db" "db_builds db' = db_builds db" "db_refs db' = db_refs db"
    "set (db_build_paths db) \<subseteq> set (db_build_paths db')" using b by simp_all
qed

lemma upsert_path_grow: "upsert_path_info b64 n db = (r, db') \<Longrightarrow> paths_grow db db'"
proof (cases r)
  case (Inl e)
  assume "upsert_path_info b64 n db = (r, db')"
  then have "db' = db" using Inl by (auto simp: upsert_path_info_def tx_io_def split: sum.splits)
  then show ?thesis using paths_grow_refl by simp
next
  case (Inr u)
  assume "upsert_path_info b64 n db = (r, db')"
  then have "upsert_path_info b64 n db = (Inr (), db')" using Inr by simp
  then show ?thesis
  proof (cases rule: upsert_cases)
    case known
    then show ?thesis using paths_grow_refl by simp
  next
    case (new row references signatures)
    show ?thesis unfolding paths_grow_def
      by (rule exI[of _ "db_path_infos db @ [row]"], rule exI[of _ references], rule exI[of _ signatures],
        rule exI[of _ "db_build_paths db"]) (auto simp: new(6))
  qed
qed

lemma attach_path_grow:
  assumes "attach_build_path b h db = (r, db')"
  shows "paths_grow db db' \<and> (is_ok r \<longrightarrow> registered b h db')"
proof (cases r)
  case (Inl e)
  then have "db' = db" using assms by (auto simp: attach_build_path_def tx_io_def split: sum.splits)
  then show ?thesis using Inl paths_grow_refl by simp
next
  case (Inr u)
  let ?bp = "\<lparr>bp_build = b, bp_hash = hash_str h\<rparr>"
  have db': "db' = db\<lparr>db_build_paths := insert_ignore bp_key ?bp (db_build_paths db)\<rparr>"
    using assms Inr by (auto simp: attach_build_path_def)
  then have "paths_grow db db'" unfolding paths_grow_def
    by (intro exI[of _ "db_path_infos db"] exI[of _ "db_references db"] exI[of _ "db_signatures db"]
        exI[of _ "insert_ignore bp_key ?bp (db_build_paths db)"]) (auto simp: insert_ignore_def)
  moreover have "bp_key ?bp \<in> bp_key ` set (db_build_paths db')"
    using insert_ignore_key[of bp_key ?bp "db_build_paths db"] by (simp add: db')
  then have "registered b h db'" by (auto simp: registered_def bp_key_def)
  ultimately show ?thesis by simp
qed

lemma register_path_grow:
  assumes "register_path rx b64 d b v (db, w) = (r, db', w')"
  shows "w' = w \<and> paths_grow db db' \<and> (\<forall>n. r = Inr n \<longrightarrow> n = narinfo_of_payload v \<and>
    (\<exists>h. validate_publish_narinfo rx b64 d n = Inr h \<and> registered b h db'))"
  using assms unfolding register_path_def Let_def
proof (cases rule: bind_io_cases)
  case (1 e)
  then show ?thesis using paths_grow_refl by (auto simp: pure_io_def)
next
  case (2 h s1)
  then have h: "s1 = (db, w)" "validate_publish_narinfo rx b64 d (narinfo_of_payload v) = Inr h" by auto
  from 2(2)[unfolded h(1)] show ?thesis
  proof (cases rule: bind_io_cases)
    case (1 e)
    then show ?thesis using upsert_path_grow by auto
  next
    case (2 u s2)
    then obtain db2 where s2: "s2 = (db2, w)" "upsert_path_info b64 (narinfo_of_payload v) db = (Inr u, db2)" by auto
    note g = upsert_path_grow[OF s2(2)]
    from 2(2)[unfolded s2(1)] show ?thesis
    proof (cases rule: bind_io_cases)
      case (1 e)
      then show ?thesis using attach_path_grow paths_grow_trans[OF g] by auto
    next
      case (2 u' s3)
      then obtain db3 where s3: "s3 = (db3, w)" "attach_build_path b h db2 = (Inr u', db3)" by auto
      then show ?thesis using attach_path_grow[OF s3(2)] paths_grow_trans[OF g] 2(2) h(2) by (auto simp: return_io_def)
    qed
  qed
qed

lemma register_paths_grow:
  assumes "map_io (register_path rx b64 d b) vs (db, w) = (r, db', w')"
  shows "w' = w \<and> paths_grow db db' \<and> (\<forall>ns. r = Inr ns \<longrightarrow> ns = map narinfo_of_payload vs \<and>
    (\<forall>v\<in>set vs. \<exists>h. validate_publish_narinfo rx b64 d (narinfo_of_payload v) = Inr h \<and> registered b h db'))"
  using assms
proof (induction vs arbitrary: db w r)
  case (Cons v vs)
  from Cons.prems show ?case unfolding map_io.simps
  proof (cases rule: bind_io_cases)
    case (1 e)
    then show ?thesis using register_path_grow[OF 1(1)] by simp
  next
    case (2 n s1)
    obtain db1 w1 where s1: "s1 = (db1, w1)" by (cases s1)
    note a = register_path_grow[OF 2(1)[unfolded s1]]
    from 2(2)[unfolded s1] show ?thesis
    proof (cases rule: bind_io_cases)
      case (1 e)
      then show ?thesis using Cons.IH[OF 1(1)] a paths_grow_trans by blast
    next
      case (2 ns s2)
      then have s2: "s2 = (db', w')" "r = Inr (n # ns)" by (auto simp: return_io_def)
      note ih = Cons.IH[OF 2(1)[unfolded s2(1)]]
      have "registered b h db'" if "registered b h db1" for h
        using that paths_grow_frame(6) ih by (auto simp: registered_def)
      then show ?thesis using a ih paths_grow_trans s2(2) by fastforce
    qed
  qed
qed (auto simp: return_io_def paths_grow_refl)

subsection \<open>What is planned\<close>

text \<open>An upload is needed for a NAR that neither the storage nor an upstream holds.\<close>

definition upload_needed ::
    "(string \<Rightarrow> bytes option) \<Rightarrow> (upstream_cache \<Rightarrow> string \<Rightarrow> 'b option) \<Rightarrow> upstream_cache list \<Rightarrow> string \<Rightarrow> bool" where
  "upload_needed stored held us p \<longleftrightarrow> stored p = None \<and> (\<forall>u\<in>set us. held u p = None)"

context storage_backends
begin

lemma plan_upload_exact:
  assumes up: "upstream_service cl narinfos held (store_view contents ok)" and st: "catalog_storage cat i = Inr st"
    and "plan_upload rx st cl us n w = (r, w')" "ok w"
  shows "store_view contents ok w' = store_view contents ok w \<and> (\<forall>ps. r = Inr ps \<longrightarrow>
    (\<exists>h. parse_from_store_path (ni_store_path n) = Inr h \<and>
      ps = (if is_nar_path rx (ni_url n) \<and> upload_needed (contents i w) held us (ni_url n)
        then [\<lparr>plu_store_path_hash = h, plu_object_path = ni_url n, plu_content_type = octet_stream\<rparr>] else [])))"
  using assms(3) unfolding plan_upload_def
proof (cases rule: bind_io_cases)
  case (1 e)
  then show ?thesis by (auto simp: pure_io_def)
next
  case (2 h w1)
  then have h: "w1 = w" "parse_from_store_path (ni_store_path n) = Inr h" by auto
  show ?thesis
  proof (cases "is_nar_path rx (ni_url n)")
    case False
    then show ?thesis using 2(2) h by (auto simp: return_io_def)
  next
    case True
    from 2(2)[unfolded h(1)] True have "bind_io (ds_head st (ni_url n)) (\<lambda>found.
       if found \<noteq> None then return_io []
       else bind_io (object_exists_upstream cl us (ni_url n)) (\<lambda>exists_upstream.
       return_io (if exists_upstream then []
         else [\<lparr>plu_store_path_hash = h, plu_object_path = ni_url n, plu_content_type = octet_stream\<rparr>]))) w = (r, w')" by simp
    then show ?thesis
    proof (cases rule: bind_io_cases)
      case (1 e)
      then show ?thesis using head_backend[OF st 1(1) assms(4)] by simp
    next
      case (2 found w2)
      note hd = head_backend[OF st 2(1) assms(4)]
      show ?thesis
      proof (cases found)
        case (Some m)
        then show ?thesis using 2(2) hd h(2) by (auto simp: return_io_def upload_needed_def)
      next
        case None
        with 2(2) have "bind_io (object_exists_upstream cl us (ni_url n)) (\<lambda>exists_upstream.
           return_io (if exists_upstream then []
             else [\<lparr>plu_store_path_hash = h, plu_object_path = ni_url n, plu_content_type = octet_stream\<rparr>])) w2 = (r, w')" by simp
        then show ?thesis
        proof (cases rule: bind_io_cases)
          case (1 e)
          then show ?thesis using object_exists_held[OF up 1(1)] hd by simp
        next
          case (2 b w3)
          note e = object_exists_held[OF up 2(1)]
          then have b: "b = (\<exists>u\<in>set us. held u (ni_url n) \<noteq> None)" by blast
          have "w3 = w'" "r = Inr (if b then [] else [\<lparr>plu_store_path_hash = h, plu_object_path = ni_url n,
              plu_content_type = octet_stream\<rparr>])" using 2(2) by (auto simp: return_io_def)
          moreover have "upload_needed (contents i w) held us (ni_url n) = (\<not> b)" using hd None b by (auto simp: upload_needed_def)
          ultimately show ?thesis using e hd h(2) True by simp
        qed
      qed
    qed
  qed
qed

text \<open>The planner lists exactly the missing NARs, in the order of the narinfos.\<close>

lemma plan_exact:
  assumes up: "upstream_service cl narinfos held (store_view contents ok)" and st: "catalog_storage cat i = Inr st"
    and "map_io (plan_upload rx st cl us) ns w = (r, w')" "ok w"
  shows "store_view contents ok w' = store_view contents ok w \<and> (\<forall>pss. r = Inr pss \<longrightarrow>
    concat pss = map (\<lambda>n. \<lparr>plu_store_path_hash = the (res_opt (parse_from_store_path (ni_store_path n))),
        plu_object_path = ni_url n, plu_content_type = octet_stream\<rparr>)
      (filter (\<lambda>n. is_nar_path rx (ni_url n) \<and> upload_needed (contents i w) held us (ni_url n)) ns))"
  using assms(3,4)
proof (induction ns arbitrary: w r)
  case (Cons n ns)
  from Cons.prems(1) show ?case unfolding map_io.simps
  proof (cases rule: bind_io_cases)
    case (1 e)
    then show ?thesis using plan_upload_exact[OF up st 1(1) Cons.prems(2)] by simp
  next
    case (2 ps w1)
    note a = plan_upload_exact[OF up st 2(1) Cons.prems(2)]
    then have w1: "ok w1" "contents i w1 = contents i w" using Cons.prems(2) by (auto dest: fun_cong)
    from 2(2) show ?thesis
    proof (cases rule: bind_io_cases)
      case (1 e)
      then show ?thesis using Cons.IH[OF 1(1) w1(1)] a by simp
    next
      case (2 pss w2)
      then have r: "w2 = w'" "r = Inr (ps # pss)" by (auto simp: return_io_def)
      note ih = Cons.IH[OF 2(1)[unfolded r(1)] w1(1)]
      have "concat pss = map (\<lambda>n. \<lparr>plu_store_path_hash = the (res_opt (parse_from_store_path (ni_store_path n))),
          plu_object_path = ni_url n, plu_content_type = octet_stream\<rparr>)
        (filter (\<lambda>n. is_nar_path rx (ni_url n) \<and> upload_needed (contents i w) held us (ni_url n)) ns)"
        using ih unfolding w1(2) by simp
      moreover obtain h where "parse_from_store_path (ni_store_path n) = Inr h"
        "ps = (if is_nar_path rx (ni_url n) \<and> upload_needed (contents i w) held us (ni_url n)
          then [\<lparr>plu_store_path_hash = h, plu_object_path = ni_url n, plu_content_type = octet_stream\<rparr>] else [])"
        using a by blast
      ultimately show ?thesis using a ih r by simp
    qed
  qed
qed (simp add: return_io_def)

lemma link_stored_rows:
  assumes st: "catalog_storage cat i = Inr st" and "link_stored pf rx i st n (db, w) = (r, db', w')" "ok w"
  shows "store_view contents ok w' = store_view contents ok w \<and> rows_grow db db' \<and> (\<forall>u. r = Inr u \<longrightarrow>
    is_nar_path rx (ni_url n) \<longrightarrow> contents i w (ni_url n) \<noteq> None \<longrightarrow>
    recorded i (ni_url n) db' \<and> (\<forall>h. parse_from_store_path (ni_store_path n) = Inr h \<longrightarrow> linked h (ni_url n) db'))"
  using assms(2) unfolding link_stored_def
proof (cases rule: bind_io_cases)
  case (1 e)
  then show ?thesis using rows_grow_refl by (auto simp: pure_io_def)
next
  case (2 h s1)
  then have h: "s1 = (db, w)" "parse_from_store_path (ni_store_path n) = Inr h" by auto
  show ?thesis
  proof (cases "is_nar_path rx (ni_url n)")
    case False
    then show ?thesis using 2(2) h rows_grow_refl by (auto simp: return_io_def)
  next
    case True
    from 2(2)[unfolded h(1)] True have "bind_io (on_storage (ds_head st (ni_url n))) (\<lambda>found.
       case found of None \<Rightarrow> return_io () | Some m \<Rightarrow> record_object pf i h (ni_url n) m) (db, w) = (r, db', w')" by simp
    then show ?thesis
    proof (cases rule: bind_io_cases)
      case (1 e)
      then show ?thesis using head_backend[OF st _ assms(3)] rows_grow_refl by auto
    next
      case (2 found s2)
      then obtain w2 where s2: "s2 = (db, w2)" "ds_head st (ni_url n) w = (Inr found, w2)" by auto
      note hd = head_backend[OF st s2(2) assms(3)]
      show ?thesis
      proof (cases found)
        case None
        then show ?thesis using 2(2) s2(1) hd rows_grow_refl by (auto simp: return_io_def)
      next
        case (Some m)
        then have "record_object pf i h (ni_url n) m (db, w2) = (r, db', w')" using 2(2) s2(1) by simp
        from record_object_rows[OF this] show ?thesis using hd h(2) by simp
      qed
    qed
  qed
qed

lemma link_all_rows:
  assumes st: "catalog_storage cat i = Inr st" and "for_io (link_stored pf rx i st) ns (db, w) = (r, db', w')" "ok w"
  shows "store_view contents ok w' = store_view contents ok w \<and> rows_grow db db' \<and> (\<forall>u. r = Inr u \<longrightarrow> (\<forall>n\<in>set ns.
    is_nar_path rx (ni_url n) \<longrightarrow> contents i w (ni_url n) \<noteq> None \<longrightarrow>
    recorded i (ni_url n) db' \<and> (\<forall>h. parse_from_store_path (ni_store_path n) = Inr h \<longrightarrow> linked h (ni_url n) db')))"
  using assms(2,3)
proof (induction ns arbitrary: db w)
  case (Cons n ns)
  from Cons.prems(1) show ?case unfolding for_io.simps
  proof (cases rule: bind_io_cases)
    case (1 e)
    then show ?thesis using link_stored_rows[OF st 1(1) Cons.prems(2)] by simp
  next
    case (2 u s1)
    obtain db1 w1 where s1: "s1 = (db1, w1)" by (cases s1)
    note a = link_stored_rows[OF st 2(1)[unfolded s1] Cons.prems(2)]
    then have w1: "ok w1" "contents i w1 = contents i w" using Cons.prems(2) by (auto dest: fun_cong)
    note ih = Cons.IH[OF 2(2)[unfolded s1] w1(1), unfolded w1(2)]
    have g: "recorded i p db1 \<Longrightarrow> recorded i p db'" "linked h p db1 \<Longrightarrow> linked h p db'" for p h
      using ih by (simp_all add: rows_grow_def)
    have "rows_grow db db'" using a ih rows_grow_trans by blast
    then show ?thesis using a ih g by (simp del: split_paired_All)
  qed
qed (simp add: return_io_def rows_grow_refl)

end

subsection \<open>A registration as a whole\<close>

lemma require_uploads_paths:
  "map_io (require_upload st) ps w = (Inr us, w') \<Longrightarrow> map ru_object_path us = map plu_object_path ps"
  by (induction ps arbitrary: us w) (auto simp: bind_io_Inr require_upload_def to_api_required_upload_def)

lemma payload_fields [simp]:
  "ni_url (narinfo_of_payload v) = np_url v" "ni_store_path (narinfo_of_payload v) = np_store_path v"
  by (simp_all add: narinfo_of_payload_def)

lemma register_paths_runs:
  assumes "register_paths pf rx b64 s request (db, w) = (Inr resp, db', w')"
  obtains b c ns db1 i st pss w2 w3 where
    "uuid_parse pf (rpr_build_id request) = Some b" "get_build_context pf b db = Inr (Some c)" "ctx_status c = Pending"
    "map_io (register_path rx b64 (ing_store_dir s) b) (rpr_paths request) (db, w) = (Inr ns, db1, w)"
    "get_project_storage_id (ctx_project_slug c) db1 = Inr i" "catalog_storage (ing_catalog s) i = Inr st"
    "map_io (plan_upload rx st (ing_client s) (selected_in_db pf db1 (Project (ctx_project_slug c)))) ns w = (Inr pss, w2)"
    "for_io (link_stored pf rx i st) ns (db1, w2) = (Inr (), db', w3)"
    "map ru_object_path (rps_required_uploads resp) = map plu_object_path (concat pss)"
proof -
  from assms obtain b c st1 ns st2 i st st3 us st4 pss st5 u st6 rs st7 where
    b: "parse_build_id pf (rpr_build_id request) (db, w) = (Inr b, st1)" and
    c: "pending_context pf b st1 = (Inr c, st2)" and
    ns: "map_io (register_path rx b64 (ing_store_dir s) b) (rpr_paths request) st2 = (Inr ns, st3)" and
    i: "project_storage s (ctx_project_slug c) st3 = (Inr (i, st), st4)" and
    us: "project_upstreams pf (ctx_project_slug c) st4 = (Inr us, st5)" and
    pss: "on_storage (plan_required_uploads rx st (ing_client s) us ns) st5 = (Inr pss, st6)" and
    u: "for_io (link_stored pf rx i st) ns st6 = (Inr u, st7)" and
    rs: "on_storage (map_io (require_upload st) pss) st7 = (Inr rs, db', w')" and resp: "resp = \<lparr>rps_required_uploads = rs\<rparr>"
    unfolding register_paths_def bind_io_Inr case_prod_beta io_Inr by (metis prod.collapse)
  have 1: "st1 = (db, w)" "uuid_parse pf (rpr_build_id request) = Some b" using b by (auto simp: parse_build_id_def)
  note 2 = pending_context_state[OF c[unfolded 1(1)]]
  obtain db1 w1 where st3: "st3 = (db1, w1)" by (cases st3)
  have ns': "map_io (register_path rx b64 (ing_store_dir s) b) (rpr_paths request) (db, w) = (Inr ns, db1, w1)"
    using ns 2 st3 by simp
  from register_paths_grow[OF this] have w1: "w1 = w" by simp
  note 4 = project_storage_state[OF i[unfolded st3 w1]]
  note 5 = project_upstreams_state[OF us[unfolded conjunct1[OF 4]]]
  from pss[unfolded conjunct1[OF 5]] obtain w2 qss where
    6: "map_io (plan_upload rx st (ing_client s) us) ns w = (Inr qss, w2)" "pss = concat qss" "st6 = (db1, w2)"
    unfolding plan_required_uploads_def on_storage_eq bind_io_Inr by auto
  obtain db2 w3 where st7: "st7 = (db2, w3)" by (cases st7)
  from rs[unfolded st7] have "map_io (require_upload st) pss w3 = (Inr rs, w')" "db2 = db'" by auto
  then have "map ru_object_path (rps_required_uploads resp) = map plu_object_path (concat qss)"
    using require_uploads_paths resp 6(2) by simp
  then show ?thesis
    using that[of b c ns db1 i st qss w2 w3] 1(2) 2 ns' w1 4 5 6 u st7 \<open>db2 = db'\<close> by simp
qed

text \<open>C10 (registration). A successful registration is for a pending build; every path it names is valid
  and attached to the build, its NAR is recorded and linked if the storage of the project holds it; the
  uploads it asks for are exactly the NARs that neither this storage nor an enabled upstream of the
  project holds, in the order of the request. It publishes nothing.\<close>

theorem registration_exact:
  assumes "storage_backends (ing_catalog s) contents key visible ok" "ok w" "regexes_ok rx"
    "upstream_service (ing_client s) narinfos held (store_view contents ok)"
    "register_paths pf rx b64 s request (db, w) = (Inr resp, db', w')"
  shows "\<exists>b c i. uuid_parse pf (rpr_build_id request) = Some b \<and> get_build_context pf b db = Inr (Some c) \<and>
    ctx_status c = Pending \<and> get_project_storage_id (ctx_project_slug c) db = Inr i \<and>
    (\<forall>v\<in>set (rpr_paths request). \<exists>h. validate_publish_narinfo rx b64 (ing_store_dir s) (narinfo_of_payload v) = Inr h \<and>
       registered b h db' \<and> (contents i w (np_url v) \<noteq> None \<longrightarrow> recorded i (np_url v) db' \<and> linked h (np_url v) db')) \<and>
    map ru_object_path (rps_required_uploads resp) = map np_url (filter (\<lambda>v. upload_needed (contents i w) held
       (selected_in_db pf db (Project (ctx_project_slug c))) (np_url v)) (rpr_paths request)) \<and>
    db_refs db' = db_refs db \<and> db_builds db' = db_builds db"
  using assms(5)
proof (cases rule: register_paths_runs)
  case (1 b c ns db1 i st pss w2 w3)
  let ?vs = "rpr_paths request"
  note reg = register_paths_grow[OF 1(4)]
  have ns: "ns = map narinfo_of_payload ?vs" and
    each: "\<forall>v\<in>set ?vs. \<exists>h. validate_publish_narinfo rx b64 (ing_store_dir s) (narinfo_of_payload v) = Inr h \<and> registered b h db1"
    using reg by blast+
  note fr = paths_grow_frame[OF conjunct1[OF conjunct2[OF reg]]]
  have sel: "selected_in_db pf db1 (Project (ctx_project_slug c)) = selected_in_db pf db (Project (ctx_project_slug c))"
    unfolding selected_in_db_def depot_view.case list_enabled_upstreams_for_project_def project_upstream_rows_def fr(1-3) ..
  have i: "get_project_storage_id (ctx_project_slug c) db = Inr i"
    using 1(5) unfolding get_project_storage_id_def find_project_def fr(1) .
  note plan = storage_backends.plan_exact[OF assms(1,4) 1(6,7) assms(2), unfolded sel]
  then have w2: "ok w2" "contents i w2 = contents i w" using assms(2) by (auto dest: fun_cong)
  note link = storage_backends.link_all_rows[OF assms(1) 1(6,8) w2(1), unfolded w2(2)]
  note fr2 = rows_grow_frame[OF conjunct1[OF conjunct2[OF link]]]
  have valid: "\<exists>h. validate_publish_narinfo rx b64 (ing_store_dir s) (narinfo_of_payload v) = Inr h \<and> registered b h db1 \<and>
      parse_from_store_path (np_store_path v) = Inr h \<and> is_nar_path rx (np_url v)" if v: "v \<in> set ?vs" for v
  proof -
    obtain h where h: "validate_publish_narinfo rx b64 (ing_store_dir s) (narinfo_of_payload v) = Inr h" "registered b h db1"
      using each v by blast
    have "parse_from_store_path (np_store_path v) = Inr h"
      using regex_engine.validate_iff[OF regex_engine.intro, OF assms(3)] h(1) by simp
    moreover have "is_nar_path rx (np_url v)"
      using validated_url_is_object[OF assms(3) h(1)] by (auto simp: is_nar_path_def)
    ultimately show ?thesis using h by blast
  qed
  have "map ru_object_path (rps_required_uploads resp) = map np_url (filter (\<lambda>v. upload_needed (contents i w) held
       (selected_in_db pf db (Project (ctx_project_slug c))) (np_url v)) ?vs)"
  proof -
    have "filter (\<lambda>v. is_nar_path rx (np_url v) \<and> P (np_url v)) ?vs = filter (\<lambda>v. P (np_url v)) ?vs" for P
      using valid by (intro filter_cong) auto
    then show ?thesis using plan 1(9) unfolding ns by (simp add: filter_map comp_def)
  qed
  moreover have "\<exists>h. validate_publish_narinfo rx b64 (ing_store_dir s) (narinfo_of_payload v) = Inr h \<and>
       registered b h db' \<and> (contents i w (np_url v) \<noteq> None \<longrightarrow> recorded i (np_url v) db' \<and> linked h (np_url v) db')"
    if v: "v \<in> set ?vs" for v
  proof -
    obtain h where h: "validate_publish_narinfo rx b64 (ing_store_dir s) (narinfo_of_payload v) = Inr h" "registered b h db1"
      "parse_from_store_path (np_store_path v) = Inr h" "is_nar_path rx (np_url v)" using valid[OF v] by blast
    have n: "narinfo_of_payload v \<in> set ns" using v ns by simp
    have "registered b h db'" using h(2) fr2(5) by (simp add: registered_def)
    moreover have "contents i w (np_url v) \<noteq> None \<longrightarrow> recorded i (np_url v) db' \<and> linked h (np_url v) db'"
      using conjunct2[OF conjunct2[OF link], rule_format, OF refl n] h(3,4) by simp
    ultimately show ?thesis using h(1) by blast
  qed
  ultimately show ?thesis using 1(1-3) i fr(4,5) fr2(6,7) by auto
qed

subsection \<open>Instances\<close>

text \<open>A publication of one path to the project \<open>demo\<close> on the storage \<^verbatim>\<open>main\<close>.\<close>

definition nar_name :: string where
  "nar_name = replicate 52 (CHR ''0'') @ ''.nar.zst''"

definition begun_db :: database where
  "begun_db = demo_db\<lparr>db_path_infos := [], db_build_paths := []\<rparr>"

definition registered_db :: database where
  "registered_db = snd (attach_build_path ''b1'' path_sample_hash (snd (upsert_path_info no_base64 published_sample begun_db)))"

definition nar_files :: "bytes option \<Rightarrow> storage_id \<Rightarrow> file_system" where
  "nar_files b = (\<lambda>_. \<lparr>fs_nodes = (\<lambda>p. if p = [] \<or> p = [''data''] \<or> p = [''data'', ''nar''] then Some FsDir
       else if p = [''data'', ''nar'', nar_name] then map_option FsFile b else None),
     fs_step = 0, fs_faults = (\<lambda>_. None)\<rparr>)"

lemma nar_files_wf: "\<forall>i. fs_wf (nar_files b i)"
  by (cases b) (auto simp: fs_wf_def nar_files_def append_eq_Cons_conv split: if_splits)

definition demo_ingest :: "(storage_id \<Rightarrow> file_system) ingest_service" where
  "demo_ingest = \<lparr>ing_store_dir = default_nix, ing_catalog = gc_catalog, ing_client = no_upstreams\<rparr>"

lemma demo_ingest_backends: "storage_backends (ing_catalog demo_ingest) gc_contents
    (\<lambda>i. local_key (backend_at [(StorageId ''main'', \<lparr>fst_root = [''data'']\<rparr>)] i)) local_visible (\<lambda>w. \<forall>i. fs_wf (w i))"
  using gc_backends by (simp add: demo_ingest_def)

lemma demo_ingest_upstreams: "upstream_service (ing_client demo_ingest) (\<lambda>u h. None) (\<lambda>u p. None) k"
  using in_memory.upstream_service_axioms[of "\<lparr>imu_narinfos = Map.empty, imu_objects = Map.empty\<rparr>" k]
  by (simp add: demo_ingest_def)

lemma demo_build: "uuid_parse std_platform (fbr_build_id \<lparr>fbr_build_id = ''b1''\<rparr>) = Some ''b1''"
    "get_build_context std_platform ''b1'' registered_db = Inr (Some \<lparr>ctx_build_id = ''b1'', ctx_project_id = ''p1'',
       ctx_project_slug = demo, ctx_ref_name = ''main'', ctx_revision = None, ctx_status = Pending\<rparr>)"
    "list_build_path_nar_objects ''b1'' registered_db = Inr [(path_sample_hash, ''nar/'' @ nar_name)]"
  by code_simp+

lemma demo_finalized:
  obtains db' w' where "finalize_build std_platform 7 demo_ingest \<lparr>fbr_build_id = ''b1''\<rparr> (registered_db, nar_files (Some [7]))
    = (Inr (), db', w')"
proof -
  have "is_ok (fst (finalize_build std_platform 7 demo_ingest \<lparr>fbr_build_id = ''b1''\<rparr> (registered_db, nar_files (Some [7]))))"
    by code_simp
  then show ?thesis using that
    by (cases "finalize_build std_platform 7 demo_ingest \<lparr>fbr_build_id = ''b1''\<rparr> (registered_db, nar_files (Some [7]))")
      (auto simp: is_ok_iff)
qed

theorem finalize_complete_witness:
  "recorded (StorageId ''main'') (''nar/'' @ nar_name) (fst (snd
     (finalize_build std_platform 7 demo_ingest \<lparr>fbr_build_id = ''b1''\<rparr> (registered_db, nar_files (Some [7])))))"
proof -
  obtain db' w' where run: "finalize_build std_platform 7 demo_ingest \<lparr>fbr_build_id = ''b1''\<rparr>
      (registered_db, nar_files (Some [7])) = (Inr (), db', w')" by (rule demo_finalized)
  have i: "get_project_storage_id demo registered_db = Inr (StorageId ''main'')" by code_simp
  have "selected_in_db std_platform registered_db (Project demo) = []" by code_simp
  then show ?thesis
    using finalize_complete[OF demo_ingest_backends nar_files_wf demo_ingest_upstreams run] demo_build i
    unfolding run by auto
qed

theorem finalized_served_witness:
  "\<exists>db' w'. finalize_build std_platform 7 demo_ingest \<lparr>fbr_build_id = ''b1''\<rparr> (registered_db, nar_files (Some [7])) = (Inr (), db', w') \<and>
     fst (get_object (server_reader std_platform gc_catalog no_upstreams default_nix (None :: bool named_signing_key option) None)
       (''nar/'' @ nar_name)
       (Project demo) (db', w')) \<noteq> Inr None"
proof -
  obtain db' w' where run: "finalize_build std_platform 7 demo_ingest \<lparr>fbr_build_id = ''b1''\<rparr>
      (registered_db, nar_files (Some [7])) = (Inr (), db', w')" by (rule demo_finalized)
  have "(path_sample_hash, ''nar/'' @ nar_name) \<in> set [(path_sample_hash, ''nar/'' @ nar_name)]" by simp
  note served = finalized_served[OF demo_ingest_backends nar_files_wf demo_ingest_upstreams run demo_build this]
  let ?g = "get_object (server_reader std_platform gc_catalog no_upstreams default_nix (None :: bool named_signing_key option) None)
       (''nar/'' @ nar_name) (Project demo) (db', w')"
  obtain r st where g: "?g = (r, st)" by (cases ?g)
  have "r \<noteq> Inr None"
  proof
    assume "r = Inr None"
    then show False using served[of default_nix None None None st toy_crypto no_base64 None st] g by (simp add: demo_ingest_def)
  qed
  then show ?thesis using run g by auto
qed


definition demo_registration :: register_paths_request where
  "demo_registration = \<lparr>rpr_build_id = ''b1'', rpr_paths = [payload_of_narinfo no_base64 published_sample]\<rparr>"

theorem registration_exact_witness:
  "\<exists>resp db' w'. register_paths std_platform std_regexes no_base64 demo_ingest demo_registration (begun_db, nar_files None)
      = (Inr resp, db', w') \<and> map ru_object_path (rps_required_uploads resp) = [''nar/'' @ nar_name]"
proof -
  let ?run = "register_paths std_platform std_regexes no_base64 demo_ingest demo_registration (begun_db, nar_files None)"
  have "is_ok (fst ?run)" by code_simp
  then obtain resp db' w' where run: "?run = (Inr resp, db', w')" by (cases ?run) (auto simp: is_ok_iff)
  have c: "get_build_context std_platform ''b1'' begun_db = Inr (Some \<lparr>ctx_build_id = ''b1'', ctx_project_id = ''p1'',
       ctx_project_slug = demo, ctx_ref_name = ''main'', ctx_revision = None, ctx_status = Pending\<rparr>)"
    "get_project_storage_id demo begun_db = Inr (StorageId ''main'')"
    "selected_in_db std_platform begun_db (Project demo) = []"
    "uuid_parse std_platform (rpr_build_id demo_registration) = Some ''b1''"
    "map np_url (rpr_paths demo_registration) = [''nar/'' @ nar_name]"
    "gc_contents (StorageId ''main'') (nar_files None) (''nar/'' @ nar_name) = None"
    by code_simp+
  from registration_exact[OF demo_ingest_backends nar_files_wf std_regexes_ok demo_ingest_upstreams run] c
  have "map ru_object_path (rps_required_uploads resp) = map np_url (filter (\<lambda>v. upload_needed
      (gc_contents (StorageId ''main'') (nar_files None)) (\<lambda>u p. None :: (blob_metadata \<times> bytes) option) [] (np_url v)) (rpr_paths demo_registration))"
    by auto
  moreover obtain v where "rpr_paths demo_registration = [v]" "np_url v = ''nar/'' @ nar_name" using c(5) by (cases "rpr_paths demo_registration") auto
  ultimately show ?thesis using run c(6) by (auto simp: upload_needed_def)
qed

end
