(* ===== verification/WriteHandlers.thy ===== *)
theory WriteHandlers
  imports Authz Register DbKeys
begin

text \<open>
  \<^verbatim>\<open>crates/depot-write/src/handlers.rs\<close>, \<^verbatim>\<open>state.rs\<close> and the records of \<^verbatim>\<open>crates/depot-api\<close>: the
  handlers of the write API. A handler gets the headers and the parameters that axum has extracted; it returns
  early with a status. The routes of \<^verbatim>\<open>router.rs\<close> are the constructors of \<open>write_request\<close>.
\<close>

subsection \<open>The records of the API\<close>

record create_access_token_request =
  car_name :: string
  car_project :: string
  car_ref_patterns :: "string list"
  car_expires_at :: "string option"

record access_token_info =
  ati_id :: string
  ati_name :: string
  ati_project :: string
  ati_ref_patterns :: "string list"
  ati_created_at :: string
  ati_expires_at :: "string option"
  ati_revoked_at :: "string option"

record create_access_token_response =
  cas_token :: string
  cas_info :: access_token_info

record upsert_project_oidc_identity_request =
  uoi_provider :: string
  uoi_repository :: string
  uoi_ref_patterns :: "string list"

record delete_project_oidc_identity_request =
  doi_provider :: string
  doi_repository :: string

record project_oidc_identity_info =
  poi_provider :: string
  poi_repository :: string
  poi_ref_patterns :: "string list"

record create_pin_request =
  cpr_project :: "string option"
  cpr_store_path :: string

record pin_info =
  pni_name :: string
  pni_project :: "string option"
  pni_store_path :: string
  pni_created_at :: string
  pni_updated_at :: string

record upsert_project_request =
  upr_slug :: string
  upr_display_name :: string
  upr_public :: bool
  upr_storage_id :: "string option"

record project_info =
  pji_slug :: string
  pji_display_name :: string
  pji_public :: bool
  pji_storage_id :: string
  pji_created_at :: string

record retention_rule_info =
  rri_priority :: "32 word"
  rri_ref_pattern :: string
  rri_ttl_seconds :: "64 word option"
  rri_keep_builds :: "32 word option"

record retention_policy_info =
  rpi_project :: string
  rpi_inherited_default :: bool
  rpi_keep_latest_builds_per_ref :: "32 word"
  rpi_object_delete_grace_seconds :: "64 word"
  rpi_rules :: "retention_rule_info list"

record upsert_retention_policy_request =
  urp_keep_latest_builds_per_ref :: "32 word"
  urp_object_delete_grace_seconds :: "64 word"
  urp_rules :: "retention_rule_info list"

record signing_key_info =
  ski_project :: string
  ski_public_key :: "string option"

record generate_signing_key_request =
  gsk_name :: "string option"

record import_signing_key_request =
  isk_name :: "string option"
  isk_signing_key :: string

record signing_key_response =
  skr_project :: string
  skr_public_key :: string

record upstream_info =
  usi_name :: string
  usi_base_url :: string
  usi_priority :: "32 word"
  usi_enabled :: bool
  usi_created_at :: string

record upsert_upstream_request =
  uur_name :: string
  uur_base_url :: string
  uur_priority :: "32 word"
  uur_enabled :: bool

text \<open>Replies: a status, and a body written as JSON.\<close>

datatype reply_body =
    NoBody
  | BeginBuildBody begin_build_response
  | RegisterPathsBody register_paths_response
  | PresignBody presign_multipart_upload_part_response
  | FinalizeBody
  | PinsBody "pin_info list"
  | GcBody run_gc_response
  | ProjectsBody "project_info list"
  | OidcIdentitiesBody "project_oidc_identity_info list"
  | RetentionBody retention_policy_info
  | SigningKeyInfoBody signing_key_info
  | SigningKeyBody signing_key_response
  | UpstreamsBody "upstream_info list"
  | TokenCreatedBody create_access_token_response
  | TokensBody "access_token_info list"

datatype reply = Reply (reply_status: nat) (reply_body: reply_body)

subsection \<open>The state\<close>

record 'k write_libs =
  wl_platform :: platform
  wl_regexes :: regexes
  wl_b64 :: b64_decoder
  wl_crypto :: "'k crypto"
  wl_sha256 :: "bytes \<Rightarrow> bytes"
  wl_hex :: "bytes \<Rightarrow> string"
  wl_show_time :: "datetime \<Rightarrow> string" \<comment> \<open>\<^verbatim>\<open>OffsetDateTime::to_string\<close>\<close>
  wl_url_valid :: "string \<Rightarrow> bool" \<comment> \<open>\<^verbatim>\<open>reqwest::Url::parse\<close> succeeds\<close>

record ('o, 'w) write_app_state =
  was_catalog :: "'w storage_catalog"
  was_ingest :: "'w ingest_service"
  was_gc_catalog :: "'w storage_catalog"
  was_authorizer :: "datetime \<Rightarrow> ('o \<times> database \<times> 'w) authorizer"
  was_kek :: "key_encryption_key option"

text \<open>What a request draws from the clock and the random generators.\<close>

record moment =
  mo_authenticated :: datetime
  mo_authorized :: datetime
  mo_now :: datetime
  mo_clear :: datetime
  mo_mark :: datetime
  mo_list :: datetime
  mo_fresh :: "nat \<Rightarrow> uuid"
  mo_random :: "string \<times> string"
  mo_seed :: "string + bytes"
  mo_nonce :: "string + bytes"

type_synonym ('o, 'w, 'a) handler = "('o \<times> database \<times> 'w, reply, 'a) io"

definition status :: "nat \<Rightarrow> reply" where
  "status n = Reply n NoBody"

definition map_err_io :: "('e \<Rightarrow> 'f) \<Rightarrow> ('s, 'e, 'a) io \<Rightarrow> ('s, 'f, 'a) io" where
  "map_err_io g m = (\<lambda>s. case m s of (r, s) \<Rightarrow> (map_err g r, s))"

text \<open>An error of an operation is logged and answered with 400.\<close>

definition attempt :: "('s, 'e, 'a) io \<Rightarrow> ('s, reply, 'a) io" where
  "attempt m = map_err_io (\<lambda>_. status 400) m"

definition checked :: "'e + 'a \<Rightarrow> ('s, reply, 'a) io" where
  "checked r = pure_io (map_err (\<lambda>_. status 400) r)"

definition on_database :: "'a db_op \<Rightarrow> ('o \<times> database \<times> 'w, anyhow, 'a) io" where
  "on_database m = on_right (on_left m)"

subsection \<open>Access\<close>

definition authorization_error_response :: "authorization_error \<Rightarrow> reply" where
  "authorization_error_response e =
     status (case e of ServiceUnavailable \<Rightarrow> 503 | Unauthorized \<Rightarrow> 401 | Forbidden \<Rightarrow> 403)"

definition authenticated ::
    "('o, 'w) write_app_state \<Rightarrow> moment \<Rightarrow> headers \<Rightarrow> ('o, 'w, authenticated_identity) handler" where
  "authenticated app mo headers =
     map_err_io authorization_error_response (authenticate_headers (was_authorizer app (mo_authenticated mo)) headers)"

text \<open>The result of an authorization against the database.\<close>

definition authorized_by :: "(database \<Rightarrow> authorization_error + 'p) \<Rightarrow> ('o, 'w, unit) handler" where
  "authorized_by q = (\<lambda>(o', db, w).
     (and_then (map_err authorization_error_response (q db)) (\<lambda>_. Inr ()), o', db, w))"

definition require_admin_headers ::
    "('o, 'w) write_app_state \<Rightarrow> moment \<Rightarrow> headers \<Rightarrow> ('o, 'w, unit) handler" where
  "require_admin_headers app mo headers =
     bind_io (authenticated app mo headers) (\<lambda>identity. authorized_by (\<lambda>db. authorize_admin identity))"

definition require_project_or_admin_headers ::
    "platform \<Rightarrow> ('o, 'w) write_app_state \<Rightarrow> moment \<Rightarrow> headers \<Rightarrow> project_slug option \<Rightarrow> ('o, 'w, unit) handler" where
  "require_project_or_admin_headers pf app mo headers project =
     bind_io (authenticated app mo headers) (\<lambda>identity.
     case project of
       Some project \<Rightarrow> authorized_by (authorize_project pf (mo_authorized mo) identity project)
     | None \<Rightarrow> authorized_by (\<lambda>db. authorize_admin identity))"

definition require_project_ref_headers ::
    "platform \<Rightarrow> ('o, 'w) write_app_state \<Rightarrow> moment \<Rightarrow> headers \<Rightarrow> project_slug \<Rightarrow> string \<Rightarrow> ('o, 'w, unit) handler" where
  "require_project_ref_headers pf app mo headers project rname =
     bind_io (authenticated app mo headers) (\<lambda>identity.
     authorized_by (authorize_project_ref pf (mo_authorized mo) identity project rname))"

definition require_build_access ::
    "platform \<Rightarrow> ('o, 'w) write_app_state \<Rightarrow> moment \<Rightarrow> headers \<Rightarrow> uuid \<Rightarrow> ('o, 'w, unit) handler" where
  "require_build_access pf app mo headers build_id =
     bind_io (attempt (on_database (query_io (get_build_context pf build_id)))) (\<lambda>found.
     case found of
       None \<Rightarrow> fail_io (status 400)
     | Some context \<Rightarrow>
         require_project_ref_headers pf app mo headers (ctx_project_slug context) (ctx_ref_name context))"

definition parse_optional_project :: "string option \<Rightarrow> reply + project_slug option" where
  "parse_optional_project project =
     (case project of
        Some project \<Rightarrow> and_then (map_err (\<lambda>_. status 400) (slug_parse project)) (\<lambda>p. Inr (Some p))
      | None \<Rightarrow> Inr None)"

text \<open>The path parameters of a request below a build.\<close>

definition with_build ::
    "'k write_libs \<Rightarrow> ('o, 'w) write_app_state \<Rightarrow> moment \<Rightarrow> headers \<Rightarrow> string \<Rightarrow>
     (uuid \<Rightarrow> ('o, 'w, reply) handler) \<Rightarrow> ('o, 'w, reply) handler" where
  "with_build lib app mo headers build_id act =
     bind_io (checked (ok_or () (uuid_parse (wl_platform lib) build_id))) (\<lambda>build_id.
     bind_io (require_build_access (wl_platform lib) app mo headers build_id) (\<lambda>_. act build_id))"

subsection \<open>Builds\<close>

definition begin_build_handler ::
    "'k write_libs \<Rightarrow> ('o, 'w) write_app_state \<Rightarrow> moment \<Rightarrow> headers \<Rightarrow> begin_build_request \<Rightarrow> ('o, 'w, reply) handler" where
  "begin_build_handler lib app mo headers request =
     bind_io (checked (slug_parse (bbr_project request))) (\<lambda>project.
     bind_io (require_project_ref_headers (wl_platform lib) app mo headers project (bbr_ref_name request)) (\<lambda>_.
     bind_io (attempt (on_right (ingest_begin_build (wl_platform lib) (mo_now mo) (mo_fresh mo 0) request))) (\<lambda>response.
     return_io (Reply 200 (BeginBuildBody response)))))"

definition register_paths_handler ::
    "'k write_libs \<Rightarrow> ('o, 'w) write_app_state \<Rightarrow> moment \<Rightarrow> headers \<Rightarrow> string \<Rightarrow> register_paths_request \<Rightarrow>
     ('o, 'w, reply) handler" where
  "register_paths_handler lib app mo headers build_id request =
     with_build lib app mo headers build_id (\<lambda>_.
     bind_io (attempt (on_right (register_paths (wl_platform lib) (wl_regexes lib) (wl_b64 lib) (was_ingest app)
       (request\<lparr>rpr_build_id := build_id\<rparr>)))) (\<lambda>response.
     return_io (Reply 200 (RegisterPathsBody response))))"

definition upload_object_handler ::
    "'k write_libs \<Rightarrow> ('o, 'w) write_app_state \<Rightarrow> moment \<Rightarrow> headers \<Rightarrow> string \<Rightarrow> string \<Rightarrow> string \<Rightarrow> upload_reader \<Rightarrow>
     ('o, 'w, reply) handler" where
  "upload_object_handler lib app mo headers build_id hash_param object_path body =
     with_build lib app mo headers build_id (\<lambda>build_id.
     bind_io (checked (from_hash hash_param)) (\<lambda>store_path_hash.
     bind_io (attempt (on_right (upload_object (wl_platform lib) (wl_regexes lib) (was_ingest app) build_id
       store_path_hash object_path body))) (\<lambda>_.
     return_io (status 204))))"

definition presign_part_handler ::
    "'k write_libs \<Rightarrow> ('o, 'w) write_app_state \<Rightarrow> moment \<Rightarrow> headers \<Rightarrow> string \<Rightarrow> string \<Rightarrow> part_number \<Rightarrow>
     presign_multipart_upload_part_request \<Rightarrow> ('o, 'w, reply) handler" where
  "presign_part_handler lib app mo headers build_id hash_param part_number request =
     with_build lib app mo headers build_id (\<lambda>build_id.
     bind_io (checked (from_hash hash_param)) (\<lambda>store_path_hash.
     bind_io (attempt (on_right (presign_multipart_upload_part (wl_platform lib) (wl_regexes lib) (wl_show_time lib)
       (was_ingest app) build_id store_path_hash part_number request))) (\<lambda>response.
     return_io (Reply 200 (PresignBody response)))))"

definition complete_multipart_handler ::
    "'k write_libs \<Rightarrow> ('o, 'w) write_app_state \<Rightarrow> moment \<Rightarrow> headers \<Rightarrow> string \<Rightarrow> string \<Rightarrow>
     complete_multipart_upload_request \<Rightarrow> ('o, 'w, reply) handler" where
  "complete_multipart_handler lib app mo headers build_id hash_param request =
     with_build lib app mo headers build_id (\<lambda>build_id.
     bind_io (checked (from_hash hash_param)) (\<lambda>store_path_hash.
     bind_io (attempt (on_right (complete_multipart_upload (wl_platform lib) (wl_regexes lib) (was_ingest app)
       build_id store_path_hash request))) (\<lambda>_.
     return_io (status 204))))"

definition abort_multipart_handler ::
    "'k write_libs \<Rightarrow> ('o, 'w) write_app_state \<Rightarrow> moment \<Rightarrow> headers \<Rightarrow> string \<Rightarrow> string \<Rightarrow>
     abort_multipart_upload_request \<Rightarrow> ('o, 'w, reply) handler" where
  "abort_multipart_handler lib app mo headers build_id hash_param request =
     with_build lib app mo headers build_id (\<lambda>build_id.
     bind_io (checked (from_hash hash_param)) (\<lambda>store_path_hash.
     bind_io (attempt (on_right (abort_multipart_upload (wl_platform lib) (wl_regexes lib) (was_ingest app)
       build_id store_path_hash request))) (\<lambda>_.
     return_io (status 204))))"

definition finalize_build_handler ::
    "'k write_libs \<Rightarrow> ('o, 'w) write_app_state \<Rightarrow> moment \<Rightarrow> headers \<Rightarrow> string \<Rightarrow> ('o, 'w, reply) handler" where
  "finalize_build_handler lib app mo headers build_id =
     with_build lib app mo headers build_id (\<lambda>_.
     bind_io (attempt (on_right (finalize_build (wl_platform lib) (mo_now mo) (was_ingest app)
       \<lparr>fbr_build_id = build_id\<rparr>))) (\<lambda>_.
     return_io (Reply 200 FinalizeBody)))"

subsection \<open>Pins and garbage collection\<close>

text \<open>204, or 404 when there was nothing to change.\<close>

definition found_status :: "bool \<Rightarrow> reply" where
  "found_status found = status (if found then 204 else 404)"

definition pin_info_of :: "'k write_libs \<Rightarrow> pin_record \<Rightarrow> pin_info" where
  "pin_info_of lib pin =
     \<lparr>pni_name = pn_name pin, pni_project = map_option slug_str (pn_project_slug pin), pni_store_path = pn_store_path pin,
      pni_created_at = wl_show_time lib (pn_created_at pin), pni_updated_at = wl_show_time lib (pn_updated_at pin)\<rparr>"

definition list_pins_handler ::
    "'k write_libs \<Rightarrow> ('o, 'w) write_app_state \<Rightarrow> moment \<Rightarrow> headers \<Rightarrow> string option \<Rightarrow> ('o, 'w, reply) handler" where
  "list_pins_handler lib app mo headers project_text =
     bind_io (pure_io (parse_optional_project project_text)) (\<lambda>project.
     bind_io (require_project_or_admin_headers (wl_platform lib) app mo headers project) (\<lambda>_.
     bind_io (attempt (on_database (query_io (list_pins (wl_platform lib) project)))) (\<lambda>pins.
     return_io (Reply 200 (PinsBody (map (pin_info_of lib) pins))))))"

definition create_pin_handler ::
    "'k write_libs \<Rightarrow> ('o, 'w) write_app_state \<Rightarrow> moment \<Rightarrow> headers \<Rightarrow> string \<Rightarrow> create_pin_request \<Rightarrow>
     ('o, 'w, reply) handler" where
  "create_pin_handler lib app mo headers name request =
     bind_io (pure_io (parse_optional_project (cpr_project request))) (\<lambda>project.
     bind_io (require_project_or_admin_headers (wl_platform lib) app mo headers project) (\<lambda>_.
     bind_io (checked (parse_from_store_path (cpr_store_path request))) (\<lambda>store_path_hash.
     bind_io (attempt (on_database (upsert_pin (wl_platform lib) (mo_now mo) name project store_path_hash
       (cpr_store_path request)))) (\<lambda>_.
     return_io (status 204)))))"

definition delete_pin_handler ::
    "'k write_libs \<Rightarrow> ('o, 'w) write_app_state \<Rightarrow> moment \<Rightarrow> headers \<Rightarrow> string \<Rightarrow> string option \<Rightarrow>
     ('o, 'w, reply) handler" where
  "delete_pin_handler lib app mo headers name project_text =
     bind_io (pure_io (parse_optional_project project_text)) (\<lambda>project.
     bind_io (require_project_or_admin_headers (wl_platform lib) app mo headers project) (\<lambda>_.
     bind_io (attempt (on_database (delete_pin name project))) (\<lambda>found.
     return_io (found_status found))))"

definition run_gc_handler ::
    "'k write_libs \<Rightarrow> ('o, 'w) write_app_state \<Rightarrow> moment \<Rightarrow> headers \<Rightarrow> run_gc_request \<Rightarrow> ('o, 'w, reply) handler" where
  "run_gc_handler lib app mo headers request =
     bind_io (require_admin_headers app mo headers) (\<lambda>_.
     bind_io (case rgq_grace_period_seconds request of
         Some seconds \<Rightarrow> bind_io (checked (ok_or () (try_i64 seconds))) (\<lambda>grace_period_seconds.
           attempt (on_right (run_local_gc_with_grace_period (wl_platform lib) (mo_clear mo) (mo_mark mo) (mo_list mo)
             (was_gc_catalog app) (rgq_dry_run request) grace_period_seconds)))
       | None \<Rightarrow> attempt (on_right (run_local_gc (wl_platform lib) (mo_clear mo) (mo_mark mo) (mo_list mo)
           (was_gc_catalog app) (rgq_dry_run request)))) (\<lambda>response.
     return_io (Reply 200 (GcBody response))))"

subsection \<open>Projects\<close>

definition project_info_of :: "'k write_libs \<Rightarrow> project_record \<Rightarrow> project_info" where
  "project_info_of lib p =
     \<lparr>pji_slug = slug_str (prj_slug p), pji_display_name = prj_display_name p, pji_public = prj_public p,
      pji_storage_id = storage_id_str (prj_storage_id p), pji_created_at = wl_show_time lib (prj_created_at p)\<rparr>"

definition list_projects_handler ::
    "'k write_libs \<Rightarrow> ('o, 'w) write_app_state \<Rightarrow> moment \<Rightarrow> headers \<Rightarrow> ('o, 'w, reply) handler" where
  "list_projects_handler lib app mo headers =
     bind_io (require_admin_headers app mo headers) (\<lambda>_.
     bind_io (attempt (on_database (query_io (list_projects (wl_platform lib))))) (\<lambda>projects.
     return_io (Reply 200 (ProjectsBody (map (project_info_of lib) projects)))))"

definition upsert_project_handler ::
    "'k write_libs \<Rightarrow> ('o, 'w) write_app_state \<Rightarrow> moment \<Rightarrow> headers \<Rightarrow> upsert_project_request \<Rightarrow>
     ('o, 'w, reply) handler" where
  "upsert_project_handler lib app mo headers request =
     bind_io (require_admin_headers app mo headers) (\<lambda>_.
     bind_io (checked (slug_parse (upr_slug request))) (\<lambda>project.
     bind_io (case upr_storage_id request of
         Some raw_storage_id \<Rightarrow> bind_io (checked (storage_id_new raw_storage_id)) (\<lambda>storage_id.
           bind_io (checked (catalog_storage (was_catalog app) storage_id)) (\<lambda>_. return_io storage_id))
       | None \<Rightarrow> checked (resolve_optional_storage_id (was_catalog app) None)) (\<lambda>storage_id.
     bind_io (attempt (on_database (insert_project (wl_platform lib) (mo_now mo) (mo_fresh mo 0) project
       (upr_display_name request) (upr_public request) storage_id))) (\<lambda>_.
     bind_io (case was_kek app of
         Some kek \<Rightarrow> bind_io (attempt (on_database (ensure_project_signing_key (wl_platform lib) (wl_crypto lib) (mo_now mo)
           (mo_fresh mo 1) (mo_seed mo) (mo_nonce mo) project kek))) (\<lambda>_. return_io ())
       | None \<Rightarrow> return_io ()) (\<lambda>_.
     return_io (status 204))))))"

text \<open>A handler of the administrator for one project.\<close>

definition with_project ::
    "('o, 'w) write_app_state \<Rightarrow> moment \<Rightarrow> headers \<Rightarrow> string \<Rightarrow> (project_slug \<Rightarrow> ('o, 'w, reply) handler) \<Rightarrow>
     ('o, 'w, reply) handler" where
  "with_project app mo headers project act =
     bind_io (require_admin_headers app mo headers) (\<lambda>_. bind_io (checked (slug_parse project)) act)"

subsection \<open>Grouping\<close>

text \<open>A \<^verbatim>\<open>BTreeMap\<close> of patterns by their key.\<close>

fun group_push :: "'k :: linorder \<Rightarrow> string option \<Rightarrow> ('k \<times> string list) list \<Rightarrow> ('k \<times> string list) list" where
  "group_push k p [] = [(k, case p of Some q \<Rightarrow> [q] | None \<Rightarrow> [])]"
| "group_push k p ((k', ps) # g) =
     (if k = k' then (k', case p of Some q \<Rightarrow> ps @ [q] | None \<Rightarrow> ps) # g
      else if k < k' then (k, case p of Some q \<Rightarrow> [q] | None \<Rightarrow> []) # (k', ps) # g
      else (k', ps) # group_push k p g)"

definition grouped :: "('r \<Rightarrow> 'k :: linorder) \<Rightarrow> ('r \<Rightarrow> string option) \<Rightarrow> 'r list \<Rightarrow> ('k \<times> string list) list" where
  "grouped key pat rows =
     map (\<lambda>(k, ps). (k, dedup (sort ps))) (foldl (\<lambda>g r. group_push (key r) (pat r) g) [] rows)"

subsection \<open>Bindings of OIDC identities\<close>

definition oidc_identity_infos :: "oidc_identity_record list \<Rightarrow> project_oidc_identity_info list" where
  "oidc_identity_infos rows =
     map (\<lambda>((provider, repository), ref_patterns).
         \<lparr>poi_provider = provider, poi_repository = repository, poi_ref_patterns = ref_patterns\<rparr>)
       (grouped (\<lambda>r. (oid_provider r, oid_repository r)) oid_ref_pattern rows)"

definition list_project_oidc_identities_handler ::
    "'k write_libs \<Rightarrow> ('o, 'w) write_app_state \<Rightarrow> moment \<Rightarrow> headers \<Rightarrow> string \<Rightarrow> ('o, 'w, reply) handler" where
  "list_project_oidc_identities_handler lib app mo headers project_text =
     with_project app mo headers project_text (\<lambda>project.
     bind_io (attempt (on_database (query_io (list_project_oidc_identities (wl_platform lib) project)))) (\<lambda>rows.
     return_io (Reply 200 (OidcIdentitiesBody (oidc_identity_infos rows)))))"

definition upsert_project_oidc_identity_handler ::
    "'k write_libs \<Rightarrow> ('o, 'w) write_app_state \<Rightarrow> moment \<Rightarrow> headers \<Rightarrow> string \<Rightarrow>
     upsert_project_oidc_identity_request \<Rightarrow> ('o, 'w, reply) handler" where
  "upsert_project_oidc_identity_handler lib app mo headers project_text request =
     with_project app mo headers project_text (\<lambda>project.
     bind_io (attempt (on_database (replace_project_oidc_identity (wl_platform lib) (mo_now mo) project
       (uoi_provider request) (uoi_repository request) (uoi_ref_patterns request)))) (\<lambda>_.
     return_io (status 204)))"

definition delete_project_oidc_identity_handler ::
    "('o, 'w) write_app_state \<Rightarrow> moment \<Rightarrow> headers \<Rightarrow> string \<Rightarrow> delete_project_oidc_identity_request \<Rightarrow>
     ('o, 'w, reply) handler" where
  "delete_project_oidc_identity_handler app mo headers project_text request =
     with_project app mo headers project_text (\<lambda>project.
     bind_io (attempt (on_database (delete_project_oidc_identity project (doi_provider request) (doi_repository request))))
       (\<lambda>found. return_io (found_status found)))"

subsection \<open>Retention policies\<close>

definition retention_policy_info_of :: "retention_policy \<Rightarrow> retention_policy_info" where
  "retention_policy_info_of policy =
     \<lparr>rpi_project = slug_str (pol_project_slug policy), rpi_inherited_default = pol_inherited policy,
      rpi_keep_latest_builds_per_ref = pol_keep policy, rpi_object_delete_grace_seconds = pol_grace policy,
      rpi_rules = map (\<lambda>rule. \<lparr>rri_priority = rule_priority rule, rri_ref_pattern = rule_pattern rule,
        rri_ttl_seconds = rule_ttl rule, rri_keep_builds = rule_keep rule\<rparr>) (pol_rules policy)\<rparr>"

definition get_retention_policy_handler ::
    "('o, 'w) write_app_state \<Rightarrow> moment \<Rightarrow> headers \<Rightarrow> string \<Rightarrow> ('o, 'w, reply) handler" where
  "get_retention_policy_handler app mo headers project_text =
     with_project app mo headers project_text (\<lambda>project.
     bind_io (attempt (on_database (query_io (get_project_retention_policy project)))) (\<lambda>policy.
     return_io (Reply 200 (RetentionBody (retention_policy_info_of policy)))))"

definition upsert_retention_policy_handler ::
    "('o, 'w) write_app_state \<Rightarrow> moment \<Rightarrow> headers \<Rightarrow> string \<Rightarrow> upsert_retention_policy_request \<Rightarrow>
     ('o, 'w, reply) handler" where
  "upsert_retention_policy_handler app mo headers project_text request =
     with_project app mo headers project_text (\<lambda>project.
     let rules = map (\<lambda>rule. \<lparr>rule_priority = rri_priority rule, rule_pattern = rri_ref_pattern rule,
       rule_ttl = rri_ttl_seconds rule, rule_keep = rri_keep_builds rule\<rparr>) (urp_rules request) in
     bind_io (attempt (on_database (replace_project_retention_policy (mo_fresh mo) project
       (urp_keep_latest_builds_per_ref request) (urp_object_delete_grace_seconds request) rules))) (\<lambda>_.
     return_io (status 204)))"

definition delete_retention_policy_handler ::
    "('o, 'w) write_app_state \<Rightarrow> moment \<Rightarrow> headers \<Rightarrow> string \<Rightarrow> ('o, 'w, reply) handler" where
  "delete_retention_policy_handler app mo headers project_text =
     with_project app mo headers project_text (\<lambda>project.
     bind_io (attempt (on_database (delete_project_retention_policy project))) (\<lambda>found.
     return_io (found_status found)))"

subsection \<open>Signing keys\<close>

definition get_signing_key_handler ::
    "'k write_libs \<Rightarrow> ('o, 'w) write_app_state \<Rightarrow> moment \<Rightarrow> headers \<Rightarrow> string \<Rightarrow> ('o, 'w, reply) handler" where
  "get_signing_key_handler lib app mo headers project_text =
     with_project app mo headers project_text (\<lambda>project.
     bind_io (attempt (on_database (query_io (active_project_signing_key_public (wl_platform lib) project)))) (\<lambda>public_key.
     return_io (Reply 200 (SigningKeyInfoBody \<lparr>ski_project = slug_str project, ski_public_key = public_key\<rparr>))))"

text \<open>A handler that needs the key encryption key: after the check of access, before that of the slug.\<close>

definition with_kek ::
    "('o, 'w) write_app_state \<Rightarrow> moment \<Rightarrow> headers \<Rightarrow> string \<Rightarrow> (key_encryption_key \<Rightarrow> project_slug \<Rightarrow> ('o, 'w, reply) handler) \<Rightarrow>
     ('o, 'w, reply) handler" where
  "with_kek app mo headers project act =
     bind_io (require_admin_headers app mo headers) (\<lambda>_.
     case was_kek app of
       None \<Rightarrow> fail_io (status 503)
     | Some kek \<Rightarrow> bind_io (checked (slug_parse project)) (act kek))"

definition generate_signing_key_handler ::
    "'k write_libs \<Rightarrow> ('o, 'w) write_app_state \<Rightarrow> moment \<Rightarrow> headers \<Rightarrow> string \<Rightarrow> generate_signing_key_request \<Rightarrow>
     ('o, 'w, reply) handler" where
  "generate_signing_key_handler lib app mo headers project_text request =
     with_kek app mo headers project_text (\<lambda>kek project.
     bind_io (attempt (on_database (generate_project_signing_key (wl_platform lib) (wl_crypto lib) (mo_now mo)
       (mo_fresh mo 0) (mo_seed mo) (mo_nonce mo) project (gsk_name request) kek))) (\<lambda>public_key.
     return_io (Reply 200 (SigningKeyBody \<lparr>skr_project = slug_str project, skr_public_key = public_key\<rparr>))))"

definition import_signing_key_handler ::
    "'k write_libs \<Rightarrow> ('o, 'w) write_app_state \<Rightarrow> moment \<Rightarrow> headers \<Rightarrow> string \<Rightarrow> import_signing_key_request \<Rightarrow>
     ('o, 'w, reply) handler" where
  "import_signing_key_handler lib app mo headers project_text request =
     with_kek app mo headers project_text (\<lambda>kek project.
     bind_io (checked (and_then (signing_key_parse (cr_codec (wl_crypto lib)) (cr_ed (wl_crypto lib))
         (trim (isk_signing_key request))) (\<lambda>key.
       case isk_name request of Some name \<Rightarrow> with_name key name | None \<Rightarrow> Inr key))) (\<lambda>signing_key.
     bind_io (attempt (on_database (import_project_signing_key (wl_platform lib) (wl_crypto lib) (mo_now mo)
       (mo_fresh mo 0) (mo_nonce mo) project signing_key kek))) (\<lambda>public_key.
     return_io (Reply 200 (SigningKeyBody \<lparr>skr_project = slug_str project, skr_public_key = public_key\<rparr>)))))"

subsection \<open>Upstreams\<close>

definition upstream_info_of :: "'k write_libs \<Rightarrow> upstream_record \<Rightarrow> upstream_info" where
  "upstream_info_of lib u =
     \<lparr>usi_name = ups_name u, usi_base_url = ups_base_url u, usi_priority = ups_priority u, usi_enabled = ups_enabled u,
      usi_created_at = wl_show_time lib (ups_created_at u)\<rparr>"

definition list_upstreams_handler ::
    "'k write_libs \<Rightarrow> ('o, 'w) write_app_state \<Rightarrow> moment \<Rightarrow> headers \<Rightarrow> ('o, 'w, reply) handler" where
  "list_upstreams_handler lib app mo headers =
     bind_io (require_admin_headers app mo headers) (\<lambda>_.
     bind_io (attempt (on_database (query_io (list_upstream_caches (wl_platform lib))))) (\<lambda>upstreams.
     return_io (Reply 200 (UpstreamsBody (map (upstream_info_of lib) upstreams)))))"

definition upsert_upstream_handler ::
    "'k write_libs \<Rightarrow> ('o, 'w) write_app_state \<Rightarrow> moment \<Rightarrow> headers \<Rightarrow> upsert_upstream_request \<Rightarrow>
     ('o, 'w, reply) handler" where
  "upsert_upstream_handler lib app mo headers request =
     bind_io (require_admin_headers app mo headers) (\<lambda>_.
     if trim (uur_name request) = [] \<or> trim (uur_base_url request) = [] then fail_io (status 400)
     else if \<not> wl_url_valid lib (uur_base_url request) then fail_io (status 400)
     else bind_io (attempt (on_database (upsert_upstream_cache_by_name (wl_platform lib) (mo_now mo) (mo_fresh mo 0)
       (trim (uur_name request)) (trim (uur_base_url request)) (uur_priority request) (uur_enabled request)))) (\<lambda>_.
     return_io (status 204)))"

definition set_upstream_enabled_handler ::
    "('o, 'w) write_app_state \<Rightarrow> moment \<Rightarrow> headers \<Rightarrow> string \<Rightarrow> bool \<Rightarrow> ('o, 'w, reply) handler" where
  "set_upstream_enabled_handler app mo headers upstream enabled =
     bind_io (require_admin_headers app mo headers) (\<lambda>_.
     bind_io (attempt (on_database (set_upstream_enabled upstream enabled))) (\<lambda>found.
     return_io (found_status found)))"

definition list_project_upstreams_handler ::
    "'k write_libs \<Rightarrow> ('o, 'w) write_app_state \<Rightarrow> moment \<Rightarrow> headers \<Rightarrow> string \<Rightarrow> ('o, 'w, reply) handler" where
  "list_project_upstreams_handler lib app mo headers project_text =
     with_project app mo headers project_text (\<lambda>project.
     bind_io (attempt (on_database (query_io (list_upstreams_for_project (wl_platform lib) project)))) (\<lambda>upstreams.
     return_io (Reply 200 (UpstreamsBody (map (upstream_info_of lib) upstreams)))))"

definition link_project_upstream_handler ::
    "'k write_libs \<Rightarrow> ('o, 'w) write_app_state \<Rightarrow> moment \<Rightarrow> headers \<Rightarrow> string \<Rightarrow> string \<Rightarrow> ('o, 'w, reply) handler" where
  "link_project_upstream_handler lib app mo headers project_text upstream =
     with_project app mo headers project_text (\<lambda>project.
     bind_io (attempt (on_database (link_project_upstream_by_name (wl_platform lib) project upstream))) (\<lambda>found.
     return_io (found_status found)))"

definition unlink_project_upstream_handler ::
    "('o, 'w) write_app_state \<Rightarrow> moment \<Rightarrow> headers \<Rightarrow> string \<Rightarrow> string \<Rightarrow> ('o, 'w, reply) handler" where
  "unlink_project_upstream_handler app mo headers project_text upstream =
     with_project app mo headers project_text (\<lambda>project.
     bind_io (attempt (on_database (unlink_project_upstream_by_name project upstream))) (\<lambda>found.
     return_io (found_status found)))"

subsection \<open>Access tokens\<close>

definition token_key ::
    "'k write_libs \<Rightarrow> access_token_record \<Rightarrow> string \<times> string \<times> string \<times> string \<times> string option \<times> string option" where
  "token_key lib r = (atr_id r, atr_name r, slug_str (atr_project_slug r), wl_show_time lib (atr_created_at r),
     map_option (wl_show_time lib) (atr_expires_at r), map_option (wl_show_time lib) (atr_revoked_at r))"

definition access_token_info_from_records :: "'k write_libs \<Rightarrow> access_token_record list \<Rightarrow> access_token_info list" where
  "access_token_info_from_records lib records =
     map (\<lambda>((i, name, project, created_at, expires_at, revoked_at), ref_patterns).
         \<lparr>ati_id = i, ati_name = name, ati_project = project, ati_ref_patterns = ref_patterns,
          ati_created_at = created_at, ati_expires_at = expires_at, ati_revoked_at = revoked_at\<rparr>)
       (grouped (token_key lib) atr_ref_pattern records)"

definition create_access_token_handler ::
    "'k write_libs \<Rightarrow> ('o, 'w) write_app_state \<Rightarrow> moment \<Rightarrow> headers \<Rightarrow> create_access_token_request \<Rightarrow>
     ('o, 'w, reply) handler" where
  "create_access_token_handler lib app mo headers request =
     bind_io (require_admin_headers app mo headers) (\<lambda>_.
     bind_io (checked (slug_parse (car_project request))) (\<lambda>project.
     bind_io (checked (transpose_res (\<lambda>v. ok_or () (rfc3339_parse (wl_platform lib) v)) (car_expires_at request))) (\<lambda>expires_at.
     bind_io (attempt (on_database (create_access_token (wl_platform lib) (wl_sha256 lib) (wl_hex lib) (mo_now mo)
       (mo_fresh mo 0) (mo_random mo) (car_name request) project (car_ref_patterns request) expires_at))) (\<lambda>created.
     case rev (access_token_info_from_records lib (cat_records created)) of
       [] \<Rightarrow> fail_io (status 400)
     | info # _ \<Rightarrow> return_io (Reply 200 (TokenCreatedBody \<lparr>cas_token = cat_token created, cas_info = info\<rparr>))))))"

definition list_access_tokens_handler ::
    "'k write_libs \<Rightarrow> ('o, 'w) write_app_state \<Rightarrow> moment \<Rightarrow> headers \<Rightarrow> string option \<Rightarrow> ('o, 'w, reply) handler" where
  "list_access_tokens_handler lib app mo headers project_text =
     bind_io (require_admin_headers app mo headers) (\<lambda>_.
     bind_io (pure_io (parse_optional_project project_text)) (\<lambda>project.
     bind_io (attempt (on_database (query_io (list_access_tokens (wl_platform lib) project)))) (\<lambda>records.
     return_io (Reply 200 (TokensBody (access_token_info_from_records lib records))))))"

definition revoke_access_token_handler ::
    "'k write_libs \<Rightarrow> ('o, 'w) write_app_state \<Rightarrow> moment \<Rightarrow> headers \<Rightarrow> string \<Rightarrow> ('o, 'w, reply) handler" where
  "revoke_access_token_handler lib app mo headers token =
     bind_io (require_admin_headers app mo headers) (\<lambda>_.
     bind_io (attempt (on_database (revoke_access_token (wl_platform lib) (mo_now mo) token))) (\<lambda>found.
     return_io (found_status found)))"

subsection \<open>The requests\<close>

datatype write_request =
    BeginBuild begin_build_request
  | RegisterPaths string register_paths_request
  | UploadObject string string string upload_reader
  | PresignPart string string part_number presign_multipart_upload_part_request
  | CompleteMultipart string string complete_multipart_upload_request
  | AbortMultipart string string abort_multipart_upload_request
  | FinalizeBuild string
  | ListPins "string option"
  | CreatePin string create_pin_request
  | DeletePin string "string option"
  | RunGc run_gc_request
  | ListProjects
  | UpsertProject upsert_project_request
  | ListOidcIdentities string
  | UpsertOidcIdentity string upsert_project_oidc_identity_request
  | DeleteOidcIdentity string delete_project_oidc_identity_request
  | GetRetention string
  | PutRetention string upsert_retention_policy_request
  | DeleteRetention string
  | GetSigningKey string
  | GenerateSigningKey string generate_signing_key_request
  | ImportSigningKey string import_signing_key_request
  | ListProjectUpstreams string
  | LinkUpstream string string
  | UnlinkUpstream string string
  | ListUpstreams
  | UpsertUpstream upsert_upstream_request
  | EnableUpstream string
  | DisableUpstream string
  | ListTokens "string option"
  | CreateToken create_access_token_request
  | RevokeToken string

definition handle_write ::
    "'k write_libs \<Rightarrow> ('o, 'w) write_app_state \<Rightarrow> moment \<Rightarrow> headers \<Rightarrow> write_request \<Rightarrow> ('o, 'w, reply) handler" where
  "handle_write lib app mo headers request =
     (case request of
        BeginBuild q \<Rightarrow> begin_build_handler lib app mo headers q
      | RegisterPaths b q \<Rightarrow> register_paths_handler lib app mo headers b q
      | UploadObject b h p body \<Rightarrow> upload_object_handler lib app mo headers b h p body
      | PresignPart b h n q \<Rightarrow> presign_part_handler lib app mo headers b h n q
      | CompleteMultipart b h q \<Rightarrow> complete_multipart_handler lib app mo headers b h q
      | AbortMultipart b h q \<Rightarrow> abort_multipart_handler lib app mo headers b h q
      | FinalizeBuild b \<Rightarrow> finalize_build_handler lib app mo headers b
      | ListPins p \<Rightarrow> list_pins_handler lib app mo headers p
      | CreatePin n q \<Rightarrow> create_pin_handler lib app mo headers n q
      | DeletePin n p \<Rightarrow> delete_pin_handler lib app mo headers n p
      | RunGc q \<Rightarrow> run_gc_handler lib app mo headers q
      | ListProjects \<Rightarrow> list_projects_handler lib app mo headers
      | UpsertProject q \<Rightarrow> upsert_project_handler lib app mo headers q
      | ListOidcIdentities p \<Rightarrow> list_project_oidc_identities_handler lib app mo headers p
      | UpsertOidcIdentity p q \<Rightarrow> upsert_project_oidc_identity_handler lib app mo headers p q
      | DeleteOidcIdentity p q \<Rightarrow> delete_project_oidc_identity_handler app mo headers p q
      | GetRetention p \<Rightarrow> get_retention_policy_handler app mo headers p
      | PutRetention p q \<Rightarrow> upsert_retention_policy_handler app mo headers p q
      | DeleteRetention p \<Rightarrow> delete_retention_policy_handler app mo headers p
      | GetSigningKey p \<Rightarrow> get_signing_key_handler lib app mo headers p
      | GenerateSigningKey p q \<Rightarrow> generate_signing_key_handler lib app mo headers p q
      | ImportSigningKey p q \<Rightarrow> import_signing_key_handler lib app mo headers p q
      | ListProjectUpstreams p \<Rightarrow> list_project_upstreams_handler lib app mo headers p
      | LinkUpstream p u \<Rightarrow> link_project_upstream_handler lib app mo headers p u
      | UnlinkUpstream p u \<Rightarrow> unlink_project_upstream_handler app mo headers p u
      | ListUpstreams \<Rightarrow> list_upstreams_handler lib app mo headers
      | UpsertUpstream q \<Rightarrow> upsert_upstream_handler lib app mo headers q
      | EnableUpstream u \<Rightarrow> set_upstream_enabled_handler app mo headers u True
      | DisableUpstream u \<Rightarrow> set_upstream_enabled_handler app mo headers u False
      | ListTokens p \<Rightarrow> list_access_tokens_handler lib app mo headers p
      | CreateToken q \<Rightarrow> create_access_token_handler lib app mo headers q
      | RevokeToken t \<Rightarrow> revoke_access_token_handler lib app mo headers t)"

text \<open>The reply of a request, early or not.\<close>

definition serve_write ::
    "'k write_libs \<Rightarrow> ('o, 'w) write_app_state \<Rightarrow> moment \<Rightarrow> headers \<Rightarrow> write_request \<Rightarrow> 'o \<times> database \<times> 'w \<Rightarrow>
     reply \<times> 'o \<times> database \<times> 'w" where
  "serve_write lib app mo headers request s =
     (case handle_write lib app mo headers request s of (r, s) \<Rightarrow> (case r of Inl reply \<Rightarrow> reply | Inr reply \<Rightarrow> reply, s))"

end
