(* ===== verification/WriteAccess.thy ===== *)
theory WriteAccess
  imports WriteHandlers
begin

text \<open>
  Who may do what through the write API: every request of \<open>WriteHandlers\<close> is guarded by the permission that
  it needs.
\<close>

subsection \<open>Who may do what\<close>

text \<open>The permission a request asks for, when it is well formed and the build it names is known.\<close>

datatype need = NeedAdmin | NeedProject project_slug | NeedRef project_slug string

definition build_need :: "platform \<Rightarrow> string \<Rightarrow> database \<Rightarrow> need option" where
  "build_need pf build_id db =
     Option.bind (uuid_parse pf build_id) (\<lambda>b.
     case get_build_context pf b db of
       Inr (Some c) \<Rightarrow> Some (NeedRef (ctx_project_slug c) (ctx_ref_name c))
     | _ \<Rightarrow> None)"

definition pin_need :: "string option \<Rightarrow> need option" where
  "pin_need project =
     (case parse_optional_project project of
        Inr (Some p) \<Rightarrow> Some (NeedProject p)
      | Inr None \<Rightarrow> Some NeedAdmin
      | Inl _ \<Rightarrow> None)"

definition request_need :: "platform \<Rightarrow> write_request \<Rightarrow> database \<Rightarrow> need option" where
  "request_need pf request db =
     (case request of
        BeginBuild q \<Rightarrow> (case slug_parse (bbr_project q) of Inr p \<Rightarrow> Some (NeedRef p (bbr_ref_name q)) | Inl _ \<Rightarrow> None)
      | RegisterPaths b q \<Rightarrow> build_need pf b db
      | UploadObject b h p body \<Rightarrow> build_need pf b db
      | PresignPart b h n q \<Rightarrow> build_need pf b db
      | CompleteMultipart b h q \<Rightarrow> build_need pf b db
      | AbortMultipart b h q \<Rightarrow> build_need pf b db
      | FinalizeBuild b \<Rightarrow> build_need pf b db
      | ListPins p \<Rightarrow> pin_need p
      | CreatePin n q \<Rightarrow> pin_need (cpr_project q)
      | DeletePin n p \<Rightarrow> pin_need p
      | _ \<Rightarrow> Some NeedAdmin)"

definition grants :: "platform \<Rightarrow> datetime \<Rightarrow> database \<Rightarrow> authenticated_identity \<Rightarrow> need \<Rightarrow> bool" where
  "grants pf now db x need =
     (case need of
        NeedAdmin \<Rightarrow> aid_kind x = BootstrapAdmin
      | NeedProject p \<Rightarrow> may_write_project pf now db x p
      | NeedRef p r \<Rightarrow> may_write_ref pf now db x p r)"

subsection \<open>Gates\<close>

text \<open>A gate keeps the database and the storages, and lets pass only where its condition holds. A guarded
  handler neither succeeds nor changes anything unless its condition holds.\<close>

definition gate ::
    "('o \<Rightarrow> bool) \<Rightarrow> ('a \<Rightarrow> database \<times> 'w \<Rightarrow> bool) \<Rightarrow> ('o, 'w, 'a) handler \<Rightarrow> bool" where
  "gate j Q m \<longleftrightarrow> (\<forall>s r s'. j (fst s) \<longrightarrow> m s = (r, s') \<longrightarrow> j (fst s') \<and> snd s' = snd s \<and> (\<forall>x. r = Inr x \<longrightarrow> Q x (snd s)))"

definition guarded :: "('o \<Rightarrow> bool) \<Rightarrow> (database \<times> 'w \<Rightarrow> bool) \<Rightarrow> ('o, 'w, 'a) handler \<Rightarrow> bool" where
  "guarded j P m \<longleftrightarrow> (\<forall>s r s'. j (fst s) \<longrightarrow> m s = (r, s') \<longrightarrow> j (fst s') \<and> (is_ok r \<or> snd s' \<noteq> snd s \<longrightarrow> P (snd s)))"

definition keeps_login :: "('o, 'w, 'a) handler \<Rightarrow> bool" where
  "keeps_login m \<longleftrightarrow> (\<forall>s r s'. m s = (r, s') \<longrightarrow> fst s' = fst s)"

named_theorems login_intros

lemma login_right [login_intros]: "keeps_login (attempt (on_right m))"
  by (auto simp: keeps_login_def attempt_def map_err_io_def on_right_def split: prod.splits)

lemma login_database [login_intros]: "keeps_login (attempt (on_database m))"
  unfolding on_database_def by (rule login_right)

lemma login_return [login_intros]: "keeps_login (return_io x)"
  by (simp add: keeps_login_def return_io_def)

lemma login_fail [login_intros]: "keeps_login (fail_io e)"
  by (simp add: keeps_login_def fail_io_def)

lemma login_pure [login_intros]: "keeps_login (pure_io r)"
  by (simp add: keeps_login_def pure_io_def)

lemma login_checked [login_intros]: "keeps_login (checked r)"
  unfolding checked_def by (rule login_pure)

lemma login_bind [login_intros]: "keeps_login m \<Longrightarrow> (\<And>x. keeps_login (f x)) \<Longrightarrow> keeps_login (bind_io m f)"
proof -
  assume m: "keeps_login m" and f: "\<And>x. keeps_login (f x)"
  show ?thesis unfolding keeps_login_def
  proof (intro allI impI)
    fix s r s' assume "bind_io m f s = (r, s')"
    then show "fst s' = fst s"
    proof (cases rule: bind_io_cases)
      case (1 e)
      then show ?thesis using m unfolding keeps_login_def by blast
    next
      case (2 x s1)
      have "fst s1 = fst s" using m 2(1) unfolding keeps_login_def by blast
      moreover have "fst s' = fst s1" using f[of x] 2(2) unfolding keeps_login_def by blast
      ultimately show ?thesis by simp
    qed
  qed
qed

lemma login_if [login_intros]: "keeps_login a \<Longrightarrow> keeps_login b \<Longrightarrow> keeps_login (if c then a else b)"
  by simp

lemma login_option [login_intros]:
  "keeps_login a \<Longrightarrow> (\<And>x. keeps_login (f x)) \<Longrightarrow> keeps_login (case m of None \<Rightarrow> a | Some x \<Rightarrow> f x)"
  by (cases m) auto

lemma login_list [login_intros]:
  "keeps_login a \<Longrightarrow> (\<And>x xs. keeps_login (f x xs)) \<Longrightarrow> keeps_login (case l of [] \<Rightarrow> a | x # xs \<Rightarrow> f x xs)"
  by (cases l) auto

lemma gateD:
  "gate j Q m \<Longrightarrow> j (fst s) \<Longrightarrow> m s = (r, s') \<Longrightarrow> j (fst s') \<and> snd s' = snd s \<and> (\<forall>x. r = Inr x \<longrightarrow> Q x (snd s))"
  unfolding gate_def by blast

lemma loginD: "keeps_login m \<Longrightarrow> m s = (r, s') \<Longrightarrow> fst s' = fst s"
  unfolding keeps_login_def by blast

lemma guarded_gate:
  assumes "gate j Q m" "\<And>x. keeps_login (f x)" "\<And>x c. Q x c \<Longrightarrow> P c"
  shows "guarded j P (bind_io m f)"
  unfolding guarded_def
proof (intro allI impI)
  fix s r s' assume j: "j (fst s)" and run: "bind_io m f s = (r, s')"
  from run show "j (fst s') \<and> (is_ok r \<or> snd s' \<noteq> snd s \<longrightarrow> P (snd s))"
  proof (cases rule: bind_io_cases)
    case (1 e)
    then show ?thesis using gateD[OF assms(1) j 1(1)] by (auto simp: is_ok_iff)
  next
    case (2 x s1)
    then show ?thesis using gateD[OF assms(1) j 2(1)] loginD[OF assms(2) 2(2)] assms(3)[of x "snd s"] by simp
  qed
qed

lemma guarded_pure:
  assumes "\<And>x. r = Inr x \<Longrightarrow> guarded j P (f x)"
  shows "guarded j P (bind_io (pure_io r) f)"
proof (cases r)
  case (Inr x)
  then show ?thesis using assms[OF Inr] by (simp add: guarded_def bind_io_def pure_io_def)
qed (simp add: guarded_def bind_io_def pure_io_def is_ok_iff)

lemma guarded_checked: "(\<And>x. r = Inr x \<Longrightarrow> guarded j P (f x)) \<Longrightarrow> guarded j P (bind_io (checked r) f)"
  unfolding checked_def by (rule guarded_pure) simp

lemma gate_bind:
  assumes "gate j Q m" "\<And>x. gate j (\<lambda>y c. Q x c \<longrightarrow> R y c) (f x)"
  shows "gate j R (bind_io m f)"
  unfolding gate_def
proof (intro allI impI)
  fix s r s' assume j: "j (fst s)" and run: "bind_io m f s = (r, s')"
  from run show "j (fst s') \<and> snd s' = snd s \<and> (\<forall>y. r = Inr y \<longrightarrow> R y (snd s))"
  proof (cases rule: bind_io_cases)
    case (1 e)
    then show ?thesis using gateD[OF assms(1) j 1(1)] by auto
  next
    case (2 x s1)
    note m = gateD[OF assms(1) j 2(1)]
    then have "j (fst s1)" by simp
    from gateD[OF assms(2) this 2(2)] m show ?thesis by simp
  qed
qed

subsection \<open>A server with a sound authorizer\<close>

text \<open>The identity of the bearer is genuine and may do what is needed.\<close>

definition allowed ::
    "platform \<Rightarrow> moment \<Rightarrow> headers \<Rightarrow> (datetime \<Rightarrow> database \<times> 'w \<Rightarrow> string \<Rightarrow> authenticated_identity \<Rightarrow> bool) \<Rightarrow> need \<Rightarrow>
     database \<times> 'w \<Rightarrow> bool" where
  "allowed pf mo headers g need c \<longleftrightarrow> (\<exists>tok x. bearer_from_headers headers = Some tok \<and>
     g (mo_authenticated mo) c tok x \<and> grants pf (mo_authorized mo) (fst c) x need)"

definition may_request ::
    "platform \<Rightarrow> moment \<Rightarrow> headers \<Rightarrow> (datetime \<Rightarrow> database \<times> 'w \<Rightarrow> string \<Rightarrow> authenticated_identity \<Rightarrow> bool) \<Rightarrow>
     write_request \<Rightarrow> database \<times> 'w \<Rightarrow> bool" where
  "may_request pf mo headers g request c \<longleftrightarrow>
     (\<exists>need. request_need pf request (fst c) = Some need \<and> allowed pf mo headers g need c)"

lemma authorized_by_gate: "gate j (\<lambda>_ c. \<exists>p. q (fst c) = Inr p) (authorized_by q)"
  by (auto simp: gate_def authorized_by_def)

lemma gate_weaken: "gate j Q m \<Longrightarrow> (\<And>x c. Q x c \<Longrightarrow> R x c) \<Longrightarrow> gate j R m"
  unfolding gate_def by blast

lemma authorize_admin_iff: "authorize_admin x = Inr p \<Longrightarrow> aid_kind x = BootstrapAdmin"
  by (auto simp: authorize_admin_def split: identity_kind.splits)

lemma authorize_ref_ok: "authorize_project_ref pf now x slug rname db = Inr p \<Longrightarrow> may_write_ref pf now db x slug rname"
  using authorize_ref_iff[of pf now x slug rname db] by (auto simp: is_ok_iff)

lemma authorize_project_ok: "authorize_project pf now x slug db = Inr p \<Longrightarrow> may_write_project pf now db x slug"
  using authorize_project_iff[of pf now x slug db] by (auto simp: is_ok_iff)

locale write_server =
  fixes app :: "('o, 'w) write_app_state"
    and g :: "datetime \<Rightarrow> database \<times> 'w \<Rightarrow> string \<Rightarrow> authenticated_identity \<Rightarrow> bool" and j :: "'o \<Rightarrow> bool"
  assumes sound: "authorizer (was_authorizer app t) (g t) (\<lambda>s. j (fst s)) snd"
begin

lemma authenticated_gate:
  "gate j (\<lambda>x c. \<exists>tok. bearer_from_headers headers = Some tok \<and> g (mo_authenticated mo) c tok x)
    (authenticated app mo headers)"
  unfolding gate_def
proof (intro allI impI)
  fix s :: "'o \<times> database \<times> 'w" and r s'
  assume j: "j (fst s)" and run: "authenticated app mo headers s = (r, s')"
  obtain r1 s1 where a: "was_authorizer app (mo_authenticated mo) (bearer_from_headers headers) s = (r1, s1)"
    by (cases "was_authorizer app (mo_authenticated mo) (bearer_from_headers headers) s")
  have "s' = s1 \<and> (\<forall>x. r = Inr x \<longrightarrow> r1 = Inr x)"
    using run a by (auto simp: authenticated_def map_err_io_def authenticate_headers_def split: sum.splits prod.splits)
  then show "j (fst s') \<and> snd s' = snd s \<and> (\<forall>x. r = Inr x \<longrightarrow>
      (\<exists>tok. bearer_from_headers headers = Some tok \<and> g (mo_authenticated mo) (snd s) tok x))"
    using authorizer.authorized[OF sound, where s = s, OF j a] by blast
qed

lemma admin_gate: "gate j (\<lambda>_. allowed pf mo headers g NeedAdmin) (require_admin_headers app mo headers)"
  unfolding require_admin_headers_def
proof (rule gate_bind[OF authenticated_gate])
  fix x
  show "gate j (\<lambda>y c. (\<exists>tok. bearer_from_headers headers = Some tok \<and> g (mo_authenticated mo) c tok x) \<longrightarrow>
      allowed pf mo headers g NeedAdmin c) (authorized_by (\<lambda>db. authorize_admin x))"
    by (rule gate_weaken[OF authorized_by_gate]) (auto simp: allowed_def grants_def dest: authorize_admin_iff)
qed

lemma ref_gate:
  "gate j (\<lambda>_. allowed pf mo headers g (NeedRef project rname)) (require_project_ref_headers pf app mo headers project rname)"
  unfolding require_project_ref_headers_def
proof (rule gate_bind[OF authenticated_gate])
  fix x
  show "gate j (\<lambda>y c. (\<exists>tok. bearer_from_headers headers = Some tok \<and> g (mo_authenticated mo) c tok x) \<longrightarrow>
      allowed pf mo headers g (NeedRef project rname) c) (authorized_by (authorize_project_ref pf (mo_authorized mo) x project rname))"
    by (rule gate_weaken[OF authorized_by_gate]) (auto simp: allowed_def grants_def dest: authorize_ref_ok)
qed

lemma project_gate:
  "gate j (\<lambda>_. allowed pf mo headers g (case project of Some p \<Rightarrow> NeedProject p | None \<Rightarrow> NeedAdmin))
    (require_project_or_admin_headers pf app mo headers project)"
proof (cases project)
  case None
  then show ?thesis using admin_gate[of pf mo headers] by (simp add: require_admin_headers_def require_project_or_admin_headers_def)
next
  case (Some p)
  have "gate j (\<lambda>_. allowed pf mo headers g (NeedProject p)) (bind_io (authenticated app mo headers)
      (\<lambda>x. authorized_by (authorize_project pf (mo_authorized mo) x p)))"
  proof (rule gate_bind[OF authenticated_gate])
    fix x
    show "gate j (\<lambda>y c. (\<exists>tok. bearer_from_headers headers = Some tok \<and> g (mo_authenticated mo) c tok x) \<longrightarrow>
        allowed pf mo headers g (NeedProject p) c) (authorized_by (authorize_project pf (mo_authorized mo) x p))"
      by (rule gate_weaken[OF authorized_by_gate]) (auto simp: allowed_def grants_def dest: authorize_project_ok)
  qed
  then show ?thesis by (simp add: Some require_project_or_admin_headers_def)
qed

lemma build_gate:
  assumes "uuid_parse pf build_id = Some b"
  shows "gate j (\<lambda>_ c. \<exists>need. build_need pf build_id (fst c) = Some need \<and> allowed pf mo headers g need c)
    (require_build_access pf app mo headers b)"
  unfolding require_build_access_def
proof (rule gate_bind)
  show "gate j (\<lambda>found c. get_build_context pf b (fst c) = Inr found) (attempt (on_database (query_io (get_build_context pf b))))"
    by (auto simp: gate_def attempt_def map_err_io_def on_database_def on_right_def on_left_def query_io_def split: prod.splits)
next
  fix found
  show "gate j (\<lambda>y c. get_build_context pf b (fst c) = Inr found \<longrightarrow>
      (\<exists>need. build_need pf build_id (fst c) = Some need \<and> allowed pf mo headers g need c))
    (case found of None \<Rightarrow> fail_io (status 400)
     | Some ctx \<Rightarrow> require_project_ref_headers pf app mo headers (ctx_project_slug ctx) (ctx_ref_name ctx))"
  proof (cases found)
    case None
    then show ?thesis by (simp add: gate_def fail_io_def)
  next
    case (Some ctx)
    then show ?thesis
      using gate_weaken[OF ref_gate, of pf mo headers "ctx_project_slug ctx" "ctx_ref_name ctx"] assms
      by (simp add: build_need_def)
  qed
qed

end

context write_server
begin

lemma admin_guarded:
  assumes "\<And>x. keeps_login (f x)"
  shows "guarded j (allowed pf mo headers g NeedAdmin) (bind_io (require_admin_headers app mo headers) f)"
  by (rule guarded_gate[OF admin_gate assms])

lemma with_project_guarded:
  assumes "\<And>p. keeps_login (act p)"
  shows "guarded j (allowed pf mo headers g NeedAdmin) (with_project app mo headers project act)"
  unfolding with_project_def by (rule admin_guarded) (intro login_intros assms)

lemma with_kek_guarded:
  assumes "\<And>k p. keeps_login (act k p)"
  shows "guarded j (allowed pf mo headers g NeedAdmin) (with_kek app mo headers project act)"
  unfolding with_kek_def by (rule admin_guarded) (intro login_intros assms)

lemma with_build_guarded:
  assumes "\<And>b. keeps_login (act b)"
  shows "guarded j (\<lambda>c. \<exists>need. build_need (wl_platform lib) build_id (fst c) = Some need \<and> allowed (wl_platform lib) mo headers g need c)
    (with_build lib app mo headers build_id act)"
  unfolding with_build_def
proof (rule guarded_checked)
  fix b assume "ok_or () (uuid_parse (wl_platform lib) build_id) = Inr b"
  then have b: "uuid_parse (wl_platform lib) build_id = Some b" by simp
  show "guarded j (\<lambda>c. \<exists>need. build_need (wl_platform lib) build_id (fst c) = Some need \<and> allowed (wl_platform lib) mo headers g need c)
      (bind_io (require_build_access (wl_platform lib) app mo headers b) (\<lambda>_. act b))"
    by (rule guarded_gate[OF build_gate[OF b] assms])
qed

lemma pin_guarded:
  assumes "\<And>p x. keeps_login (f p x)"
  shows "guarded j (\<lambda>c. \<exists>need. pin_need project = Some need \<and> allowed pf mo headers g need c)
    (bind_io (pure_io (parse_optional_project project)) (\<lambda>p.
     bind_io (require_project_or_admin_headers pf app mo headers p) (f p)))"
proof (rule guarded_pure)
  fix p assume p: "parse_optional_project project = Inr p"
  show "guarded j (\<lambda>c. \<exists>need. pin_need project = Some need \<and> allowed pf mo headers g need c)
      (bind_io (require_project_or_admin_headers pf app mo headers p) (f p))"
    by (rule guarded_gate[OF project_gate assms]) (auto simp: pin_need_def p split: option.splits)
qed

lemma begin_guarded:
  "guarded j (\<lambda>c. \<exists>need. (case slug_parse (bbr_project q) of Inr p \<Rightarrow> Some (NeedRef p (bbr_ref_name q)) | Inl _ \<Rightarrow> None) = Some need \<and>
      allowed (wl_platform lib) mo headers g need c)
    (begin_build_handler lib app mo headers q)"
  unfolding begin_build_handler_def
proof (rule guarded_checked)
  fix p assume p: "slug_parse (bbr_project q) = Inr p"
  show "guarded j (\<lambda>c. \<exists>need. (case slug_parse (bbr_project q) of Inr p \<Rightarrow> Some (NeedRef p (bbr_ref_name q)) | Inl _ \<Rightarrow> None) = Some need \<and>
      allowed (wl_platform lib) mo headers g need c)
    (bind_io (require_project_ref_headers (wl_platform lib) app mo headers p (bbr_ref_name q)) (\<lambda>_.
     bind_io (attempt (on_right (ingest_begin_build (wl_platform lib) (mo_now mo) (mo_fresh mo 0) q))) (\<lambda>response.
     return_io (Reply 200 (BeginBuildBody response)))))"
    by (rule guarded_gate[OF ref_gate]) (intro login_intros, simp add: p)
qed

end

lemmas build_handler_defs = register_paths_handler_def upload_object_handler_def presign_part_handler_def
  complete_multipart_handler_def abort_multipart_handler_def finalize_build_handler_def

lemmas project_handler_defs = list_project_oidc_identities_handler_def upsert_project_oidc_identity_handler_def
  delete_project_oidc_identity_handler_def get_retention_policy_handler_def upsert_retention_policy_handler_def
  delete_retention_policy_handler_def get_signing_key_handler_def list_project_upstreams_handler_def
  link_project_upstream_handler_def unlink_project_upstream_handler_def

lemmas kek_handler_defs = generate_signing_key_handler_def import_signing_key_handler_def

lemmas pin_handler_defs = list_pins_handler_def create_pin_handler_def delete_pin_handler_def

lemmas admin_handler_defs = run_gc_handler_def list_projects_handler_def upsert_project_handler_def
  list_upstreams_handler_def upsert_upstream_handler_def set_upstream_enabled_handler_def
  create_access_token_handler_def list_access_tokens_handler_def revoke_access_token_handler_def

context write_server
begin

lemma write_guarded:
  "guarded j (may_request (wl_platform lib) mo headers g request) (handle_write lib app mo headers request)"
proof -
  have weak: "guarded j (may_request (wl_platform lib) mo headers g request) m"
    if "guarded j P m" "\<And>c. P c \<Longrightarrow> may_request (wl_platform lib) mo headers g request c" for P and m :: "('o, 'w, reply) handler"
    using that unfolding guarded_def by blast
  note need = may_request_def request_need_def
  show ?thesis
  proof (cases request)
    case (BeginBuild q)
    show ?thesis by (rule weak, simp add: handle_write_def BeginBuild, rule begin_guarded) (simp add: need BeginBuild)
  qed (rule weak, simp add: handle_write_def build_handler_defs project_handler_defs kek_handler_defs pin_handler_defs
      admin_handler_defs Let_def split del: if_split,
    ((rule with_build_guarded with_project_guarded with_kek_guarded pin_guarded admin_guarded, intro login_intros)[1]),
    simp add: need)+
qed

end

subsection \<open>Failures are errors of HTTP\<close>

definition fails_high :: "('o, 'w, 'a) handler \<Rightarrow> bool" where
  "fails_high m \<longleftrightarrow> (\<forall>s e s'. m s = (Inl e, s') \<longrightarrow> 400 \<le> reply_status e)"

named_theorems fail_intros

lemma failsD: "fails_high m \<Longrightarrow> m s = (Inl e, s') \<Longrightarrow> 400 \<le> reply_status e"
  unfolding fails_high_def by blast

lemma fails_attempt [fail_intros]: "fails_high (attempt m)"
  by (auto simp: fails_high_def attempt_def map_err_io_def map_err_Inl status_def split: prod.splits)

lemma fails_checked [fail_intros]: "fails_high (checked r)"
  by (auto simp: fails_high_def checked_def pure_io_def map_err_Inl status_def)

lemma fails_status [fail_intros]: "fails_high (fail_io (status 400))" "fails_high (fail_io (status 503))"
  by (auto simp: fails_high_def fail_io_def status_def)

lemma fails_return [fail_intros]: "fails_high (return_io x)"
  by (auto simp: fails_high_def return_io_def)

lemma authorization_error_high: "400 \<le> reply_status (authorization_error_response e)"
  by (cases e) (auto simp: authorization_error_response_def status_def)

lemma fails_authenticated [fail_intros]: "fails_high (authenticated app mo headers)"
  using authorization_error_high
  by (auto simp: fails_high_def authenticated_def map_err_io_def map_err_Inl split: prod.splits)

lemma fails_authorized [fail_intros]: "fails_high (authorized_by q)"
  using authorization_error_high by (auto simp: fails_high_def authorized_by_def and_then_Inl map_err_Inl)

lemma fails_bind [fail_intros]:
  assumes "fails_high m" "\<And>x. fails_high (f x)"
  shows "fails_high (bind_io m f)"
  unfolding fails_high_def
proof (intro allI impI)
  fix s e s' assume "bind_io m f s = (Inl e, s')"
  then show "400 \<le> reply_status e"
    by (cases rule: bind_io_cases) (use failsD[OF assms(1)] failsD[OF assms(2)] in auto)
qed

lemma fails_option [fail_intros]:
  "fails_high a \<Longrightarrow> (\<And>x. fails_high (f x)) \<Longrightarrow> fails_high (case m of None \<Rightarrow> a | Some x \<Rightarrow> f x)"
  by (cases m) auto

lemma fails_list [fail_intros]:
  "fails_high a \<Longrightarrow> (\<And>x xs. fails_high (f x xs)) \<Longrightarrow> fails_high (case l of [] \<Rightarrow> a | x # xs \<Rightarrow> f x xs)"
  by (cases l) auto

lemma fails_if [fail_intros]: "fails_high a \<Longrightarrow> fails_high b \<Longrightarrow> fails_high (if c then a else b)"
  by simp

lemma fails_parse_project [fail_intros]: "fails_high (pure_io (parse_optional_project p))"
  by (auto simp: fails_high_def pure_io_def parse_optional_project_def and_then_Inl map_err_Inl status_def split: option.splits)

lemmas access_defs = require_admin_headers_def require_project_or_admin_headers_def require_project_ref_headers_def
  require_build_access_def with_build_def with_project_def with_kek_def begin_build_handler_def

lemma write_fails_high: "fails_high (handle_write lib app mo headers request)"
  by (cases request; simp only: handle_write_def write_request.case build_handler_defs project_handler_defs
    kek_handler_defs pin_handler_defs admin_handler_defs access_defs Let_def; intro fail_intros)

subsection \<open>The server\<close>

text \<open>The states that requests lead to.\<close>

inductive write_run ::
    "'k write_libs \<Rightarrow> ('o, 'w) write_app_state \<Rightarrow> 'o \<times> database \<times> 'w \<Rightarrow> 'o \<times> database \<times> 'w \<Rightarrow> bool"
  for lib app s where
  start: "write_run lib app s s"
| request: "write_run lib app s s1 \<Longrightarrow> serve_write lib app mo headers request s1 = (reply, s2) \<Longrightarrow> write_run lib app s s2"

inductive_cases write_runE: "write_run lib app s s'"

context write_server
begin

lemma serve_guarded:
  assumes "j (fst s)" "serve_write lib app mo headers request s = (reply, s')"
  shows "j (fst s') \<and> (reply_status reply < 400 \<or> snd s' \<noteq> snd s \<longrightarrow>
    may_request (wl_platform lib) mo headers g request (snd s))"
proof -
  obtain r where run: "handle_write lib app mo headers request s = (r, s')"
    and reply: "reply = (case r of Inl e \<Rightarrow> e | Inr e \<Rightarrow> e)"
    using assms(2) by (auto simp: serve_write_def split: prod.splits)
  have "reply_status reply < 400 \<Longrightarrow> is_ok r"
    using failsD[OF write_fails_high[of lib app mo headers request], of s _ s'] run reply
    by (cases r) (auto simp: is_ok_iff)
  then show ?thesis using write_guarded[of lib mo headers request] assms(1) run unfolding guarded_def by blast
qed

lemma run_keeps: "write_run lib app s s' \<Longrightarrow> j (fst s) \<Longrightarrow> j (fst s')"
  by (induction rule: write_run.induct) (use serve_guarded in blast)+

end

definition server_genuine ::
    "platform \<Rightarrow> (bytes \<Rightarrow> bytes) \<Rightarrow> (bytes \<Rightarrow> string) \<Rightarrow> 'j jwt_library \<Rightarrow> 's oidc_http_client \<Rightarrow> string option \<Rightarrow>
     oidc_config option \<Rightarrow> datetime \<Rightarrow> database \<times> 'w \<Rightarrow> string \<Rightarrow> authenticated_identity \<Rightarrow> bool" where
  "server_genuine pf sha256 hexenc jl http write_token oidc now c tok x \<longleftrightarrow>
     default_genuine pf jl http write_token oidc tok x \<or> token_genuine pf sha256 hexenc now (fst c) tok x"

definition server_app ::
    "'k write_libs \<Rightarrow> 'j jwt_library \<Rightarrow> 's oidc_http_client \<Rightarrow> string option \<Rightarrow> oidc_config option \<Rightarrow>
     'w storage_catalog \<Rightarrow> store_dir \<Rightarrow> 'w upstream_client \<Rightarrow> key_encryption_key option \<Rightarrow>
     ('j oidc_cache \<times> 's, 'w) write_app_state" where
  "server_app lib jl http write_token oidc catalog d client kek =
     \<lparr>was_catalog = catalog,
      was_ingest = \<lparr>ing_store_dir = d, ing_catalog = catalog, ing_client = client\<rparr>, was_gc_catalog = catalog,
      was_authorizer = (\<lambda>now. build_write_authorizer (wl_platform lib) (wl_sha256 lib) (wl_hex lib) now
        (build_default_authorizer (wl_platform lib) jl http write_token oidc)),
      was_kek = kek\<rparr>"

lemma server_is_write_server:
  assumes "\<forall>config. oidc = Some config \<longrightarrow> distinct (map fst (oc_providers config))"
  shows "write_server (server_app lib jl http write_token oidc catalog d client kek)
    (server_genuine (wl_platform lib) (wl_sha256 lib) (wl_hex lib) jl http write_token oidc) (default_inv jl http oidc)"
proof (rule write_server.intro)
  fix t
  have eq: "server_genuine (wl_platform lib) (wl_sha256 lib) (wl_hex lib) jl http write_token oidc t =
      (\<lambda>c tok x. default_genuine (wl_platform lib) jl http write_token oidc tok x \<or>
        token_genuine (wl_platform lib) (wl_sha256 lib) (wl_hex lib) t (fst c) tok x)"
    by (intro ext) (simp add: server_genuine_def)
  show "authorizer (was_authorizer (server_app lib jl http write_token oidc catalog d client kek) t)
      (server_genuine (wl_platform lib) (wl_sha256 lib) (wl_hex lib) jl http write_token oidc t)
      (\<lambda>s. default_inv jl http oidc (fst s)) snd"
    unfolding eq using server_sound[OF assms] by (simp add: server_app_def)
qed

interpretation token_server: write_server "server_app lib jl http write_token None catalog d client kek"
  "server_genuine (wl_platform lib) (wl_sha256 lib) (wl_hex lib) jl http write_token None" "default_inv jl http None"
  for lib jl http write_token catalog d client kek
  by (rule server_is_write_server) simp

text \<open>C2 (the write API). At any time in the life of a server, a request that changes the database or a
  storage, or that is answered with anything but an error, bears a token of a genuine identity: the configured
  write token, an OIDC token of a configured issuer, or an active access token; and the rows of the database
  grant this identity what the request needs: to write to the ref of the build, to the project of the pin, or
  to be the administrator.\<close>

theorem write_needs_permission:
  assumes "\<forall>config. oidc = Some config \<longrightarrow> distinct (map fst (oc_providers config))"
    "app = server_app lib jl http write_token oidc catalog d client kek"
    "write_run lib app ((\<lambda>_. None, net), db, w) s"
    "serve_write lib app mo headers request s = (reply, s')"
    "reply_status reply < 400 \<or> snd s' \<noteq> snd s"
  shows "may_request (wl_platform lib) mo headers
    (server_genuine (wl_platform lib) (wl_sha256 lib) (wl_hex lib) jl http write_token oidc) request (snd s)"
proof -
  note srv = server_is_write_server[OF assms(1), of lib jl http write_token catalog d client kek, folded assms(2)]
  have "default_inv jl http oidc (fst ((\<lambda>_. None, net), db, w))"
    by (simp add: default_inv_def cache_ok_def split: option.splits)
  from write_server.run_keeps[OF srv assms(3) this] have "default_inv jl http oidc (fst s)" .
  from write_server.serve_guarded[OF srv this assms(4)] assms(5) show ?thesis by blast
qed

subsection \<open>A server\<close>

definition granted_db :: database where
  "granted_db = demo_db\<lparr>db_oidc := [\<lparr>oi_project = ''p1'', oi_provider = ''ci'', oi_repository = ''o/r'',
     oi_pattern = ''m*'', oi_created_at = ''0''\<rparr>]\<rparr>"

theorem authorization_is_policy_witness: "may_write_ref std_platform 7 granted_db demo_identity demo ''main''"
proof -
  let ?r = "authorize_project_ref std_platform 7 demo_identity demo ''main'' granted_db"
  have "is_ok ?r" by code_simp
  then obtain p where r: "?r = Inr p" by (auto simp: is_ok_iff)
  then show ?thesis using authorization_is_policy[of std_platform 7 demo_identity demo "''main''" granted_db] by simp
qed

definition demo_lib :: "bool write_libs" where
  "demo_lib = \<lparr>wl_platform = std_platform, wl_regexes = std_regexes, wl_b64 = no_base64, wl_crypto = toy_crypto,
     wl_sha256 = (\<lambda>b. b), wl_hex = (\<lambda>b. []), wl_show_time = (\<lambda>t. []), wl_url_valid = (\<lambda>u. True)\<rparr>"

definition demo_app :: "(string oidc_cache \<times> unit, storage_id \<Rightarrow> file_system) write_app_state" where
  "demo_app = server_app demo_lib demo_jwt (static_fetch_text demo_answers) None (Some demo_oidc) gc_catalog default_nix
     no_upstreams None"

definition demo_moment :: moment where
  "demo_moment = \<lparr>mo_authenticated = 7, mo_authorized = 7, mo_now = 7, mo_clear = 7, mo_mark = 7, mo_list = 7,
     mo_fresh = (\<lambda>n. ''b2''), mo_random = ([], []), mo_seed = Inl [], mo_nonce = Inl []\<rparr>"

definition demo_headers :: headers where
  "demo_headers = [(''authorization'', map (of_nat \<circ> of_char) ''Bearer h.c.s'')]"

definition demo_request :: write_request where
  "demo_request = BeginBuild \<lparr>bbr_project = ''demo'', bbr_ref_name = ''main'', bbr_revision = None\<rparr>"

theorem write_needs_permission_witness:
  "may_request std_platform demo_moment demo_headers (server_genuine std_platform (\<lambda>b. b) (\<lambda>b. []) demo_jwt
     (static_fetch_text demo_answers :: unit oidc_http_client) None (Some demo_oidc)) demo_request (granted_db, nar_files None)"
proof -
  let ?s = "((\<lambda>_. None, ()), granted_db, nar_files None)"
  obtain reply s' where run: "serve_write demo_lib demo_app demo_moment demo_headers demo_request ?s = (reply, s')"
    by (cases "serve_write demo_lib demo_app demo_moment demo_headers demo_request ?s")
  have "reply_status (fst (serve_write demo_lib demo_app demo_moment demo_headers demo_request ?s)) = 200" by code_simp
  then have "reply_status reply < 400" unfolding run by simp
  moreover have "\<forall>config. Some demo_oidc = Some config \<longrightarrow> distinct (map fst (oc_providers config))" by (simp add: demo_oidc_def)
  ultimately show ?thesis
    using write_needs_permission[OF _ demo_app_def write_run.start run] by (simp add: demo_lib_def)
qed

end
