(* ===== verification/DbInvariant.thy ===== *)
theory DbInvariant
  imports DbKeys DbTokens DbGc
begin

text \<open>
  The invariant of the database of \<^verbatim>\<open>crates/depot-db\<close>: the keys of the migrations are unique, their foreign
  keys are valid, a pin names the store path of its hash, a ref publishes a finalized build of its own project
  and name, and a project has at most one active signing key. Every operation of the program keeps it.
\<close>

subsection \<open>The tables\<close>

definition projects_ok :: "project_row list \<Rightarrow> bool" where
  "projects_ok t \<longleftrightarrow> unique_key prow_id t \<and> unique_key prow_slug t"

definition upstreams_ok :: "upstream_row list \<Rightarrow> bool" where
  "upstreams_ok t \<longleftrightarrow> unique_key urow_id t \<and> unique_key urow_name t"

definition links_ok :: "string set \<Rightarrow> string set \<Rightarrow> (string \<times> string) list \<Rightarrow> bool" where
  "links_ok pids uids t \<longleftrightarrow> unique_key (\<lambda>r. r) t \<and> (\<forall>(p, u)\<in>set t. p \<in> pids \<and> u \<in> uids)"

definition infos_ok :: "path_info_row list \<Rightarrow> bool" where
  "infos_ok t \<longleftrightarrow> unique_key pirow_hash t \<and> unique_key pirow_store_path t"

definition texts_ok :: "string set \<Rightarrow> path_text_row list \<Rightarrow> bool" where
  "texts_ok hs t \<longleftrightarrow> unique_key pt_key t \<and> pt_hash ` set t \<subseteq> hs"

definition path_objects_ok :: "string set \<Rightarrow> path_object_row list \<Rightarrow> bool" where
  "path_objects_ok hs t \<longleftrightarrow> unique_key po_key t \<and> po_hash ` set t \<subseteq> hs"

definition builds_ok :: "string set \<Rightarrow> build_row list \<Rightarrow> bool" where
  "builds_ok pids t \<longleftrightarrow> unique_key brow_id t \<and> brow_project_id ` set t \<subseteq> pids"

definition build_paths_ok :: "string set \<Rightarrow> string set \<Rightarrow> build_path_row list \<Rightarrow> bool" where
  "build_paths_ok bids hs t \<longleftrightarrow> unique_key bp_key t \<and> bp_build ` set t \<subseteq> bids \<and> bp_hash ` set t \<subseteq> hs"

definition published_by :: "build_row list \<Rightarrow> project_ref_row \<Rightarrow> bool" where
  "published_by builds r \<longleftrightarrow> (\<exists>b\<in>set builds. brow_id b = ref_build r \<and> brow_project_id b = ref_project r \<and>
     brow_ref_name b = ref_name r \<and> brow_status b = status_str Finalized)"

definition refs_ok :: "build_row list \<Rightarrow> project_ref_row list \<Rightarrow> bool" where
  "refs_ok builds t \<longleftrightarrow> unique_key ref_key t \<and> (\<forall>r\<in>set t. published_by builds r)"

definition pin_ok :: "string set \<Rightarrow> (string \<times> string) set \<Rightarrow> pin_row \<Rightarrow> bool" where
  "pin_ok pids paths r \<longleftrightarrow> (pin_hash r, pin_store_path r) \<in> paths \<and>
     (case pin_project r of None \<Rightarrow> pin_scope r = GLOBAL_SCOPE_KEY | Some p \<Rightarrow> pin_scope r = p \<and> p \<in> pids)"

definition pins_ok :: "string set \<Rightarrow> (string \<times> string) set \<Rightarrow> pin_row list \<Rightarrow> bool" where
  "pins_ok pids paths t \<longleftrightarrow> unique_key pin_key t \<and> (\<forall>r\<in>set t. pin_ok pids paths r)"

definition tokens_ok :: "string set \<Rightarrow> access_token_row list \<Rightarrow> bool" where
  "tokens_ok pids t \<longleftrightarrow> unique_key at_id t \<and> unique_key at_token_hash t \<and> at_project ` set t \<subseteq> pids"

definition patterns_ok :: "string set \<Rightarrow> token_pattern_row list \<Rightarrow> bool" where
  "patterns_ok tids t \<longleftrightarrow> unique_key tp_key t \<and> tp_token ` set t \<subseteq> tids"

definition oidc_ok :: "string set \<Rightarrow> oidc_identity_row list \<Rightarrow> bool" where
  "oidc_ok pids t \<longleftrightarrow> unique_key oi_key t \<and> oi_project ` set t \<subseteq> pids"

definition policies_ok :: "string set \<Rightarrow> retention_policy_row list \<Rightarrow> bool" where
  "policies_ok pids t \<longleftrightarrow> unique_key rp_project t \<and> rp_project ` set t \<subseteq> pids"

definition rules_ok :: "string set \<Rightarrow> retention_rule_row list \<Rightarrow> bool" where
  "rules_ok pids t \<longleftrightarrow> unique_key rr_id t \<and> unique_key rr_key t \<and> rr_project ` set t \<subseteq> pids"

definition active_key :: "signing_key_row \<Rightarrow> bool" where
  "active_key k \<longleftrightarrow> sk_retired_at k = None"

definition signing_keys_ok :: "string set \<Rightarrow> signing_key_row list \<Rightarrow> bool" where
  "signing_keys_ok pids t \<longleftrightarrow> unique_key sk_id t \<and> unique_key sk_project (filter active_key t) \<and> sk_project ` set t \<subseteq> pids"

subsection \<open>The invariant\<close>

abbreviation project_ids :: "database \<Rightarrow> string set" where
  "project_ids db \<equiv> prow_id ` set (db_projects db)"

abbreviation path_hashes :: "database \<Rightarrow> string set" where
  "path_hashes db \<equiv> pirow_hash ` set (db_path_infos db)"

definition db_ok :: "database \<Rightarrow> bool" where
  "db_ok db \<longleftrightarrow>
     projects_ok (db_projects db) \<and> upstreams_ok (db_upstreams db) \<and>
     links_ok (project_ids db) (urow_id ` set (db_upstreams db)) (db_project_upstreams db) \<and>
     infos_ok (db_path_infos db) \<and> texts_ok (path_hashes db) (db_references db) \<and>
     texts_ok (path_hashes db) (db_signatures db) \<and> unique_key so_key (db_objects db) \<and>
     builds_ok (project_ids db) (db_builds db) \<and>
     build_paths_ok (brow_id ` set (db_builds db)) (path_hashes db) (db_build_paths db) \<and>
     refs_ok (db_builds db) (db_refs db) \<and> path_objects_ok (path_hashes db) (db_path_objects db) \<and>
     pins_ok (project_ids db) (path_pair ` set (db_path_infos db)) (db_pins db) \<and>
     oidc_ok (project_ids db) (db_oidc db) \<and> tokens_ok (project_ids db) (db_tokens db) \<and>
     patterns_ok (at_id ` set (db_tokens db)) (db_token_patterns db) \<and>
     policies_ok (project_ids db) (db_policies db) \<and> rules_ok (project_ids db) (db_rules db) \<and>
     signing_keys_ok (project_ids db) (db_keys db)"

lemma empty_db_ok: "db_ok empty_db"
  by (simp add: db_ok_def empty_db_def projects_ok_def upstreams_ok_def links_ok_def infos_ok_def texts_ok_def
    builds_ok_def build_paths_ok_def refs_ok_def path_objects_ok_def pins_ok_def oidc_ok_def tokens_ok_def
    patterns_ok_def policies_ok_def rules_ok_def signing_keys_ok_def unique_key_def)

text \<open>More projects, upstreams and paths do no harm.\<close>

lemma project_ids_mono:
  assumes "pids \<subseteq> pids'"
  shows "links_ok pids uids l \<Longrightarrow> links_ok pids' uids l" "builds_ok pids b \<Longrightarrow> builds_ok pids' b"
    "pins_ok pids ps pn \<Longrightarrow> pins_ok pids' ps pn" "oidc_ok pids oi \<Longrightarrow> oidc_ok pids' oi"
    "tokens_ok pids tk \<Longrightarrow> tokens_ok pids' tk" "policies_ok pids pol \<Longrightarrow> policies_ok pids' pol"
    "rules_ok pids ru \<Longrightarrow> rules_ok pids' ru" "signing_keys_ok pids ks \<Longrightarrow> signing_keys_ok pids' ks"
  using assms by (auto simp: links_ok_def builds_ok_def pins_ok_def pin_ok_def oidc_ok_def tokens_ok_def policies_ok_def
    rules_ok_def signing_keys_ok_def split: option.splits)

lemma path_hashes_mono:
  assumes "hs \<subseteq> hs'"
  shows "texts_ok hs t \<Longrightarrow> texts_ok hs' t" "build_paths_ok bids hs bp \<Longrightarrow> build_paths_ok bids hs' bp"
    "path_objects_ok hs po \<Longrightarrow> path_objects_ok hs' po"
  using assms by (auto simp: texts_ok_def build_paths_ok_def path_objects_ok_def)

lemma pins_mono: "ps \<subseteq> ps' \<Longrightarrow> pins_ok pids ps t \<Longrightarrow> pins_ok pids ps' t"
  by (auto simp: pins_ok_def pin_ok_def)

lemma links_mono: "uids \<subseteq> uids' \<Longrightarrow> links_ok pids uids t \<Longrightarrow> links_ok pids uids' t"
  by (auto simp: links_ok_def)

lemma build_ids_mono: "bids \<subseteq> bids' \<Longrightarrow> build_paths_ok bids hs t \<Longrightarrow> build_paths_ok bids' hs t"
  by (auto simp: build_paths_ok_def)

lemma refs_mono: "(\<And>r. published_by bs r \<Longrightarrow> published_by bs' r) \<Longrightarrow> refs_ok bs t \<Longrightarrow> refs_ok bs' t"
  by (auto simp: refs_ok_def)

lemma ignore_within: "k r \<in> A \<Longrightarrow> k ` set t \<subseteq> A \<Longrightarrow> k ` set (insert_ignore key r t) \<subseteq> A"
  using set_insert_ignore[of key r t] by blast

lemma update_keys:
  assumes "\<And>x. x \<in> set t \<Longrightarrow> p x \<Longrightarrow> key (f x) = key x"
  shows "key ` set (update_rows p f t) = key ` set t"
proof -
  have "set (map key (update_rows p f t)) = set (map key t)" using map_update_key[of t p key f] assms by simp
  then show ?thesis by (simp only: set_map)
qed

lemma upsert_keys: "(\<And>x. key x = key r \<Longrightarrow> k (f x r) = k x) \<Longrightarrow> k ` set t \<subseteq> k ` set (upsert_row key f r t)"
proof
  fix y assume k: "\<And>x. key x = key r \<Longrightarrow> k (f x r) = k x" and "y \<in> k ` set t"
  then obtain x where x: "x \<in> set t" "y = k x" by blast
  let ?x = "if key x = key r then f x r else x"
  have "?x \<in> set (upsert_row key f r t)" 
  proof (cases "key x = key r")
    case True
    then have "has_key key (key r) t" using x(1) unfolding has_key_iff by (metis image_eqI)
    then show ?thesis using x(1) True by (auto simp: set_upsert)
  qed (use x(1) in \<open>auto simp: set_upsert\<close>)
  moreover have "y = k ?x" using k x(2) by simp
  ultimately show "y \<in> k ` set (upsert_row key f r t)" by blast
qed

subsection \<open>Projects and upstreams\<close>

lemma keeps_lookup:
  assumes "\<And>s x. P s \<Longrightarrow> q s = Inr x \<Longrightarrow> P (snd (f x s))"
  shows "keeps P (bind_io (query_io q) f)"
  using assms by (auto simp: keeps_def bind_io_def query_io_def split: sum.splits)

lemma keeps_after: "P (snd (m s)) \<Longrightarrow> (\<And>x. keeps P (f x)) \<Longrightarrow> P (snd (bind_io m f s))"
  by (auto simp: keeps_def bind_io_def split: prod.splits sum.splits)

lemma tx_failed: "fst (tx_io t s) = Inl e \<Longrightarrow> snd (tx_io t s) = s"
  by (cases "t s") (auto simp: tx_io_def)

lemma keeps_fk:
  assumes "\<And>s. P s \<Longrightarrow> b s \<Longrightarrow> P (g s)"
  shows "keeps P (tx_io (\<lambda>s. and_then (foreign_key (b s)) (\<lambda>_. Inr ((), g s))))"
  by (rule keeps_tx) (use assms in auto)

lemma project_id_mem: "project_id_by_slug slug db = Inr pid \<Longrightarrow> pid \<in> project_ids db"
  unfolding project_id_by_slug_Inr using find_project_Some by blast

lemma insert_project_ok [inv_intros]: "keeps db_ok (insert_project pf now fresh slug dname public sid)"
  unfolding insert_project_def
proof (rule keeps_tx)
  fix s :: database and x s'
  let ?row = "\<lparr>prow_id = fresh, prow_slug = slug_str slug, prow_display_name = dname, prow_public = (if public then 1 else 0),
    prow_storage_id = storage_id_str sid, prow_created_at = sql_now pf now\<rparr> :: project_row"
  let ?f = "\<lambda>old excluded :: project_row. old\<lparr>prow_display_name := prow_display_name excluded,
    prow_public := prow_public excluded, prow_storage_id := prow_storage_id excluded\<rparr>"
  let ?t = "upsert_row prow_slug ?f ?row (db_projects s)"
  assume ok: "db_ok s" and run: "(let row = ?row in
      if \<not> has_key prow_slug (prow_slug row) (db_projects s) \<and> has_key prow_id fresh (db_projects s)
      then Inl (Anyhow ''inserting project'') else Inr ((), s\<lparr>db_projects := upsert_row prow_slug ?f row (db_projects s)\<rparr>)) = Inr (x, s')"
  then have s': "s' = s\<lparr>db_projects := ?t\<rparr>" and new: "has_key prow_slug (slug_str slug) (db_projects s) \<or> \<not> has_key prow_id fresh (db_projects s)"
    by (auto simp: Let_def split: if_splits)
  have u: "unique_key prow_id (db_projects s)" "unique_key prow_slug (db_projects s)" using ok by (auto simp: db_ok_def projects_ok_def)
  have "unique_key prow_slug ?t" using u(2) by (intro unique_upsert) simp_all
  moreover have "unique_key prow_id ?t"
  proof (cases "has_key prow_slug (slug_str slug) (db_projects s)")
    case True
    then show ?thesis using unique_update[OF u(1)] by (simp add: upsert_row_def)
  next
    case False
    then show ?thesis using unique_append[OF u(1), of ?row] new by (simp add: upsert_row_def)
  qed
  ultimately have "projects_ok ?t" by (simp add: projects_ok_def)
  moreover have m: "project_ids s \<subseteq> prow_id ` set ?t" by (rule upsert_keys) simp
  ultimately show "db_ok s'" using ok project_ids_mono[OF m] by (simp add: db_ok_def s')
qed

lemma upsert_upstream_ok [inv_intros]: "keeps db_ok (upsert_upstream_cache_by_name pf now fresh name url priority enabled)"
  unfolding upsert_upstream_cache_by_name_def
proof (rule keeps_tx)
  fix s :: database and x s'
  let ?old = "map_option urow_id (fetch_optional (\<lambda>r. urow_name r = name) (db_upstreams s))"
  let ?row = "\<lparr>urow_id = (case ?old of Some i \<Rightarrow> i | None \<Rightarrow> fresh), urow_name = name,
    urow_base_url = trim_end_char (CHR ''/'') url, urow_priority = uint priority,
    urow_enabled = (if enabled then 1 else 0), urow_created_at = sql_now pf now\<rparr> :: upstream_row"
  let ?f = "\<lambda>old excluded :: upstream_row. old\<lparr>urow_base_url := urow_base_url excluded,
    urow_priority := urow_priority excluded, urow_enabled := urow_enabled excluded\<rparr>"
  let ?t = "upsert_row urow_name ?f ?row (db_upstreams s)"
  assume ok: "db_ok s" and "(let existing_id = ?old; upstream_id = (case existing_id of Some i \<Rightarrow> i | None \<Rightarrow> fresh);
      row = \<lparr>urow_id = upstream_id, urow_name = name, urow_base_url = trim_end_char (CHR ''/'') url,
        urow_priority = uint priority, urow_enabled = (if enabled then 1 else 0), urow_created_at = sql_now pf now\<rparr> in
      if existing_id = None \<and> has_key urow_id upstream_id (db_upstreams s)
      then Inl (Anyhow ''upserting upstream cache by name'')
      else Inr ((), s\<lparr>db_upstreams := upsert_row urow_name ?f row (db_upstreams s)\<rparr>)) = Inr (x, s')"
  then have s': "s' = s\<lparr>db_upstreams := ?t\<rparr>" and new: "?old = None \<longrightarrow> \<not> has_key urow_id fresh (db_upstreams s)"
    by (auto simp: Let_def split: if_splits)
  have u: "unique_key urow_id (db_upstreams s)" "unique_key urow_name (db_upstreams s)" using ok by (auto simp: db_ok_def upstreams_ok_def)
  have "unique_key urow_name ?t" using u(2) by (intro unique_upsert) simp_all
  moreover have "unique_key urow_id ?t"
  proof (cases "has_key urow_name name (db_upstreams s)")
    case True
    then show ?thesis using unique_update[OF u(1)] by (simp add: upsert_row_def)
  next
    case False
    then have "?old = None" by (auto simp: has_key_iff fetch_optional_None)
    then show ?thesis using unique_append[OF u(1), of ?row] new False by (simp add: upsert_row_def)
  qed
  ultimately have "upstreams_ok ?t" by (simp add: upstreams_ok_def)
  moreover have "urow_id ` set (db_upstreams s) \<subseteq> urow_id ` set ?t" by (rule upsert_keys) simp
  ultimately show "db_ok s'" using ok links_mono by (simp add: db_ok_def s')
qed

lemma set_enabled_ok [inv_intros]: "keeps db_ok (set_upstream_enabled name enabled)"
  unfolding set_upstream_enabled_def
proof (rule keeps_tx)
  fix s :: database and x s'
  let ?t = "update_rows (\<lambda>r. urow_name r = name) (\<lambda>r. r\<lparr>urow_enabled := (if enabled then 1 else 0)\<rparr>) (db_upstreams s)"
  assume ok: "db_ok s" and "Inr (has_key urow_name name (db_upstreams s), s\<lparr>db_upstreams := ?t\<rparr>) = Inr (x, s')"
  then have s': "s' = s\<lparr>db_upstreams := ?t\<rparr>" by simp
  have "upstreams_ok (db_upstreams s)" using ok by (simp add: db_ok_def)
  then have "upstreams_ok ?t" by (simp add: upstreams_ok_def unique_update)
  moreover have "urow_id ` set ?t = urow_id ` set (db_upstreams s)" by (rule update_keys) simp
  ultimately show "db_ok s'" using ok by (simp add: db_ok_def s')
qed

lemma link_ok [inv_intros]: "keeps db_ok (link_project_upstream slug upstream_id)"
  unfolding link_project_upstream_def
proof (rule keeps_tx)
  fix s :: database and x s'
  assume ok: "db_ok s" and run: "and_then (project_id_by_slug slug s) (\<lambda>project_id.
      and_then (foreign_key (has_key urow_id upstream_id (db_upstreams s))) (\<lambda>_.
      Inr ((), s\<lparr>db_project_upstreams := insert_ignore (\<lambda>r. r) (project_id, upstream_id) (db_project_upstreams s)\<rparr>))) = Inr (x, s')"
  then obtain pid where p: "project_id_by_slug slug s = Inr pid" "upstream_id \<in> urow_id ` set (db_upstreams s)"
    and s': "s' = s\<lparr>db_project_upstreams := insert_ignore (\<lambda>r. r) (pid, upstream_id) (db_project_upstreams s)\<rparr>"
    by (auto simp: has_key_iff)
  have l: "links_ok (project_ids s) (urow_id ` set (db_upstreams s)) (db_project_upstreams s)" using ok by (simp add: db_ok_def)
  have "links_ok (project_ids s) (urow_id ` set (db_upstreams s)) (insert_ignore (\<lambda>r. r) (pid, upstream_id) (db_project_upstreams s))"
    using l unique_ignore[of "\<lambda>r. r"] set_insert_ignore[of "\<lambda>r. r" "(pid, upstream_id)" "db_project_upstreams s"] project_id_mem[OF p(1)] p(2)
    by (fastforce simp: links_ok_def)
  then show "db_ok s'" using ok by (simp add: db_ok_def s')
qed

lemma link_by_name_ok [inv_intros]: "keeps db_ok (link_project_upstream_by_name pf slug name)"
  unfolding link_project_upstream_by_name_def
  by (intro inv_intros) (auto intro: inv_intros split: option.splits)

lemma unlink_ok [inv_intros]: "keeps db_ok (unlink_project_upstream_by_name slug name)"
  unfolding unlink_project_upstream_by_name_def
  by (rule keeps_tx) (auto simp: Let_def db_ok_def links_ok_def unique_delete)

subsection \<open>Paths and objects\<close>

lemma insert_texts_ok:
  assumes "texts_ok hs t" "insert_rows pt_key (text_rows h xs) t = Inr t'"
  shows "texts_ok (insert h hs) t'"
proof -
  have "t' = t @ text_rows h xs" by (rule insert_rows_Inr[OF assms(2)])
  moreover have "unique_key pt_key t'" using assms insert_rows_unique by (auto simp: texts_ok_def)
  moreover have "pt_hash ` set (text_rows h xs) \<subseteq> {h}" by (auto simp: text_rows_def)
  ultimately show ?thesis using assms(1) by (auto simp: texts_ok_def)
qed

lemma upsert_path_ok [inv_intros]: "keeps db_ok (upsert_path_info b64 n)"
  unfolding upsert_path_info_def
proof (rule keeps_tx)
  fix s :: database and x s'
  assume ok: "db_ok s" and run: "and_then (path_info_row_of b64 n) (\<lambda>row.
       if has_key pirow_hash (pirow_hash row) (db_path_infos s) \<or>
          has_key pirow_store_path (pirow_store_path row) (db_path_infos s)
       then and_then (get_path_info_by_hash (StorePathHash (pirow_hash row)) s) (\<lambda>existing.
            and_then (ok_or (Anyhow ''path_info disappeared during validation'') existing) (\<lambda>existing.
            and_then (ensure_compatible_path_info b64 existing n) (\<lambda>_. Inr ((), s))))
       else and_then (insert_rows pt_key (text_rows (pirow_hash row) (ni_references n)) (db_references s))
              (\<lambda>references.
            and_then (insert_rows pt_key (text_rows (pirow_hash row) (ni_signatures n)) (db_signatures s))
              (\<lambda>signatures.
            Inr ((), s\<lparr>db_path_infos := db_path_infos s @ [row], db_references := references,
              db_signatures := signatures\<rparr>)))) = Inr (x, s')"
  then obtain row where row: "path_info_row_of b64 n = Inr row" by auto
  show "db_ok s'"
  proof (cases "has_key pirow_hash (pirow_hash row) (db_path_infos s) \<or>
      has_key pirow_store_path (pirow_store_path row) (db_path_infos s)")
    case True
    then show ?thesis using run row ok by auto
  next
    case False
    then obtain rs sg where t: "insert_rows pt_key (text_rows (pirow_hash row) (ni_references n)) (db_references s) = Inr rs"
      "insert_rows pt_key (text_rows (pirow_hash row) (ni_signatures n)) (db_signatures s) = Inr sg"
      and s': "s' = s\<lparr>db_path_infos := db_path_infos s @ [row], db_references := rs, db_signatures := sg\<rparr>"
      using run row by auto
    have "infos_ok (db_path_infos s @ [row])" using ok False by (auto simp: db_ok_def infos_ok_def intro!: unique_append)
    moreover have "texts_ok (insert (pirow_hash row) (path_hashes s)) rs" "texts_ok (insert (pirow_hash row) (path_hashes s)) sg"
      using ok insert_texts_ok[OF _ t(1)] insert_texts_ok[OF _ t(2)] by (auto simp: db_ok_def)
    moreover have "path_hashes s \<subseteq> insert (pirow_hash row) (path_hashes s)" by blast
    note path_hashes_mono[OF this]
    moreover have "path_pair ` set (db_path_infos s) \<subseteq> insert (path_pair row) (path_pair ` set (db_path_infos s))" by blast
    note pins_mono[OF this]
    ultimately show ?thesis using ok by (simp add: db_ok_def s')
  qed
qed

lemma upsert_object_ok [inv_intros]: "keeps db_ok (upsert_storage_object pf sid p m)"
  unfolding upsert_storage_object_def
  by (rule keeps_tx) (auto simp: db_ok_def Let_def so_key_def intro!: unique_upsert)

lemma link_object_ok [inv_intros]: "keeps db_ok (link_path_object h p kind)"
  unfolding link_path_object_def
proof (rule keeps_fk)
  fix s
  let ?r = "\<lparr>po_hash = hash_str h, po_path = p, po_kind = kind_str kind\<rparr>"
  assume ok: "db_ok s" and "has_key pirow_hash (hash_str h) (db_path_infos s)"
  then have h: "hash_str h \<in> path_hashes s" by (simp add: has_key_iff)
  have "path_objects_ok (path_hashes s) (db_path_objects s)" using ok by (simp add: db_ok_def)
  then have "path_objects_ok (path_hashes s) (insert_ignore po_key ?r (db_path_objects s))"
    using h unique_ignore[of po_key "db_path_objects s" ?r] ignore_within[of po_hash ?r "path_hashes s" "db_path_objects s" po_key]
    by (simp add: path_objects_ok_def)
  then show "db_ok (s\<lparr>db_path_objects := insert_ignore po_key ?r (db_path_objects s)\<rparr>)" using ok by (simp add: db_ok_def)
qed

subsection \<open>Garbage collection\<close>

lemma clear_ok [inv_intros]: "keeps db_ok (clear_deleted_state_for_live_storage_objects pf now)"
  unfolding clear_deleted_state_for_live_storage_objects_def
  by (intro inv_intros keeps_tx) (auto simp: db_ok_def so_key_def intro!: unique_update)

lemma mark_ok [inv_intros]: "keeps db_ok (mark_stale_storage_objects pf now)"
  unfolding mark_stale_storage_objects_def
  by (intro inv_intros keeps_tx) (auto simp: db_ok_def so_key_def intro!: unique_update)

lemma unique_fold_delete: "unique_key key t \<Longrightarrow> unique_key key (fold (\<lambda>x. delete_rows (p x)) xs t)"
  by (induction xs arbitrary: t) (auto intro: unique_delete)

lemma delete_objects_ok [inv_intros]: "keeps db_ok (delete_storage_objects objects)"
  unfolding delete_storage_objects_def
  by (intro keeps_tx) (auto simp: db_ok_def intro!: unique_fold_delete)

subsection \<open>Builds and refs\<close>

lemma begin_build_ok [inv_intros]: "keeps db_ok (begin_build pf now fresh project rname revision)"
  unfolding begin_build_def
proof (rule keeps_lookup)
  fix s :: database and pid
  assume ok: "db_ok s" and p: "project_id_by_slug project s = Inr pid"
  let ?r = "\<lparr>brow_id = fresh, brow_project_id = pid, brow_ref_name = rname, brow_revision = revision,
    brow_status = status_str Pending, brow_created_at = sql_now pf now, brow_finalized_at = None\<rparr>"
  let ?m = "\<lambda>db. and_then (context_err ''inserting build'' (insert_row brow_id ?r (db_builds db))) (\<lambda>builds. Inr ((), db\<lparr>db_builds := builds\<rparr>))"
  let ?f = "\<lambda>_ :: unit. bind_io (query_io (get_build pf fresh)) (\<lambda>found.
    pure_io (ok_or (Anyhow (''build '' @ fresh @ '' not found after insert'')) found))"
  have b: "builds_ok (project_ids s) (db_builds s)" and r: "refs_ok (db_builds s) (db_refs s)" using ok by (simp_all add: db_ok_def)
  have tx: "db_ok (snd (tx_io ?m s))"
  proof (cases "insert_row brow_id ?r (db_builds s)")
    case (Inl e)
    then show ?thesis using ok by (simp add: tx_io_def context_err_def)
  next
    case (Inr bs)
    then have bs: "bs = db_builds s @ [?r]" unfolding insert_row_def by (simp split: if_splits)
    have "unique_key brow_id bs" using Inr unique_insert[of brow_id "db_builds s" ?r bs] b by (simp add: builds_ok_def)
    then have b': "builds_ok (project_ids s) bs" using bs b project_id_mem[OF p] by (simp add: builds_ok_def)
    have "published_by bs q" if "published_by (db_builds s) q" for q using that unfolding published_by_def bs by auto
    then have r': "refs_ok bs (db_refs s)" using r by (rule refs_mono)
    have "brow_id ` set (db_builds s) \<subseteq> brow_id ` set bs" using bs by auto
    note build_ids_mono[OF this]
    then have "db_ok (s\<lparr>db_builds := bs\<rparr>)" using ok b' r' by (simp add: db_ok_def)
    then show ?thesis using Inr by (simp add: tx_io_def context_err_def)
  qed
  have "keeps db_ok (?f x)" for x by (intro inv_intros)
  with tx show "db_ok (snd (bind_io (tx_io ?m) ?f s))" by (rule keeps_after)
qed

lemma attach_ok [inv_intros]: "keeps db_ok (attach_build_path build_id h)"
  unfolding attach_build_path_def
proof (rule keeps_fk)
  fix s
  let ?r = "\<lparr>bp_build = build_id, bp_hash = hash_str h\<rparr>"
  assume ok: "db_ok s" and "has_key brow_id build_id (db_builds s) \<and> has_key pirow_hash (hash_str h) (db_path_infos s)"
  then have fk: "build_id \<in> brow_id ` set (db_builds s)" "hash_str h \<in> path_hashes s" by (simp_all add: has_key_iff)
  have "build_paths_ok (brow_id ` set (db_builds s)) (path_hashes s) (db_build_paths s)" using ok by (simp add: db_ok_def)
  then have "build_paths_ok (brow_id ` set (db_builds s)) (path_hashes s) (insert_ignore bp_key ?r (db_build_paths s))"
    using fk unique_ignore[of bp_key "db_build_paths s" ?r]
      ignore_within[of bp_build ?r "brow_id ` set (db_builds s)" "db_build_paths s" bp_key]
      ignore_within[of bp_hash ?r "path_hashes s" "db_build_paths s" bp_key]
    by (simp add: build_paths_ok_def)
  then show "db_ok (s\<lparr>db_build_paths := insert_ignore bp_key ?r (db_build_paths s)\<rparr>)" using ok by (simp add: db_ok_def)
qed

text \<open>Publishing keeps the invariant when the build was begun for this ref.\<close>

definition begun_for :: "uuid \<Rightarrow> project_slug \<Rightarrow> string \<Rightarrow> database \<Rightarrow> bool" where
  "begun_for build_id project rname db \<longleftrightarrow> (\<exists>b\<in>set (db_builds db). \<exists>p\<in>set (db_projects db). brow_id b = build_id \<and>
     prow_id p = brow_project_id b \<and> prow_slug p = slug_str project \<and> brow_ref_name b = rname)"

lemma publish_db_ok:
  assumes "db_ok s" "begun_for build_id project rname s"
  shows "db_ok (snd (publish_build_to_ref pf now project rname build_id s))"
proof (cases "fst (publish_build_to_ref pf now project rname build_id s)")
  case (Inl e)
  then have "snd (publish_build_to_ref pf now project rname build_id s) = s"
    by (cases "project_id_by_slug project s"; cases "rfc3339_format pf now")
      (simp_all add: publish_build_to_ref_def bind_io_def query_io_def pure_io_def tx_failed)
  then show ?thesis using assms(1) by simp
next
  case (Inr u)
  then have "publish_build_to_ref pf now project rname build_id s = (Inr (), snd (publish_build_to_ref pf now project rname build_id s))"
    by (cases "publish_build_to_ref pf now project rname build_id s") simp
  from publish_Inr[OF this] obtain q0 fin where q0: "find_project project s = Some q0" and fin: "rfc3339_format pf now = Some fin"
    and refs: "db_refs (snd (publish_build_to_ref pf now project rname build_id s)) =
      upsert_row ref_key (\<lambda>old excluded. old\<lparr>ref_build := ref_build excluded, ref_updated_at := sql_now pf now\<rparr>)
        \<lparr>ref_project = prow_id q0, ref_name = rname, ref_build = build_id, ref_updated_at = sql_now pf now\<rparr> (db_refs s)"
    and builds: "db_builds (snd (publish_build_to_ref pf now project rname build_id s)) = update_rows (\<lambda>b. brow_id b = build_id)
        (\<lambda>b. b\<lparr>brow_status := status_str Finalized, brow_finalized_at := Some fin\<rparr>) (db_builds s)"
    and s': "snd (publish_build_to_ref pf now project rname build_id s) = s\<lparr>
      db_refs := db_refs (snd (publish_build_to_ref pf now project rname build_id s)),
      db_builds := db_builds (snd (publish_build_to_ref pf now project rname build_id s))\<rparr>"
    by blast
  let ?pid = "prow_id q0"
  let ?row = "\<lparr>ref_project = ?pid, ref_name = rname, ref_build = build_id, ref_updated_at = sql_now pf now\<rparr>"
  let ?refs = "upsert_row ref_key (\<lambda>old excluded. old\<lparr>ref_build := ref_build excluded, ref_updated_at := sql_now pf now\<rparr>)
    ?row (db_refs s)"
  let ?fin = "\<lambda>b. b\<lparr>brow_status := status_str Finalized, brow_finalized_at := Some fin\<rparr>"
  let ?builds = "update_rows (\<lambda>b. brow_id b = build_id) ?fin (db_builds s)"
  have ids: "brow_id ` set ?builds = brow_id ` set (db_builds s)" "brow_project_id ` set ?builds = brow_project_id ` set (db_builds s)"
    by (rule update_keys, simp)+
  have b: "builds_ok (project_ids s) ?builds"
    using assms(1) ids unique_update[of brow_id "db_builds s" "\<lambda>b. brow_id b = build_id" ?fin]
    by (simp add: db_ok_def builds_ok_def)
  have old: "published_by ?builds r" if "published_by (db_builds s) r" for r
  proof -
    from that obtain x where x: "x \<in> set (db_builds s)" "brow_id x = ref_build r" "brow_project_id x = ref_project r"
      "brow_ref_name x = ref_name r" "brow_status x = status_str Finalized" unfolding published_by_def by blast
    let ?x = "if brow_id x = build_id then ?fin x else x"
    have "?x \<in> set ?builds" using x(1) by auto
    then show ?thesis unfolding published_by_def using x by (intro bexI[of _ ?x]) auto
  qed
  from assms(2) obtain x q where x: "x \<in> set (db_builds s)" "brow_id x = build_id" "brow_ref_name x = rname"
    and q: "q \<in> set (db_projects s)" "prow_id q = brow_project_id x" "prow_slug q = slug_str project"
    unfolding begun_for_def by blast
  have "?pid = brow_project_id x"
  proof -
    have "unique_key prow_slug (db_projects s)" using assms(1) by (simp add: db_ok_def projects_ok_def)
    from unique_inj[OF this q(1)] find_project_Some[OF q0] q(3) have "q = q0" by simp
    then show ?thesis using q(2) by simp
  qed
  then have new: "published_by ?builds (\<lparr>ref_project = ?pid, ref_name = rname, ref_build = build_id, ref_updated_at = t\<rparr>)" for t
    unfolding published_by_def using x update_rows_changed[of x "db_builds s" "\<lambda>b. brow_id b = build_id" ?fin]
    by (intro bexI[of _ "?fin x"]) auto
  have "published_by ?builds r" if "r \<in> set ?refs" for r
  proof -
    have r: "r \<in> set (db_refs s) \<or> ref_project r = ?pid \<and> ref_name r = rname \<and> ref_build r = build_id"
      using upsert_from[OF that] by (auto simp: ref_key_def)
    show ?thesis
    proof (cases "r \<in> set (db_refs s)")
      case True
      then show ?thesis using old assms(1) by (auto simp: db_ok_def refs_ok_def)
    next
      case False
      then show ?thesis using new[of t] r by (auto simp: published_by_def)
    qed
  qed
  moreover have "unique_key ref_key ?refs" using assms(1) by (intro unique_upsert) (auto simp: db_ok_def refs_ok_def ref_key_def)
  ultimately have "refs_ok ?builds ?refs" by (simp add: refs_ok_def)
  then have "db_ok (s\<lparr>db_refs := ?refs, db_builds := ?builds\<rparr>)" using assms(1) b ids(1) by (simp add: db_ok_def)
  then show ?thesis using s' unfolding refs builds by simp
qed

subsection \<open>Pins\<close>

lemma pin_scope_ok:
  "pin_scope_of project db = Inr (scope, pid) \<Longrightarrow>
     (case pid of None \<Rightarrow> scope = GLOBAL_SCOPE_KEY | Some p \<Rightarrow> scope = p \<and> p \<in> project_ids db)"
  by (auto simp: pin_scope_of_def dest: project_id_mem split: option.splits)

lemma upsert_pin_ok [inv_intros]: "keeps db_ok (upsert_pin pf now name project h store_path)"
  unfolding upsert_pin_def
proof (rule keeps_tx)
  fix s :: database and x s'
  let ?f = "\<lambda>old excluded. old\<lparr>pin_project := pin_project excluded, pin_hash := pin_hash excluded,
    pin_store_path := pin_store_path excluded, pin_updated_at := sql_now pf now\<rparr>"
  assume ok: "db_ok s" and run: "and_then (pin_scope_of project s) (\<lambda>(scope_key, project_id).
       and_then (ok_or (Anyhow (''cannot pin unknown store path hash '' @ hash_str h))
         (map_option pirow_store_path (fetch_optional (\<lambda>r. pirow_hash r = hash_str h) (db_path_infos s)))) (\<lambda>existing_store_path.
       if existing_store_path \<noteq> store_path
       then Inl (Anyhow (''pin store path '' @ store_path @ '' does not match registered path '' @ existing_store_path))
       else Inr ((), s\<lparr>db_pins := upsert_row pin_key ?f
         \<lparr>pin_scope = scope_key, pin_name = name, pin_project = project_id, pin_hash = hash_str h,
          pin_store_path = store_path, pin_created_at = sql_now pf now, pin_updated_at = sql_now pf now\<rparr>
         (db_pins s)\<rparr>))) = Inr (x, s')"
  then obtain scope pid r where sc: "pin_scope_of project s = Inr (scope, pid)"
    and r: "fetch_optional (\<lambda>r. pirow_hash r = hash_str h) (db_path_infos s) = Some r" "pirow_store_path r = store_path"
    and s': "s' = s\<lparr>db_pins := upsert_row pin_key ?f
         \<lparr>pin_scope = scope, pin_name = name, pin_project = pid, pin_hash = hash_str h,
          pin_store_path = store_path, pin_created_at = sql_now pf now, pin_updated_at = sql_now pf now\<rparr> (db_pins s)\<rparr>"
    by (auto split: if_splits)
  let ?row = "\<lparr>pin_scope = scope, pin_name = name, pin_project = pid, pin_hash = hash_str h,
          pin_store_path = store_path, pin_created_at = sql_now pf now, pin_updated_at = sql_now pf now\<rparr>"
  let ?paths = "path_pair ` set (db_path_infos s)"
  have pins: "pins_ok (project_ids s) ?paths (db_pins s)" using ok by (simp add: db_ok_def)
  have "path_pair r = (hash_str h, store_path)" "r \<in> set (db_path_infos s)"
    using fetch_optional_Some[OF r(1)] r(2) by (simp_all add: path_pair_def)
  then have "(hash_str h, store_path) \<in> ?paths" by (metis image_eqI)
  then have new: "pin_ok (project_ids s) ?paths ?row" using pin_scope_ok[OF sc] by (simp add: pin_ok_def split: option.splits)
  have "pin_ok (project_ids s) ?paths q" if "q \<in> set (upsert_row pin_key ?f ?row (db_pins s))" for q
  proof (cases "q \<in> set (db_pins s)")
    case True
    then show ?thesis using pins by (simp add: pins_ok_def)
  next
    case False
    then have "q = ?row \<or> (\<exists>old\<in>set (db_pins s). pin_key old = pin_key ?row \<and> q = ?f old ?row)"
      using upsert_from[OF that] by blast
    then have "pin_scope q = scope \<and> pin_project q = pid \<and> pin_hash q = hash_str h \<and> pin_store_path q = store_path"
      by (auto simp: pin_key_def)
    then show ?thesis using new by (cases pid) (simp_all add: pin_ok_def)
  qed
  moreover have "unique_key pin_key (upsert_row pin_key ?f ?row (db_pins s))"
    using pins by (intro unique_upsert) (simp_all add: pins_ok_def pin_key_def)
  ultimately show "db_ok s'" using ok by (simp add: db_ok_def s' pins_ok_def)
qed

lemma delete_pin_ok [inv_intros]: "keeps db_ok (delete_pin name project)"
  unfolding delete_pin_def by (rule keeps_tx) (auto simp: db_ok_def pins_ok_def unique_delete)

subsection \<open>Tokens, identities, retention and keys\<close>

lemma insert_rows_image: "insert_rows key rs t = Inr t' \<Longrightarrow> k ` set t' = k ` set t \<union> k ` set rs"
  by (drule insert_rows_Inr) auto

lemma keeps_if: "(c \<Longrightarrow> keeps P a) \<Longrightarrow> (\<not> c \<Longrightarrow> keeps P b) \<Longrightarrow> keeps P (if c then a else b)"
  by simp

lemma create_token_ok [inv_intros]:
  "keeps db_ok (create_access_token pf sha256 hexenc now fresh random name project ref_patterns expires_at)"
  unfolding create_access_token_def Let_def
proof (intro inv_intros keeps_tx keeps_if, goal_cases)
  case (1 pid exp s x s')
  let ?hash = "hash_access_token sha256 hexenc (generate_access_token (fst random) (snd random))"
  let ?rows = "map (\<lambda>p. \<lparr>tp_token = fresh, tp_pattern = p\<rparr>) (normalize_patterns ref_patterns)"
  let ?row = "\<lparr>at_id = fresh, at_token_hash = ?hash, at_name = trim name, at_project = pid, at_created_at = sql_now pf now,
    at_expires_at = exp, at_revoked_at = None\<rparr>"
  from 1(3) obtain ps where new: "\<not> has_key at_id fresh (db_tokens s)" "\<not> has_key at_token_hash ?hash (db_tokens s)"
    and pid: "has_key prow_id pid (db_projects s)" and ps: "insert_rows tp_key ?rows (db_token_patterns s) = Inr ps"
    and s': "s' = s\<lparr>db_tokens := db_tokens s @ [?row], db_token_patterns := ps\<rparr>"
    by (auto simp: context_err_def split: if_splits sum.splits)
  have ok: "tokens_ok (project_ids s) (db_tokens s)" "patterns_ok (at_id ` set (db_tokens s)) (db_token_patterns s)"
    using 1(2) by (simp_all add: db_ok_def)
  have "tokens_ok (project_ids s) (db_tokens s @ [?row])"
    using ok(1) new pid by (simp add: tokens_ok_def unique_append has_key_iff)
  moreover have "tp_token ` set ?rows \<subseteq> {fresh}" by auto
  then have "patterns_ok (at_id ` set (db_tokens s @ [?row])) ps"
    using ok(2) insert_rows_unique[OF _ ps] insert_rows_image[OF ps, of tp_token] by (auto simp: patterns_ok_def)
  ultimately show ?case using 1(2) by (simp add: db_ok_def s')
qed

lemma revoke_token_ok [inv_intros]: "keeps db_ok (revoke_access_token pf now token_id)"
  unfolding revoke_access_token_def Let_def
proof (intro inv_intros keeps_tx, goal_cases)
  case (1 t s x s')
  let ?t = "update_rows (\<lambda>r. at_id r = token_id \<and> at_revoked_at r = None) (\<lambda>r. r\<lparr>at_revoked_at := Some t\<rparr>) (db_tokens s)"
  have s': "s' = s\<lparr>db_tokens := ?t\<rparr>" using 1(2) by simp
  have keys: "at_id ` set ?t = at_id ` set (db_tokens s)" "at_project ` set ?t = at_project ` set (db_tokens s)"
    by (rule update_keys, simp)+
  have "tokens_ok (project_ids s) (db_tokens s)" using 1(1) by (simp add: db_ok_def)
  then have "tokens_ok (project_ids s) ?t" unfolding tokens_ok_def keys by (simp add: unique_update)
  then show ?case using 1(1) keys(1) by (simp add: db_ok_def s')
qed

lemma replace_oidc_ok [inv_intros]: "keeps db_ok (replace_project_oidc_identity pf now project provider repository ref_patterns)"
  unfolding replace_project_oidc_identity_def Let_def
proof (intro inv_intros keeps_tx keeps_if, goal_cases)
  case (1 pid s x s')
  let ?rows = "map (\<lambda>p. \<lparr>oi_project = pid, oi_provider = trim provider, oi_repository = trim repository,
    oi_pattern = p, oi_created_at = sql_now pf now\<rparr>) (normalize_patterns ref_patterns)"
  let ?kept = "delete_rows (oidc_matches pid (trim provider) (trim repository)) (db_oidc s)"
  from 1(4) obtain t where pid: "has_key prow_id pid (db_projects s)" and t: "insert_rows oi_key ?rows ?kept = Inr t"
    and s': "s' = s\<lparr>db_oidc := t\<rparr>" by (auto simp: context_err_def split: sum.splits)
  have ok: "oidc_ok (project_ids s) (db_oidc s)" using 1(3) by (simp add: db_ok_def)
  have "oi_project ` set ?rows \<subseteq> {pid}" "oi_project ` set ?kept \<subseteq> oi_project ` set (db_oidc s)" by auto
  then have "oi_project ` set t \<subseteq> project_ids s"
    using ok pid insert_rows_image[OF t, of oi_project] by (auto simp: oidc_ok_def has_key_iff)
  moreover have "unique_key oi_key t" using ok by (intro insert_rows_unique[OF _ t] unique_delete) (simp add: oidc_ok_def)
  ultimately show ?case using 1(3) by (simp add: db_ok_def s' oidc_ok_def)
qed

lemma delete_oidc_ok [inv_intros]: "keeps db_ok (delete_project_oidc_identity project provider repository)"
  unfolding delete_project_oidc_identity_def by (rule keeps_tx) (auto simp: Let_def db_ok_def oidc_ok_def unique_delete image_subset_iff)

lemma insert_rules_ok:
  assumes "insert_rules pid fresh i rules t = Inr t'" "rules_ok pids t" "pid \<in> pids"
  shows "rules_ok pids t'"
  using assms
proof (induction rules arbitrary: i t)
  case (Cons rule rules)
  define row where "row = (\<lambda>ttl. \<lparr>rr_id = fresh i, rr_project = pid, rr_priority = uint (rule_priority rule),
    rr_pattern = trim (rule_pattern rule), rr_ttl = ttl, rr_keep = map_option uint (rule_keep rule)\<rparr>)"
  from Cons.prems(1) obtain ttl where new: "\<not> has_key rr_id (fresh i) t" "\<not> has_key rr_key (rr_key (row ttl)) t"
    and rest: "insert_rules pid fresh (i + 1) rules (t @ [row ttl]) = Inr t'"
    by (auto simp: Let_def row_def split: if_splits)
  have "rules_ok pids (t @ [row ttl])" using Cons.prems(2,3) new by (simp add: rules_ok_def unique_append row_def)
  then show ?case using Cons.IH[OF rest] Cons.prems(3) by simp
qed simp

lemma replace_policy_ok [inv_intros]: "keeps db_ok (replace_project_retention_policy fresh project keep grace rules)"
  unfolding replace_project_retention_policy_def
proof (intro inv_intros keeps_tx keeps_if, goal_cases)
  case (1 pid g s x s')
  let ?f = "\<lambda>old excluded. old\<lparr>rp_keep := rp_keep excluded, rp_grace := rp_grace excluded\<rparr>"
  let ?row = "\<lparr>rp_project = pid, rp_keep = uint keep, rp_grace = g\<rparr>"
  let ?old = "delete_rows (\<lambda>r. rr_project r = pid) (db_rules s)"
  from 1(4) obtain t where pid: "has_key prow_id pid (db_projects s)" and t: "insert_rules pid fresh 0 rules ?old = Inr t"
    and s': "s' = s\<lparr>db_policies := upsert_row rp_project ?f ?row (db_policies s), db_rules := t\<rparr>" by (auto simp: Let_def)
  have p: "policies_ok (project_ids s) (db_policies s)" and r: "rules_ok (project_ids s) (db_rules s)"
    using 1(3) by (simp_all add: db_ok_def)
  have "rules_ok (project_ids s) ?old" using r by (auto simp: rules_ok_def unique_delete)
  then have "rules_ok (project_ids s) t" using t pid insert_rules_ok by (auto simp: has_key_iff)
  moreover have "policies_ok (project_ids s) (upsert_row rp_project ?f ?row (db_policies s))"
    using p pid by (auto simp: policies_ok_def has_key_iff intro!: unique_upsert dest!: upsert_from)
  ultimately show ?case using 1(3) by (simp add: db_ok_def s')
qed

lemma delete_policy_ok [inv_intros]: "keeps db_ok (delete_project_retention_policy project)"
  unfolding delete_project_retention_policy_def by (rule keeps_tx) (auto simp: db_ok_def policies_ok_def unique_delete image_subset_iff)

lemma unique_filter: "unique_key key t \<Longrightarrow> unique_key key (filter p t)"
  by (auto simp: unique_key_def intro: distinct_map_filter)

lemma no_active: "\<not> list_ex (\<lambda>k. sk_project k = pid \<and> sk_retired_at k = None) t \<Longrightarrow> \<not> has_key sk_project pid (filter active_key t)"
  by (auto simp: has_key_iff list_ex_iff active_key_def)

lemma replace_key_ok [inv_intros]: "keeps db_ok (replace_project_signing_key pf cr now fresh nonce project key kek)"
  unfolding replace_project_signing_key_def Let_def
proof (intro inv_intros keeps_tx, goal_cases)
  case (1 pid enc s x s')
  let ?t = "update_rows (\<lambda>k. sk_project k = pid \<and> sk_retired_at k = None) (\<lambda>k. k\<lparr>sk_retired_at := Some (sql_now pf now)\<rparr>) (db_keys s)"
  let ?row = "\<lparr>sk_id = fresh, sk_project = pid, sk_name = nk_name key,
    sk_public = public_key_text (cr_codec cr) (cr_ed cr) key, sk_encrypted = esk_ciphertext enc, sk_nonce = esk_nonce enc,
    sk_created_at = sql_now pf now, sk_retired_at = None\<rparr>"
  from 1(2) have new: "\<not> has_key sk_id fresh ?t" "\<not> list_ex (\<lambda>k. sk_project k = pid \<and> sk_retired_at k = None) ?t"
    and pid: "has_key prow_id pid (db_projects s)" and s': "s' = s\<lparr>db_keys := ?t @ [?row]\<rparr>" by (auto split: if_splits)
  have ok: "signing_keys_ok (project_ids s) (db_keys s)" using 1(1) by (simp add: db_ok_def)
  have "filter active_key (update_rows (\<lambda>k. sk_project k = pid \<and> sk_retired_at k = None) (\<lambda>k. k\<lparr>sk_retired_at := Some (sql_now pf now)\<rparr>) t) =
      filter (\<lambda>k. sk_project k \<noteq> pid) (filter active_key t)" for t
    by (induction t) (simp_all add: update_rows_def active_key_def)
  note active = this[of "db_keys s"]
  have "unique_key sk_project (filter active_key (db_keys s))" using ok by (simp add: signing_keys_ok_def)
  then have "unique_key sk_project (filter active_key ?t)" unfolding active by (rule unique_filter)
  moreover have "\<not> has_key sk_project pid (filter active_key ?t)" using new(2) by (rule no_active)
  ultimately have "unique_key sk_project (filter active_key ?t @ [?row])" by (intro unique_append) simp_all
  then have "unique_key sk_project (filter active_key (?t @ [?row]))" by (simp add: active_key_def)
  moreover have "unique_key sk_id (?t @ [?row])"
    using ok new(1) by (intro unique_append unique_update) (simp_all add: signing_keys_ok_def)
  moreover have "sk_project ` set ?t = sk_project ` set (db_keys s)" by (rule update_keys) simp
  then have "sk_project ` set (?t @ [?row]) \<subseteq> project_ids s" using ok pid by (simp add: signing_keys_ok_def has_key_iff)
  ultimately have "signing_keys_ok (project_ids s) (?t @ [?row])" by (simp only: signing_keys_ok_def simp_thms)
  then show ?case using 1(1) by (simp add: db_ok_def s')
qed

lemma generate_key_ok [inv_intros]: "keeps db_ok (generate_project_signing_key pf cr now fresh seed nonce project name kek)"
  unfolding generate_project_signing_key_def by (intro inv_intros) (auto intro: inv_intros split: option.splits)

lemma import_key_ok [inv_intros]: "keeps db_ok (import_project_signing_key pf cr now fresh nonce project key kek)"
  unfolding import_project_signing_key_def by (intro inv_intros)

lemma ensure_key_ok [inv_intros]: "keeps db_ok (ensure_project_signing_key pf cr now fresh seed nonce project kek)"
  unfolding ensure_project_signing_key_def by (intro inv_intros) (auto intro: inv_intros split: option.splits)

end
