(* ===== verification/WriteInvariant.thy ===== *)
theory WriteInvariant
  imports WriteAccess DbInvariant
begin

text \<open>
  The invariant of the database over the life of a server: every step of the ingest service, every run of the
  garbage collection and every request of the write API keeps \<^const>\<open>db_ok\<close>, whatever fails on the way.
\<close>

subsection \<open>Lifting\<close>

lemma keeps_conj: "keeps P m \<Longrightarrow> keeps Q m \<Longrightarrow> keeps (\<lambda>s. P s \<and> Q s) m"
  by (simp add: keeps_def)

lemma keeps_on_db [inv_intros]: "keeps P m \<Longrightarrow> keeps (\<lambda>s. P (fst s)) (on_db m)"
  by (auto simp: keeps_def on_db_def split: prod.splits)

lemma keeps_on_storage [inv_intros]: "keeps (\<lambda>s. P (fst s)) (on_storage m)"
  by (auto simp: keeps_def on_storage_def split: prod.splits)

lemma keeps_option [inv_intros]:
  "keeps P a \<Longrightarrow> (\<And>x. keeps P (f x)) \<Longrightarrow> keeps P (case m of None \<Rightarrow> a | Some x \<Rightarrow> f x)"
  by (cases m) auto

lemma keeps_pair [inv_intros]: "(\<And>x y. keeps P (f x y)) \<Longrightarrow> keeps P (case p of (x, y) \<Rightarrow> f x y)"
  by (cases p) auto

lemma keeps_list [inv_intros]:
  "keeps P a \<Longrightarrow> (\<And>x xs. keeps P (f x xs)) \<Longrightarrow> keeps P (case l of [] \<Rightarrow> a | x # xs \<Rightarrow> f x xs)"
  by (cases l) auto

declare keeps_if [inv_intros]

abbreviation rows_ok :: "database \<times> 'w \<Rightarrow> bool" where
  "rows_ok s \<equiv> db_ok (fst s)"

subsection \<open>The steps of a publication\<close>

lemma begun_builds: "db_builds s' = db_builds s \<Longrightarrow> db_projects s' = db_projects s \<Longrightarrow>
    begun_for b p r s' = begun_for b p r s"
  by (simp add: begun_for_def)

lemma upsert_object_begun [inv_intros]: "keeps (begun_for b p r) (upsert_storage_object pf i path m)"
  unfolding upsert_storage_object_def by (rule keeps_tx, erule begun_builds[THEN iffD2, rotated 2]) (auto simp: Let_def)

lemma link_object_begun [inv_intros]: "keeps (begun_for b p r) (link_path_object h path kind)"
  unfolding link_path_object_def by (rule keeps_tx, erule begun_builds[THEN iffD2, rotated 2]) auto

lemma record_object_keeps:
  assumes "\<And>i path m. keeps P (upsert_storage_object pf i path m)" "\<And>h path kind. keeps P (link_path_object h path kind)"
  shows "keeps (\<lambda>s. P (fst s)) (record_object pf i h path m)"
  unfolding record_object_def by (intro inv_intros assms)

lemma ingest_begin_ok [inv_intros]: "keeps rows_ok (ingest_begin_build pf now fresh request)"
  unfolding ingest_begin_build_def by (intro inv_intros)

lemma record_object_ok [inv_intros]: "keeps rows_ok (record_object pf i h path m)"
  by (intro record_object_keeps inv_intros)

lemma project_storage_keeps [inv_intros]: "keeps (\<lambda>s. P (fst s)) (project_storage s p)"
  unfolding project_storage_def by (intro inv_intros)

lemma project_upstreams_keeps [inv_intros]: "keeps (\<lambda>s. P (fst s)) (project_upstreams pf p)"
  unfolding project_upstreams_def by (intro inv_intros)

lemma pending_context_keeps [inv_intros]: "keeps (\<lambda>s. P (fst s)) (pending_context pf b)"
  unfolding pending_context_def by (intro inv_intros)

lemma parse_build_keeps [inv_intros]: "keeps P (parse_build_id pf t)"
  unfolding parse_build_id_def by (intro inv_intros)

lemma register_path_ok [inv_intros]: "keeps rows_ok (register_path rx b64 d b path)"
  unfolding register_path_def Let_def by (intro inv_intros)

lemma link_stored_ok [inv_intros]: "keeps rows_ok (link_stored pf rx i storage n)"
  unfolding link_stored_def by (intro inv_intros)

lemma register_paths_ok [inv_intros]: "keeps rows_ok (register_paths pf rx b64 s request)"
  unfolding register_paths_def by (intro inv_intros)

lemma upload_target_ok [inv_intros]: "keeps (\<lambda>s. P (fst s)) (validate_upload_target pf rx s b h path)"
  unfolding validate_upload_target_def by (intro inv_intros)

lemma persist_ok [inv_intros]: "keeps rows_ok (persist_or_delete pf target h path m)"
proof -
  have "rows_ok (snd (persist_or_delete pf target h path m s))" if ok: "rows_ok s" for s
  proof -
    obtain r s1 where run: "record_object pf (fst target) h path m s = (r, s1)" by (cases "record_object pf (fst target) h path m s")
    have s1: "rows_ok s1" using keepsD[OF record_object_ok[of pf "fst target" h path m] ok] run by simp
    have "rows_ok (snd (on_storage (ds_delete (snd target) path) s1))"
      by (rule keepsD[OF keeps_on_storage]) (rule s1)
    then show ?thesis using run s1 by (cases r) (simp_all add: persist_or_delete_def)
  qed
  then show ?thesis by (simp add: keeps_def)
qed

lemma upload_ok [inv_intros]: "keeps rows_ok (upload_object pf rx s b h path body)"
  unfolding upload_object_def by (intro inv_intros)

lemma presign_ok [inv_intros]: "keeps rows_ok (presign_multipart_upload_part pf rx st s b h n q)"
  unfolding presign_multipart_upload_part_def by (intro inv_intros)

lemma complete_ok [inv_intros]: "keeps rows_ok (complete_multipart_upload pf rx s b h q)"
  unfolding complete_multipart_upload_def by (intro inv_intros)

lemma abort_ok [inv_intros]: "keeps rows_ok (abort_multipart_upload pf rx s b h q)"
  unfolding abort_multipart_upload_def by (intro inv_intros)

text \<open>A finalization publishes for the project and the ref of the build: what it reads of the build is still
  true when it publishes.\<close>

definition leads :: "('s \<Rightarrow> bool) \<Rightarrow> ('s \<Rightarrow> bool) \<Rightarrow> ('s, 'e, 'a) io \<Rightarrow> bool" where
  "leads P Q m \<longleftrightarrow> (\<forall>s. P s \<longrightarrow> Q (snd (m s)))"

lemma leads_bind: "keeps P m \<Longrightarrow> (\<And>s. P s \<Longrightarrow> Q s) \<Longrightarrow> (\<And>x. leads P Q (f x)) \<Longrightarrow> leads P Q (bind_io m f)"
  by (force simp: keeps_def leads_def bind_io_def split: prod.splits sum.splits)

lemma leads_keeps: "keeps P m \<Longrightarrow> (\<And>s. P s \<Longrightarrow> Q s) \<Longrightarrow> leads P Q m"
  by (simp add: keeps_def leads_def)

lemma leads_if: "leads P Q a \<Longrightarrow> leads P Q b \<Longrightarrow> leads P Q (if c then a else b)"
  by simp

lemma keeps_learn:
  assumes "\<And>s r s1. P s \<Longrightarrow> m s = (r, s1) \<Longrightarrow> P s1 \<and> (\<forall>x. r = Inr x \<longrightarrow> Q x s1)" "\<And>x. leads (\<lambda>s. P s \<and> Q x s) P (f x)"
  shows "keeps P (bind_io m f)"
  unfolding keeps_def
proof (intro allI impI)
  fix s assume "P s"
  then show "P (snd (bind_io m f s))"
    using assms(1)[of s] assms(2) by (cases "m s"; cases "fst (m s)") (auto simp: bind_io_def leads_def)
qed

lemma context_begun:
  assumes "get_build_context pf b db = Inr (Some c)"
  shows "begun_for b (ctx_project_slug c) (ctx_ref_name c) db"
proof -
  let ?rows = "concat (map (\<lambda>r. if brow_id r = b then map (\<lambda>p. (r, p)) (filter (\<lambda>p. prow_id p = brow_project_id r) (db_projects db))
            else []) (db_builds db))"
  from assms obtain r p where f: "fetch_optional (\<lambda>_. True) ?rows = Some (r, p)" and c: "context_into_record pf (r, p) = Inr c"
    by (auto simp: get_build_context_def)
  have "(r, p) \<in> set ?rows" using fetch_optional_Some[OF f] by simp
  then have "r \<in> set (db_builds db)" "brow_id r = b" "p \<in> set (db_projects db)" "prow_id p = brow_project_id r"
    by (auto split: if_splits)
  moreover have "prow_slug p = slug_str (ctx_project_slug c)" "brow_ref_name r = ctx_ref_name c"
    using c by (auto simp: context_into_record_def parse_slug_def slug_parse_Inr)
  ultimately show ?thesis unfolding begun_for_def by blast
qed

lemma finalize_path_keeps [inv_intros]:
  assumes "\<And>i path m. keeps P (upsert_storage_object pf i path m)" "\<And>h path kind. keeps P (link_path_object h path kind)"
  shows "keeps (\<lambda>s. P (fst s)) (finalize_path pf client b us target path)"
  unfolding finalize_path_def by (intro inv_intros record_object_keeps assms)

lemma publish_leads:
  "leads (\<lambda>s. db_ok (fst s) \<and> begun_for b p r (fst s)) rows_ok (on_db (publish_build_to_ref pf now p r b))"
proof -
  have "db_ok db' " if "publish_build_to_ref pf now p r b db = (x, db')" "db_ok db" "begun_for b p r db" for db x db'
    using publish_db_ok[OF that(2,3), of pf now] that(1) by simp
  then show ?thesis by (auto simp: leads_def on_db_def split: prod.splits)
qed

lemma finalize_ok [inv_intros]: "keeps rows_ok (finalize_build pf now s request)"
  unfolding finalize_build_def
proof (rule keeps_bind, rule parse_build_keeps, rule keeps_learn)
  fix b :: uuid and st :: "database \<times> 'a" and r s1
  assume ok: "rows_ok st" and run: "pending_context pf b st = (r, s1)"
  obtain db w where st: "st = (db, w)" by (cases st)
  show "rows_ok s1 \<and> (\<forall>c. r = Inr c \<longrightarrow> begun_for b (ctx_project_slug c) (ctx_ref_name c) (fst s1))"
    using pending_context_state[OF run[unfolded st]] context_begun ok unfolding st by auto
next
  fix b :: uuid and c :: build_context
  define Q where "Q = (\<lambda>db. db_ok db \<and> begun_for b (ctx_project_slug c) (ctx_ref_name c) db)"
  have Q: "keeps Q (upsert_storage_object pf i path m)" "keeps Q (link_path_object h path kind)" for i path m h kind
    unfolding Q_def by (intro keeps_conj inv_intros)+
  have weak: "Q (fst st) \<Longrightarrow> rows_ok st" for st :: "database \<times> 'a" by (simp add: Q_def)
  have "leads (\<lambda>st. Q (fst st)) rows_ok
    (bind_io (on_db (query_io (list_build_path_nar_objects b))) (\<lambda>build_paths.
     if build_paths = [] then fail_io (Anyhow (''build '' @ b @ '' has no registered paths''))
     else bind_io (project_upstreams pf (ctx_project_slug c)) (\<lambda>upstreams.
       bind_io (project_storage s (ctx_project_slug c)) (\<lambda>target.
       bind_io (for_io (finalize_path pf (ing_client s) b upstreams target) build_paths) (\<lambda>_.
       on_db (publish_build_to_ref pf now (ctx_project_slug c) (ctx_ref_name c) b))))))"
    by (intro leads_bind leads_if leads_keeps[OF keeps_fail] inv_intros Q weak) (use publish_leads in \<open>simp_all add: Q_def\<close>)
  then show "leads (\<lambda>st. rows_ok st \<and> begun_for b (ctx_project_slug c) (ctx_ref_name c) (fst st)) rows_ok
    (bind_io (on_db (query_io (list_build_path_nar_objects b))) (\<lambda>build_paths.
     if build_paths = [] then fail_io (Anyhow (''build '' @ b @ '' has no registered paths''))
     else bind_io (project_upstreams pf (ctx_project_slug c)) (\<lambda>upstreams.
       bind_io (project_storage s (ctx_project_slug c)) (\<lambda>target.
       bind_io (for_io (finalize_path pf (ing_client s) b upstreams target) build_paths) (\<lambda>_.
       on_db (publish_build_to_ref pf now (ctx_project_slug c) (ctx_ref_name c) b))))))"
    by (simp only: Q_def)
qed

subsection \<open>Garbage collection and the write API\<close>

lemma gc_ok [inv_intros]:
  "keeps rows_ok (run_local_gc_with_grace_period pf t1 t2 t3 cat dry_run grace)"
  "keeps rows_ok (run_local_gc pf t1 t2 t3 cat dry_run)"
  unfolding run_local_gc_def run_local_gc_with_grace_period_def gc_mark_def gc_sweep_def by (intro inv_intros)+

context write_server
begin

abbreviation server_ok :: "'o \<times> database \<times> 'w \<Rightarrow> bool" where
  "server_ok s \<equiv> j (fst s) \<and> db_ok (fst (snd s))"

lemma gate_ok: "gate j Q m \<Longrightarrow> keeps server_ok m"
  by (auto simp: keeps_def gate_def) (metis prod.collapse)+

lemma attempt_right_ok [inv_intros]:
  assumes "keeps rows_ok m"
  shows "keeps server_ok (attempt (on_right m))"
  unfolding keeps_def
proof (intro allI impI)
  fix s assume "server_ok s"
  then show "server_ok (snd (attempt (on_right m) s))"
    using keepsD[OF assms, of "snd s"] by (cases s) (auto simp: attempt_def map_err_io_def on_right_def split: prod.splits)
qed

lemma attempt_database_ok [inv_intros]: "keeps db_ok m \<Longrightarrow> keeps server_ok (attempt (on_database m))"
  by (auto simp: keeps_def attempt_def map_err_io_def on_database_def on_right_def on_left_def split: prod.splits)

lemma checked_ok [inv_intros]: "keeps server_ok (checked r)"
  unfolding checked_def by (rule keeps_pure)

lemma access_ok [inv_intros]:
  "keeps server_ok (require_admin_headers app mo headers)"
  "keeps server_ok (require_project_ref_headers pf app mo headers project rname)"
  "keeps server_ok (require_project_or_admin_headers pf app mo headers p)"
  by (rule gate_ok, rule admin_gate ref_gate project_gate)+

lemma build_access_ok [inv_intros]: "keeps server_ok (require_build_access pf app mo headers b)"
  unfolding require_build_access_def by (intro inv_intros)

lemma write_ok: "keeps server_ok (handle_write lib app mo headers request)"
  by (cases request; simp only: handle_write_def write_request.case build_handler_defs project_handler_defs
    kek_handler_defs pin_handler_defs admin_handler_defs with_build_def with_project_def with_kek_def
    begin_build_handler_def Let_def; intro inv_intros)

lemma run_ok: "write_run lib app s s' \<Longrightarrow> server_ok s \<Longrightarrow> server_ok s'"
proof (induction rule: write_run.induct)
  case (request s1 mo headers request reply s2)
  then show ?case using keepsD[OF write_ok, of s1 lib mo headers request] by (auto simp: serve_write_def split: prod.splits)
qed

end

text \<open>C3 (the database). Whatever requests a server answers and whatever fails on the way, its database keeps its
  keys unique and its foreign keys valid, a ref publishes a finalized build of its own project and name, a pin
  names the registered path of its hash in the scope of its project, and a project has at most one active
  signing key.\<close>

theorem database_invariant:
  assumes "\<forall>config. oidc = Some config \<longrightarrow> distinct (map fst (oc_providers config))"
    "app = server_app lib jl http write_token oidc catalog d client kek"
    "db_ok db" "write_run lib app ((\<lambda>_. None, net), db, w) s"
  shows "db_ok (fst (snd s))"
proof -
  note srv = server_is_write_server[OF assms(1), of lib jl http write_token catalog d client kek, folded assms(2)]
  have "default_inv jl http oidc (\<lambda>_. None, net)" by (simp add: default_inv_def cache_ok_def split: option.splits)
  then show ?thesis using write_server.run_ok[OF srv assms(4)] assms(3) by simp
qed

theorem database_invariant_witness:
  "case serve_write demo_lib demo_app demo_moment demo_headers demo_request ((\<lambda>_. None, ()), granted_db, nar_files None) of
     (reply, s) \<Rightarrow> reply_status reply = 200 \<and> db_ok (fst (snd s))"
proof -
  let ?s = "((\<lambda>_. None, ()), granted_db, nar_files None)"
  obtain reply s where run: "serve_write demo_lib demo_app demo_moment demo_headers demo_request ?s = (reply, s)"
    by (cases "serve_write demo_lib demo_app demo_moment demo_headers demo_request ?s")
  have ok: "db_ok granted_db" by code_simp
  have "reply_status (fst (serve_write demo_lib demo_app demo_moment demo_headers demo_request ?s)) = 200" by code_simp
  then have "reply_status reply = 200" unfolding run by simp
  moreover have "\<forall>config. Some demo_oidc = Some config \<longrightarrow> distinct (map fst (oc_providers config))" by (simp add: demo_oidc_def)
  from database_invariant[OF this demo_app_def ok write_run.request[OF write_run.start run]] have "db_ok (fst (snd s))" .
  ultimately show ?thesis unfolding run by simp
qed

end
