(* ===== verification/S3Store.thy ===== *)
theory S3Store
  imports BlobStore
begin

text \<open>
  \<^verbatim>\<open>crates/depot-store/src/s3.rs\<close>: the storage in an S3 bucket. The SDK's client is a record of
  operations on the outside world; the locale \<open>s3_service\<close> states the documented behaviour that the code
  relies on, and the fake server of the module's tests is shown to have it.
\<close>

subsection \<open>The client\<close>

record sdk_error =
  se_code :: "string option"
  se_text :: string

record head_object_output =
  hoo_content_length :: "64 word option" \<comment> \<open>\<^verbatim>\<open>i64\<close>\<close>
  hoo_content_type :: "string option"
  hoo_e_tag :: "string option"

text \<open>The body of \<^verbatim>\<open>get_object\<close> is a stream: collecting it can fail. The arguments of the operations are
  the bucket, the key and what the builder sets.\<close>

record 'w s3_client =
  s3c_head_object :: "string \<Rightarrow> string \<Rightarrow> ('w, sdk_error, head_object_output) io"
  s3c_get_object :: "string \<Rightarrow> string \<Rightarrow> ('w, sdk_error, string + bytes) io"
  s3c_put_object :: "string \<Rightarrow> string \<Rightarrow> bytes \<Rightarrow> ('w, sdk_error, unit) io"
  s3c_delete_object :: "string \<Rightarrow> string \<Rightarrow> ('w, sdk_error, unit) io"
  s3c_create_multipart_upload :: "string \<Rightarrow> string \<Rightarrow> string \<Rightarrow> ('w, sdk_error, string option) io"
  s3c_upload_part ::
    "string \<Rightarrow> string \<Rightarrow> string \<Rightarrow> part_number \<Rightarrow> 64 word \<Rightarrow> bytes \<Rightarrow> ('w, sdk_error, string option) io"
  s3c_complete_multipart_upload ::
    "string \<Rightarrow> string \<Rightarrow> string \<Rightarrow> (part_number \<times> string) list \<Rightarrow> ('w, sdk_error, string option) io"
  s3c_abort_multipart_upload :: "string \<Rightarrow> string \<Rightarrow> string \<Rightarrow> ('w, sdk_error, unit) io"
  s3c_presigning_config :: "int \<Rightarrow> bool"
  s3c_presigned_upload_part ::
    "string \<Rightarrow> string \<Rightarrow> string \<Rightarrow> part_number \<Rightarrow> 64 word \<Rightarrow> int \<Rightarrow> ('w, sdk_error, string) io"

definition MIN_MULTIPART_PART_SIZE :: nat where
  "MIN_MULTIPART_PART_SIZE = 5 * 1024 * 1024"

definition DEFAULT_MULTIPART_PART_SIZE :: nat where
  "DEFAULT_MULTIPART_PART_SIZE = 16 * 1024 * 1024"

definition MAX_MULTIPART_PARTS :: int where
  "MAX_MULTIPART_PARTS = 10000"

record s3_storage_config =
  s3cfg_endpoint :: string
  s3cfg_bucket :: string
  s3cfg_region :: string
  s3cfg_access_key_id :: string
  s3cfg_secret_access_key :: string
  s3cfg_force_path_style :: bool
  s3cfg_prefix :: "string option"

record 'w s3_storage =
  s3_client :: "'w s3_client"
  s3_bucket :: string
  s3_prefix :: "string option"

subsection \<open>Keys\<close>

definition validate_object_path :: "string \<Rightarrow> anyhow + unit" where
  "validate_object_path object_path =
     (if object_path = [] then Inl (Anyhow ''invalid empty object path'')
      else if starts_with ''/'' object_path then Inl (Anyhow (''invalid object path '' @ object_path))
      else ensure (list_all (\<lambda>segment. segment \<noteq> [] \<and> segment \<noteq> ''.'' \<and> segment \<noteq> ''..'')
          (split_char (CHR ''/'') object_path)) (Anyhow (''invalid object path '' @ object_path)))"

definition normalize_prefix :: "string option \<Rightarrow> anyhow + string option" where
  "normalize_prefix pre =
     (case pre of None \<Rightarrow> Inr None
      | Some pre \<Rightarrow>
          (let pre = trim_end_char (CHR ''/'') (trim_start_char (CHR ''/'') pre) in
           if pre = [] then Inr None
           else and_then (validate_object_path pre) (\<lambda>_. Inr (Some pre))))"

definition s3_storage_from_client ::
    "'w s3_client \<Rightarrow> string \<Rightarrow> string option \<Rightarrow> anyhow + 'w s3_storage" where
  "s3_storage_from_client client bucket pre =
     and_then (normalize_prefix pre) (\<lambda>pre.
     Inr \<lparr>s3_client = client, s3_bucket = bucket, s3_prefix = pre\<rparr>)"

text \<open>\<open>connect\<close> is \<^verbatim>\<open>Client::from_conf\<close> on the SDK configuration built from the fields.\<close>

definition s3_storage_new :: "(s3_storage_config \<Rightarrow> 'w s3_client) \<Rightarrow> s3_storage_config \<Rightarrow> anyhow + 'w s3_storage" where
  "s3_storage_new connect config =
     s3_storage_from_client (connect config) (s3cfg_bucket config) (s3cfg_prefix config)"

definition object_key :: "'w s3_storage \<Rightarrow> string \<Rightarrow> anyhow + string" where
  "object_key s object_path =
     and_then (validate_object_path object_path) (\<lambda>_.
     Inr (case s3_prefix s of Some pre \<Rightarrow> pre @ ''/'' @ object_path | None \<Rightarrow> object_path))"

definition is_not_found :: "sdk_error \<Rightarrow> bool" where
  "is_not_found error = (se_code error \<in> {Some ''NoSuchKey'', Some ''NotFound'', Some ''404''})"

definition validate_part_number :: "part_number \<Rightarrow> anyhow + unit" where
  "validate_part_number n =
     ensure (1 \<le> sint n \<and> sint n \<le> MAX_MULTIPART_PARTS) (Anyhow ''invalid multipart upload part number'')"

subsection \<open>Reading the parts of a stream\<close>

text \<open>The inner loop reads at most 64 KiB at a time until the part is full or the stream ends.\<close>

lemma read_chunks_concat:
  "read_chunks n cs = (bs, cs') \<Longrightarrow> bs @ concat cs' = concat cs \<and> length bs \<le> n \<and> (0 < n \<longrightarrow> bs = [] \<longrightarrow> concat cs = [])"
  by (induction n cs rule: read_chunks.induct) (auto split: if_splits)

function fill_buffer :: "nat \<Rightarrow> bytes \<Rightarrow> upload_reader \<Rightarrow> (string + bytes) \<times> upload_reader" where
  "fill_buffer part_size buffer reader =
     (if length buffer < part_size then
        (let remaining = part_size - length buffer; read_size = min remaining (64 * 1024) in
         case reader_read read_size reader of
           (Inl e, reader) \<Rightarrow> (Inl e, reader)
         | (Inr chunk, reader) \<Rightarrow>
             if chunk = [] then (Inr buffer, reader) else fill_buffer part_size (buffer @ chunk) reader)
      else (Inr buffer, reader))"
  by auto
termination
  by (relation "measure (\<lambda>(part_size, buffer, reader). part_size - length buffer)") (auto intro!: diff_less_mono2)

declare fill_buffer.simps [simp del]

definition read_next_part :: "nat \<Rightarrow> upload_reader \<Rightarrow> (anyhow + bytes option) \<times> upload_reader" where
  "read_next_part part_size reader =
     (case fill_buffer part_size [] reader of
        (Inl e, reader) \<Rightarrow> (Inl (Anyhow ''reading multipart upload part''), reader)
      | (Inr buffer, reader) \<Rightarrow> (Inr (if buffer = [] then None else Some buffer), reader))"

lemma read_bytes:
  "reader_read n r = (res, r') \<Longrightarrow> 0 < n \<Longrightarrow> rd_error r' = rd_error r \<and>
     (case res of
        Inl e \<Rightarrow> rd_bytes r = [] \<and> rd_error r = Some e \<and> rd_bytes r' = []
      | Inr bs \<Rightarrow> bs @ rd_bytes r' = rd_bytes r \<and> length bs \<le> n \<and> (bs = [] \<longrightarrow> rd_bytes r = [] \<and> rd_error r = None))"
  using read_chunks_concat[of n "rd_chunks r" "fst (read_chunks n (rd_chunks r))" "snd (read_chunks n (rd_chunks r))"]
  by (auto simp: reader_read_def rd_bytes_def split: prod.splits if_splits)

text \<open>A part is the next \<open>part_size\<close> bytes of the stream, whatever the chunks are; an error of the stream
  before the part is full is an error of the part.\<close>

lemma fill_buffer_bytes:
  "fill_buffer k buf r = (res, r') \<Longrightarrow> length buf \<le> k \<Longrightarrow> rd_error r' = rd_error r \<and>
     (case res of
        Inl e \<Rightarrow> rd_error r = Some e \<and> length (buf @ rd_bytes r) < k
      | Inr bs \<Rightarrow> bs = take k (buf @ rd_bytes r) \<and> rd_bytes r' = drop k (buf @ rd_bytes r) \<and>
          (length bs < k \<longrightarrow> rd_error r = None))"
proof (induction k buf r arbitrary: res r' rule: fill_buffer.induct)
  case (1 k buf r)
  show ?case
  proof (cases "length buf < k")
    case True
    obtain res1 r1 where rd: "reader_read (min (k - length buf) (64 * 1024)) r = (res1, r1)" by fastforce
    note b = read_bytes[OF rd]
    show ?thesis
    proof (cases res1)
      case (Inl e)
      then show ?thesis using 1(2) True rd b by (auto simp: fill_buffer.simps[of k])
    next
      case (Inr c)
      show ?thesis
      proof (cases "c = []")
        case True
        then show ?thesis using 1(2) \<open>length buf < k\<close> rd b Inr by (auto simp: fill_buffer.simps[of k])
      next
        case False
        have "fill_buffer k (buf @ c) r1 = (res, r')"
          using 1(2) True rd Inr False by (simp add: fill_buffer.simps[of k buf])
        moreover have "length (buf @ c) \<le> k" using b Inr True by auto
        ultimately have "rd_error r' = rd_error r1 \<and> (case res of
            Inl e \<Rightarrow> rd_error r1 = Some e \<and> length ((buf @ c) @ rd_bytes r1) < k
          | Inr bs \<Rightarrow> bs = take k ((buf @ c) @ rd_bytes r1) \<and> rd_bytes r' = drop k ((buf @ c) @ rd_bytes r1) \<and>
              (length bs < k \<longrightarrow> rd_error r1 = None))"
          using 1(1)[OF True refl refl] rd Inr False by (auto simp: min_def)
        moreover have "(buf @ c) @ rd_bytes r1 = buf @ rd_bytes r" "rd_error r1 = rd_error r" using b Inr True by auto
        ultimately show ?thesis by (simp only:)
      qed
    qed
  next
    case False
    then show ?thesis using 1(2,3) by (auto simp: fill_buffer.simps[of k])
  qed
qed

lemma next_part:
  assumes "read_next_part k r = (res, r')" "0 < k"
  shows "rd_error r' = rd_error r \<and>
    (case res of
       Inl e \<Rightarrow> rd_error r \<noteq> None \<and> length (rd_bytes r) < k
     | Inr None \<Rightarrow> rd_error r = None \<and> rd_bytes r = []
     | Inr (Some bs) \<Rightarrow> bs = take k (rd_bytes r) \<and> bs \<noteq> [] \<and> rd_bytes r' = drop k (rd_bytes r) \<and>
         (length bs < k \<longrightarrow> rd_error r = None))"
proof -
  obtain f r1 where f: "fill_buffer k [] r = (f, r1)" by fastforce
  then show ?thesis using assms fill_buffer_bytes[OF f]
    by (cases f) (auto simp: read_next_part_def)
qed

subsection \<open>Multipart uploads\<close>

definition create_multipart_upload_for_key :: "'w s3_storage \<Rightarrow> string \<Rightarrow> ('w, anyhow, multipart_upload) io" where
  "create_multipart_upload_for_key s key =
     bind_io (io_context ''creating multipart upload''
       (s3c_create_multipart_upload (s3_client s) (s3_bucket s) key ''application/octet-stream'')) (\<lambda>response.
     bind_io (pure_io (ok_or (Anyhow ''S3 create multipart upload response missing upload id'') response)) (\<lambda>upload_id.
     return_io \<lparr>mu_upload_id = upload_id, mu_part_size = word_of_nat DEFAULT_MULTIPART_PART_SIZE\<rparr>))"

text \<open>\<open>expires_in\<close> is in nanoseconds; converting it to a signed duration fails past \<^verbatim>\<open>i64::MAX\<close> seconds, the
  content length past \<^verbatim>\<open>i64::MAX\<close>.\<close>

definition presign_multipart_upload_part_for_key ::
    "datetime \<Rightarrow> 'w s3_storage \<Rightarrow> string \<Rightarrow> string \<Rightarrow> part_number \<Rightarrow> 64 word \<Rightarrow> int \<Rightarrow>
     ('w, anyhow, presigned_upload_part_url) io" where
  "presign_multipart_upload_part_for_key now s key upload_id part_number content_length expires_in =
     bind_io (pure_io (validate_part_number part_number)) (\<lambda>_.
     bind_io (pure_io (ensure (s3c_presigning_config (s3_client s) expires_in)
       (Anyhow ''building S3 upload-part presigning config''))) (\<lambda>_.
     bind_io (pure_io (ensure (unat content_length < 2 ^ 63) (Anyhow ''converting content length''))) (\<lambda>_.
     bind_io (io_context ''presigning multipart upload part'' (s3c_presigned_upload_part (s3_client s)
       (s3_bucket s) key upload_id part_number content_length expires_in)) (\<lambda>url.
     bind_io (pure_io (ensure (expires_in div 1000000000 < 2 ^ 63)
       (Anyhow ''converting presigned upload-part ttl''))) (\<lambda>_.
     return_io \<lparr>pu_url = url, pu_expires_at = now + expires_in\<rparr>)))))"

definition completed_part :: "completed_multipart_upload_part \<Rightarrow> anyhow + part_number \<times> string" where
  "completed_part part =
     and_then (validate_part_number (cp_part_number part)) (\<lambda>_. Inr (cp_part_number part, cp_etag part))"

definition complete_multipart_upload_for_key ::
    "'w s3_storage \<Rightarrow> string \<Rightarrow> string \<Rightarrow> completed_multipart_upload_part list \<Rightarrow> 64 word \<Rightarrow>
     ('w, anyhow, completed_multipart_upload) io" where
  "complete_multipart_upload_for_key s key upload_id parts content_length =
     (if parts = [] then fail_io (Anyhow ''cannot complete multipart upload without parts'')
      else
        bind_io (pure_io (collect_res completed_part parts)) (\<lambda>completed_parts.
        bind_io (io_context ''completing multipart upload'' (s3c_complete_multipart_upload (s3_client s)
          (s3_bucket s) key upload_id completed_parts)) (\<lambda>response.
        return_io \<lparr>cm_content_length = content_length, cm_e_tag = response\<rparr>)))"

definition abort_multipart_upload_for_key :: "'w s3_storage \<Rightarrow> string \<Rightarrow> string \<Rightarrow> ('w, anyhow, unit) io" where
  "abort_multipart_upload_for_key s key upload_id =
     io_context ''aborting multipart upload'' (s3c_abort_multipart_upload (s3_client s) (s3_bucket s) key upload_id)"

text \<open>One round of the upload loop: the part number is checked, the part is sent, its tag is kept.\<close>

definition upload_part :: "'w s3_storage \<Rightarrow> string \<Rightarrow> string \<Rightarrow> part_number \<Rightarrow> bytes \<Rightarrow> ('w, anyhow, string) io" where
  "upload_part s key upload_id part_number part_bytes =
     bind_io (pure_io (validate_part_number part_number)) (\<lambda>_.
     bind_io (pure_io (ensure (length part_bytes < 2 ^ 63) (Anyhow ''converting part length''))) (\<lambda>_.
     bind_io (io_context ''uploading multipart part'' (s3c_upload_part (s3_client s) (s3_bucket s) key upload_id
       part_number (word_of_nat (length part_bytes)) part_bytes)) (\<lambda>response.
     pure_io (ok_or (Anyhow ''S3 upload-part response missing ETag'') response))))"

function upload_parts ::
    "'w s3_storage \<Rightarrow> string \<Rightarrow> string \<Rightarrow> nat \<Rightarrow> part_number \<Rightarrow> 64 word \<Rightarrow> completed_multipart_upload_part list \<Rightarrow>
     upload_reader \<Rightarrow> 'w \<Rightarrow> (anyhow + 64 word \<times> completed_multipart_upload_part list) \<times> 'w" where
  "upload_parts s key upload_id part_size n len parts reader w =
     (case read_next_part part_size reader of
        (Inl e, _) \<Rightarrow> (Inl e, w)
      | (Inr None, _) \<Rightarrow> (Inr (len, parts), w)
      | (Inr (Some part_bytes), reader) \<Rightarrow>
          (case upload_part s key upload_id n part_bytes w of
             (Inl e, w) \<Rightarrow> (Inl e, w)
           | (Inr etag, w) \<Rightarrow>
               upload_parts s key upload_id part_size (n + 1) (len + word_of_nat (length part_bytes))
                 (parts @ [\<lparr>cp_part_number = n, cp_etag = etag\<rparr>]) reader w))"
  by auto

lemma part_shrinks:
  assumes "read_next_part k r = (Inr (Some bs), r')"
  shows "length (rd_bytes r') < length (rd_bytes r)"
proof -
  have "0 < k" using assms by (cases k) (auto simp: read_next_part_def fill_buffer.simps)
  from next_part[OF assms this] show ?thesis using \<open>0 < k\<close> by (auto intro!: diff_less)
qed

termination upload_parts
  by (relation "measure (\<lambda>(s, key, upload_id, part_size, n, len, parts, reader, w). length (rd_bytes reader))")
    (auto dest: part_shrinks[OF sym])

declare upload_parts.simps [simp del]

definition put_stream_multipart :: "'w s3_storage \<Rightarrow> string \<Rightarrow> upload_reader \<Rightarrow> ('w, anyhow, 64 word) io" where
  "put_stream_multipart s key reader =
     bind_io (create_multipart_upload_for_key s key) (\<lambda>upload.
     if unat (mu_part_size upload) < MIN_MULTIPART_PART_SIZE
     then fail_io (Anyhow ''multipart part size must be at least 5 MiB'')
     else
       (\<lambda>w. let (result, w) =
           bind_io (upload_parts s key (mu_upload_id upload) (unat (mu_part_size upload)) 1 0 [] reader) (\<lambda>(len, parts).
           if parts = [] then fail_io (Anyhow ''cannot upload empty stream as multipart object'')
           else bind_io (complete_multipart_upload_for_key s key (mu_upload_id upload) parts len) (\<lambda>_. return_io len)) w in
         (result, if is_ok result then w else snd (abort_multipart_upload_for_key s key (mu_upload_id upload) w))))"

subsection \<open>The storage\<close>

definition with_key :: "'w s3_storage \<Rightarrow> string \<Rightarrow> (string \<Rightarrow> ('w, anyhow, 'a) io) \<Rightarrow> ('w, anyhow, 'a) io" where
  "with_key s object_path f = bind_io (pure_io (object_key s object_path)) f"

text \<open>An error that says that there is no such object is not an error of the call.\<close>

definition found_io :: "string \<Rightarrow> ('w, sdk_error, 'a) io \<Rightarrow> ('w, anyhow, 'a option) io" where
  "found_io msg m = (\<lambda>w. case m w of
     (Inr x, w) \<Rightarrow> (Inr (Some x), w)
   | (Inl e, w) \<Rightarrow> (if is_not_found e then Inr None else context_err msg (Inl e), w))"

definition s3_head :: "'w s3_storage \<Rightarrow> string \<Rightarrow> ('w, anyhow, blob_metadata option) io" where
  "s3_head s object_path = with_key s object_path (\<lambda>key.
     bind_io (found_io ''checking s3 object'' (s3c_head_object (s3_client s) (s3_bucket s) key)) (\<lambda>response.
     return_io (map_option (\<lambda>response.
       \<lparr>bm_content_type = (case hoo_content_type response of Some t \<Rightarrow> t | None \<Rightarrow> ''application/octet-stream''),
        bm_content_length = (case hoo_content_length response of
            Some v \<Rightarrow> if 0 \<le> sint v then Some v else None | None \<Rightarrow> None),
        bm_etag = hoo_e_tag response, bm_last_modified = None\<rparr>) response)))"

definition s3_get_bytes :: "'w s3_storage \<Rightarrow> string \<Rightarrow> ('w, anyhow, bytes option) io" where
  "s3_get_bytes s object_path = with_key s object_path (\<lambda>key.
     bind_io (found_io ''reading S3 object'' (s3c_get_object (s3_client s) (s3_bucket s) key)) (\<lambda>body.
     pure_io (transpose_res (context_err ''collecting S3 object'') body)))"

definition s3_put_bytes :: "'w s3_storage \<Rightarrow> string \<Rightarrow> bytes \<Rightarrow> ('w, anyhow, unit) io" where
  "s3_put_bytes s object_path bs = with_key s object_path (\<lambda>key.
     io_context ''writing S3 object'' (s3c_put_object (s3_client s) (s3_bucket s) key bs))"

definition s3_put_stream :: "'w s3_storage \<Rightarrow> string \<Rightarrow> upload_reader \<Rightarrow> ('w, anyhow, 64 word) io" where
  "s3_put_stream s object_path reader = with_key s object_path (\<lambda>key. put_stream_multipart s key reader)"

definition s3_delete :: "'w s3_storage \<Rightarrow> string \<Rightarrow> ('w, anyhow, unit) io" where
  "s3_delete s object_path = with_key s object_path (\<lambda>key.
     io_context ''deleting S3 object'' (s3c_delete_object (s3_client s) (s3_bucket s) key))"

definition s3_depot_storage :: "datetime \<Rightarrow> 'w s3_storage \<Rightarrow> 'w depot_storage" where
  "s3_depot_storage now s =
     \<lparr>ds_head = s3_head s, ds_get_bytes = s3_get_bytes s, ds_put_bytes = s3_put_bytes s,
      ds_put_stream = s3_put_stream s,
      ds_create_multipart_upload = (\<lambda>p. with_key s p (\<lambda>key.
        bind_io (create_multipart_upload_for_key s key) (\<lambda>u. return_io (Some u)))),
      ds_presign_multipart_upload_part = (\<lambda>p upload_id n len expires_in. with_key s p (\<lambda>key.
        bind_io (presign_multipart_upload_part_for_key now s key upload_id n len expires_in) (\<lambda>u. return_io (Some u)))),
      ds_complete_multipart_upload = (\<lambda>p upload_id parts len. with_key s p (\<lambda>key.
        complete_multipart_upload_for_key s key upload_id parts len)),
      ds_abort_multipart_upload = (\<lambda>p upload_id. with_key s p (\<lambda>key. abort_multipart_upload_for_key s key upload_id)),
      ds_delete = s3_delete s\<rparr>"

subsection \<open>The service\<close>

text \<open>
  What the code relies on. \<open>objects\<close> is the content of the bucket, \<open>uploaded\<close> the parts of an upload in
  the order of their numbers. A call that fails may have had its effect on its own object. Nothing is said
  of completing an upload with other parts than those that were uploaded.
\<close>

locale s3_service =
  fixes s :: "'w s3_storage" and objects :: "'w \<Rightarrow> string \<Rightarrow> bytes option"
    and uploaded :: "'w \<Rightarrow> string \<Rightarrow> string \<Rightarrow> (part_number \<times> string \<times> bytes) list" and ok :: "'w \<Rightarrow> bool"
  assumes head_call: "ok w \<Longrightarrow> s3c_head_object (s3_client s) (s3_bucket s) k w = (rh, w') \<Longrightarrow>
      ok w' \<and> objects w' = objects w \<and> (is_ok rh \<longrightarrow> objects w k \<noteq> None) \<and>
      (\<forall>e. rh = Inl e \<longrightarrow> is_not_found e \<longrightarrow> objects w k = None)"
    and get_call: "ok w \<Longrightarrow> s3c_get_object (s3_client s) (s3_bucket s) k w = (rg, w') \<Longrightarrow>
      ok w' \<and> objects w' = objects w \<and> (\<forall>b. rg = Inr (Inr b) \<longrightarrow> objects w k = Some b) \<and>
      (\<forall>e. rg = Inl e \<longrightarrow> is_not_found e \<longrightarrow> objects w k = None)"
    and put_call: "ok w \<Longrightarrow> s3c_put_object (s3_client s) (s3_bucket s) k b w = (ru, w') \<Longrightarrow>
      ok w' \<and> written (is_ok ru) (j = k) (Some b) (objects w j) (objects w' j)"
    and delete_call: "ok w \<Longrightarrow> s3c_delete_object (s3_client s) (s3_bucket s) k w = (ru, w') \<Longrightarrow>
      ok w' \<and> written (is_ok ru) (j = k) None (objects w j) (objects w' j)"
    and create_call: "ok w \<Longrightarrow> s3c_create_multipart_upload (s3_client s) (s3_bucket s) k t w = (ri, w') \<Longrightarrow>
      ok w' \<and> objects w' = objects w \<and> (\<forall>i. ri = Inr (Some i) \<longrightarrow> uploaded w' k i = [])"
    and part_call: "ok w \<Longrightarrow> list_all (\<lambda>(m, _, _). sint m < sint n) (uploaded w k i) \<Longrightarrow>
      s3c_upload_part (s3_client s) (s3_bucket s) k i n (word_of_nat (length b)) b w = (ri, w') \<Longrightarrow>
      ok w' \<and> objects w' = objects w \<and>
      (\<forall>t. ri = Inr (Some t) \<longrightarrow> uploaded w' k i = uploaded w k i @ [(n, t, b)])"
    and complete_call: "ok w \<Longrightarrow> ps = map (\<lambda>(m, t, b). (m, t)) (uploaded w k i) \<Longrightarrow> ps \<noteq> [] \<Longrightarrow>
      s3c_complete_multipart_upload (s3_client s) (s3_bucket s) k i ps w = (ri, w') \<Longrightarrow>
      ok w' \<and> written (is_ok ri) (j = k) (Some (concat (map (\<lambda>(m, t, b). b) (uploaded w k i)))) (objects w j) (objects w' j)"
    and abort_call: "ok w \<Longrightarrow> s3c_abort_multipart_upload (s3_client s) (s3_bucket s) k i w = (ru, w') \<Longrightarrow>
      ok w' \<and> objects w' = objects w"

text \<open>A service of which no call fails, as long as the upload is open.\<close>

locale reliable_s3_service = s3_service +
  fixes opened :: "'a \<Rightarrow> string \<Rightarrow> string \<Rightarrow> bool"
  assumes create_works: "ok w \<Longrightarrow> \<exists>i w'.
      s3c_create_multipart_upload (s3_client s) (s3_bucket s) k t w = (Inr (Some i), w') \<and> opened w' k i"
    and part_works: "ok w \<Longrightarrow> opened w k i \<Longrightarrow> \<exists>t w'.
      s3c_upload_part (s3_client s) (s3_bucket s) k i n l b w = (Inr (Some t), w') \<and> opened w' k i"
    and complete_works: "ok w \<Longrightarrow> ps = map (\<lambda>(m, t, b). (m, t)) (uploaded w k i) \<Longrightarrow> ps \<noteq> [] \<Longrightarrow>
      is_ok (fst (s3c_complete_multipart_upload (s3_client s) (s3_bucket s) k i ps w))"

text \<open>The parts \<open>ups\<close> that were sent when the loop is about to send the part \<open>n\<close>.\<close>

definition sent :: "(part_number \<times> string \<times> bytes) list \<Rightarrow> nat \<Rightarrow> part_number \<Rightarrow>
    completed_multipart_upload_part list \<Rightarrow> bytes \<Rightarrow> bool" where
  "sent ups k n parts bs \<longleftrightarrow>
     map (\<lambda>(m, t, b). (m, t)) ups = map (\<lambda>p. (cp_part_number p, cp_etag p)) parts \<and>
     concat (map (\<lambda>(m, t, b). b) ups) = bs \<and>
     list_all (\<lambda>(m, t, b). 1 \<le> sint m \<and> sint m < sint n \<and> b \<noteq> [] \<and> length b \<le> k) ups \<and>
     sint n = int (length ups) + 1 \<and> length ups \<le> 10000"

lemma validate_part_ok: "validate_part_number n = Inr u \<longleftrightarrow> 1 \<le> sint n \<and> sint n \<le> 10000"
  by (simp add: validate_part_number_def MAX_MULTIPART_PARTS_def)

lemma next_number:
  assumes "1 \<le> sint (n :: part_number)" "sint n \<le> 10000"
  shows "sint (n + 1) = sint n + 1"
proof -
  have "n + 1 = word_of_int (sint n + 1)" by simp
  then have "sint (n + 1) = signed_take_bit 31 (sint n + 1)" by (simp only: sint_sbintrunc') simp
  also have "\<dots> = sint n + 1" using assms by (intro signed_take_bit_int_eq_self) simp_all
  finally show ?thesis .
qed

lemma sent_next:
  assumes "sent ups k n parts bs" "validate_part_number n = Inr ()" "b \<noteq> []" "length b \<le> k"
  shows "sent (ups @ [(n, t, b)]) k (n + 1) (parts @ [\<lparr>cp_part_number = n, cp_etag = t\<rparr>]) (bs @ b)"
  using assms next_number[of n] by (force simp: sent_def validate_part_ok list_all_iff)

lemma sent_none: "sent [] k 1 [] []"
  by (simp add: sent_def)

lemma sent_length: "sent ups k n parts bs \<Longrightarrow> length bs \<le> length parts * k"
proof -
  assume s: "sent ups k n parts bs"
  have "list_all (\<lambda>(m, t, b). length b \<le> k) ups \<Longrightarrow> length (concat (map (\<lambda>(m, t, b). b) ups)) \<le> length ups * k"
    by (induction ups) auto
  moreover have "list_all (\<lambda>(m, t, b). length b \<le> k) ups" using s by (fastforce simp: sent_def list_all_iff)
  moreover have "length ups = length parts" using s by (metis (no_types, lifting) length_map sent_def)
  ultimately show ?thesis using s by (simp add: sent_def)
qed

lemma sent_bounds:
  assumes "sent ups k n parts bs" "parts \<noteq> []"
  shows "bs \<noteq> [] \<and> length bs \<le> 10000 * k"
proof -
  have l: "length ups = length parts" using assms(1) by (metis (no_types, lifting) length_map sent_def)
  then have "length parts \<le> 10000" using assms(1) by (simp add: sent_def)
  then have "length bs \<le> 10000 * k" using sent_length[OF assms(1)] by (meson le_trans mult_le_mono1)
  moreover from l assms(2) obtain m t b ups' where "ups = (m, t, b) # ups'" by (cases ups) auto
  ultimately show ?thesis using assms(1) by (auto simp: sent_def)
qed

lemma sent_completed:
  assumes "sent ups k n parts bs" "p \<in> set parts"
  shows "completed_part p = Inr (cp_part_number p, cp_etag p)"
proof -
  have "(cp_part_number p, cp_etag p) \<in> set (map (\<lambda>(m, t, b). (m, t)) ups)" using assms by (simp add: sent_def)
  then have "1 \<le> sint (cp_part_number p) \<and> sint (cp_part_number p) \<le> 10000"
    using assms(1) by (fastforce simp: sent_def list_all_iff)
  then show ?thesis by (simp add: completed_part_def validate_part_ok)
qed

definition s3_contents :: "'w s3_storage \<Rightarrow> ('w \<Rightarrow> string \<Rightarrow> bytes option) \<Rightarrow> 'w \<Rightarrow> string \<Rightarrow> bytes option" where
  "s3_contents s objs w p = (case object_key s p of Inl _ \<Rightarrow> None | Inr k \<Rightarrow> objs w k)"

context s3_service
begin

lemma upload_part_effect:
  assumes "upload_part s key i n b w = (r, w')" "ok w" "sent (uploaded w key i) k n parts bs" "b \<noteq> []" "length b \<le> k"
  shows "ok w' \<and> objects w' = objects w \<and> (\<forall>t. r = Inr t \<longrightarrow>
    sent (uploaded w' key i) k (n + 1) (parts @ [\<lparr>cp_part_number = n, cp_etag = t\<rparr>]) (bs @ b))"
proof (cases "is_ok (validate_part_number n) \<and> length b < 2 ^ 63")
  case True
  then have v: "validate_part_number n = Inr ()" by (auto simp: is_ok_iff)
  obtain r1 w1 where c: "s3c_upload_part (s3_client s) (s3_bucket s) key i n (word_of_nat (length b)) b w = (r1, w1)"
    by fastforce
  have "list_all (\<lambda>(m, _, _). sint m < sint n) (uploaded w key i)" using assms(3) by (auto simp: sent_def list_all_iff)
  note e = part_call[OF assms(2) this c]
  have "w' = w1 \<and> (\<forall>t. r = Inr t \<longrightarrow> r1 = Inr (Some t))"
    using assms(1) v True c by (cases r1; auto simp: upload_part_def bind_io_def pure_io_def io_context_def
      context_err_def split: option.splits)
  then show ?thesis using e sent_next[OF assms(3) v assms(4,5)] by auto
next
  case False
  then show ?thesis using assms by (cases "validate_part_number n")
    (auto simp: upload_part_def bind_io_def pure_io_def ensure_def)
qed

lemma upload_parts_effect:
  assumes "upload_parts s key i k n len parts reader w = (r, w')" "ok w" "sent (uploaded w key i) k n parts bs" "0 < k"
  shows "ok w' \<and> objects w' = objects w \<and> (\<forall>len' parts'. r = Inr (len', parts') \<longrightarrow> rd_error reader = None \<and>
    len' = len + word_of_nat (length (rd_bytes reader)) \<and>
    (\<exists>n'. sent (uploaded w' key i) k n' parts' (bs @ rd_bytes reader)))"
  using assms
proof (induction "length (rd_bytes reader)" arbitrary: n len parts reader w r w' bs rule: less_induct)
  case less
  obtain p reader' where p: "read_next_part k reader = (p, reader')" by fastforce
  note np = next_part[OF p less.prems(4)]
  consider (err) e where "p = Inl e" | (fin) "p = Inr None" | (part) b where "p = Inr (Some b)"
    by (metis option.exhaust sum.exhaust)
  then show ?case
  proof cases
    case err
    then show ?thesis using less.prems p by (auto simp: upload_parts.simps)
  next
    case fin
    then show ?thesis using less.prems p np by (auto simp: upload_parts.simps)
  next
    case part
    obtain r1 w1 where u: "upload_part s key i n b w = (r1, w1)" by fastforce
    have b: "b \<noteq> []" "length b \<le> k" "b @ rd_bytes reader' = rd_bytes reader" "rd_error reader' = rd_error reader"
      using np part by (auto simp: min_def)
    note e = upload_part_effect[OF u less.prems(2,3) b(1,2)]
    show ?thesis
    proof (cases r1)
      case (Inl err)
      then have "r = Inl err" "w' = w1" using less.prems(1) p part u by (auto simp: upload_parts.simps[of s key i k n])
      then show ?thesis using e by simp
    next
      case (Inr t)
      let ?parts = "parts @ [\<lparr>cp_part_number = n, cp_etag = t\<rparr>]"
      have run: "upload_parts s key i k (n + 1) (len + word_of_nat (length b)) ?parts reader' w1 = (r, w')"
        using less.prems(1) p part u Inr by (simp add: upload_parts.simps[of s key i k n])
      have "length (rd_bytes reader') < length (rd_bytes reader)" using p part by (auto intro: part_shrinks)
      from less.hyps[OF this run] e Inr less.prems(4)
      have "ok w' \<and> objects w' = objects w1 \<and> (\<forall>len' parts'. r = Inr (len', parts') \<longrightarrow> rd_error reader' = None \<and>
        len' = len + word_of_nat (length b) + word_of_nat (length (rd_bytes reader')) \<and>
        (\<exists>n'. sent (uploaded w' key i) k n' parts' ((bs @ b) @ rd_bytes reader')))" by blast
      moreover have "(word_of_nat (length (rd_bytes reader)) :: 64 word) = word_of_nat (length b) + word_of_nat (length (rd_bytes reader'))"
        by (simp flip: b(3))
      moreover have "(bs @ b) @ rd_bytes reader' = bs @ rd_bytes reader" by (simp add: b(3))
      ultimately show ?thesis using e b(4) by (simp only: add.assoc) simp
    qed
  qed
qed

lemma create_effect:
  assumes "create_multipart_upload_for_key s key w = (r, w')" "ok w"
  shows "ok w' \<and> objects w' = objects w \<and> (\<forall>u. r = Inr u \<longrightarrow>
    uploaded w' key (mu_upload_id u) = [] \<and> unat (mu_part_size u) = DEFAULT_MULTIPART_PART_SIZE)"
proof -
  obtain r1 w1 where c: "s3c_create_multipart_upload (s3_client s) (s3_bucket s) key ''application/octet-stream'' w = (r1, w1)"
    by fastforce
  have "unat (word_of_nat DEFAULT_MULTIPART_PART_SIZE :: 64 word) = DEFAULT_MULTIPART_PART_SIZE"
    by (simp add: unat_of_nat DEFAULT_MULTIPART_PART_SIZE_def)
  then show ?thesis using create_call[OF assms(2) c] assms(1) c
    by (cases r1; cases "projr r1"; auto simp: create_multipart_upload_for_key_def bind_io_def pure_io_def
      return_io_def io_context_def context_err_def)
qed

lemma complete_effect:
  assumes "complete_multipart_upload_for_key s key i parts len w = (r, w')" "ok w"
    "sent (uploaded w key i) k n parts bs" "parts \<noteq> []"
  shows "ok w' \<and> written (is_ok r) (j = key) (Some bs) (objects w j) (objects w' j)"
proof -
  have eq: "map (\<lambda>p. (cp_part_number p, cp_etag p)) parts = map (\<lambda>(m, t, b). (m, t)) (uploaded w key i)"
    and bs: "concat (map (\<lambda>(m, t, b). b) (uploaded w key i)) = bs" using assms(3) by (simp_all add: sent_def)
  have c: "collect_res completed_part parts = Inr (map (\<lambda>p. (cp_part_number p, cp_etag p)) parts)"
    by (rule collect_res_map) (rule sent_completed[OF assms(3)])
  obtain r1 w1 where d: "s3c_complete_multipart_upload (s3_client s) (s3_bucket s) key i
      (map (\<lambda>p. (cp_part_number p, cp_etag p)) parts) w = (r1, w1)" by fastforce
  have "w' = w1 \<and> is_ok r = is_ok r1" using assms(1,4) c d
    by (cases r1) (auto simp: complete_multipart_upload_for_key_def bind_io_def pure_io_def return_io_def
      io_context_def context_err_def)
  then show ?thesis using complete_call[OF assms(2) eq _ d, of j] assms(4) bs by simp
qed

lemma abort_effect:
  assumes "ok w"
  shows "ok (snd (abort_multipart_upload_for_key s key i w)) \<and>
    objects (snd (abort_multipart_upload_for_key s key i w)) = objects w"
proof -
  obtain r1 w1 where "s3c_abort_multipart_upload (s3_client s) (s3_bucket s) key i w = (r1, w1)" by fastforce
  then show ?thesis using abort_call[OF assms] by (simp add: abort_multipart_upload_for_key_def io_context_def)
qed

text \<open>A stream is stored whole, in at most \<^verbatim>\<open>MAX_MULTIPART_PARTS\<close> parts, or not at all.\<close>

lemma put_stream_effect:
  assumes "put_stream_multipart s key reader w = (r, w')" "ok w"
  shows "ok w' \<and> written (is_ok r) (j = key) (Some (rd_bytes reader)) (objects w j) (objects w' j) \<and>
    (rd_error reader \<noteq> None \<longrightarrow> objects w' = objects w) \<and>
    (\<forall>n. r = Inr n \<longrightarrow> rd_error reader = None \<and> n = word_of_nat (length (rd_bytes reader)) \<and>
      rd_bytes reader \<noteq> [] \<and> length (rd_bytes reader) \<le> 10000 * DEFAULT_MULTIPART_PART_SIZE)"
proof -
  obtain r1 w1 where c: "create_multipart_upload_for_key s key w = (r1, w1)" by fastforce
  note ce = create_effect[OF c assms(2)]
  show ?thesis
  proof (cases r1)
    case (Inl e)
    then show ?thesis using assms(1) c ce by (auto simp: put_stream_multipart_def bind_io_def written_def)
  next
    case (Inr u)
    let ?k = "DEFAULT_MULTIPART_PART_SIZE" and ?i = "mu_upload_id u"
    have k: "0 < ?k" "\<not> ?k < MIN_MULTIPART_PART_SIZE" "unat (mu_part_size u) = ?k"
      using ce Inr by (simp_all add: DEFAULT_MULTIPART_PART_SIZE_def MIN_MULTIPART_PART_SIZE_def)
    obtain r2 w2 where up: "upload_parts s key ?i ?k 1 0 [] reader w1 = (r2, w2)" by fastforce
    have s0: "sent (uploaded w1 key ?i) ?k 1 [] []" using ce Inr by (simp add: sent_none)
    have ok1: "ok w1" "objects w1 = objects w" using ce by blast+
    note ue = upload_parts_effect[OF up ok1(1) s0 k(1), unfolded ok1(2)]
    have run: "(let (result, v) = bind_io (\<lambda>_. (r2, w2)) (\<lambda>(len, parts).
           if parts = [] then fail_io (Anyhow ''cannot upload empty stream as multipart object'')
           else bind_io (complete_multipart_upload_for_key s key ?i parts len) (\<lambda>_. return_io len)) w1 in
         (result, if is_ok result then v else snd (abort_multipart_upload_for_key s key ?i v))) = (r, w')"
      using assms(1) c Inr k up unfolding put_stream_multipart_def by (simp add: bind_io_def)
    show ?thesis
    proof (cases "\<exists>len parts. r2 = Inr (len, parts) \<and> parts \<noteq> []")
      case False
      have "\<exists>e. r = Inl e \<and> w' = snd (abort_multipart_upload_for_key s key ?i w2)"
        using run False by (cases r2) (auto simp: bind_io_def fail_io_def split: if_splits)
      then show ?thesis using abort_effect[of w2 key ?i] ue by (auto simp: written_def)
    next
      case True
      then obtain len parts where r2: "r2 = Inr (len, parts)" "parts \<noteq> []" by blast
      then obtain n' where n': "sent (uploaded w2 key ?i) ?k n' parts (rd_bytes reader)" "ok w2" "objects w2 = objects w"
        "rd_error reader = None" "len = word_of_nat (length (rd_bytes reader))" using ue by auto
      obtain r3 w3 where d: "complete_multipart_upload_for_key s key ?i parts len w2 = (r3, w3)" by fastforce
      note de = complete_effect[OF d n'(2,1) r2(2), of j, unfolded n'(3)]
      show ?thesis
      proof (cases r3)
        case (Inl e)
        then have "r = Inl e \<and> w' = snd (abort_multipart_upload_for_key s key ?i w3)"
          using run r2 d by (simp add: bind_io_def split: prod.splits)
        then show ?thesis using abort_effect[of w3 key ?i] de n' Inl by simp
      next
        case (Inr x)
        then have "r = Inr len \<and> w' = w3" using run r2 d by (simp add: bind_io_def return_io_def)
        then show ?thesis using de n' Inr sent_bounds[OF n'(1) r2(2)] by simp
      qed
    qed
  qed
qed

lemma written_contents:
  assumes "object_key s p = Inr k" "\<And>j. written b (j = k) new (objects w j) (objects w' j)"
  shows "written b (res_opt (object_key s q) = res_opt (object_key s p)) new (s3_contents s objects w q) (s3_contents s objects w' q)"
  using assms by (cases "object_key s q") (auto simp: s3_contents_def written_def split: if_splits)

lemma same_contents: "objects w' = objects w \<Longrightarrow> s3_contents s objects w' = s3_contents s objects w"
  by (rule ext) (simp add: s3_contents_def split: sum.splits)

lemma with_key_cases:
  assumes "with_key s p f w = (r, w')"
  obtains e where "object_key s p = Inl e" "r = Inl e" "w' = w"
    | k where "object_key s p = Inr k" "f k w = (r, w')"
  using assms by (cases "object_key s p") (auto simp: with_key_def bind_io_def pure_io_def)

end

text \<open>Whatever has the laws of the service makes \<^verbatim>\<open>S3Storage\<close> a storage with the laws of the interface.\<close>

sublocale s3_service \<subseteq> store: object_storage "s3_depot_storage now s" "s3_contents s objects"
  "\<lambda>p. res_opt (object_key s p)" "\<lambda>_. True" ok for now
proof (unfold_locales, goal_cases)
  case (1 w p r w')
  then have "s3_get_bytes s p w = (r, w')" by (simp add: s3_depot_storage_def)
  then show ?case unfolding s3_get_bytes_def
  proof (cases rule: with_key_cases)
    case (2 k)
    obtain r1 w1 where c: "s3c_get_object (s3_client s) (s3_bucket s) k w = (r1, w1)" by fastforce
    note e = get_call[OF 1(1) c]
    have "(r, w') = (case r1 of
        Inl e \<Rightarrow> if is_not_found e then Inr None else context_err ''reading S3 object'' (Inl e)
      | Inr b \<Rightarrow> transpose_res (context_err ''collecting S3 object'') (Some b), w1)"
      using 2(2) c by (cases r1) (simp_all add: bind_io_def found_io_def pure_io_def context_err_def split: if_splits)
    then have rw: "w' = w1" "r = Inr x \<Longrightarrow> x = objects w k" for x using e
      by (cases r1; cases "projr r1"; auto simp: context_err_def split: if_splits)+
    have "s3_contents s objects w p = objects w k" using 2(1) by (simp add: s3_contents_def)
    then show ?thesis using e rw same_contents[of w1 w] by simp
  qed (use 1 in \<open>simp add: s3_contents_def\<close>)
next
  case (2 w p r w')
  then have "s3_head s p w = (r, w')" by (simp add: s3_depot_storage_def)
  then show ?case unfolding s3_head_def
  proof (cases rule: with_key_cases)
    case h: (2 k)
    obtain r1 w1 where c: "s3c_head_object (s3_client s) (s3_bucket s) k w = (r1, w1)" by fastforce
    note e = head_call[OF 2(1) c]
    have "w' = w1 \<and> (\<forall>x. r = Inr x \<longrightarrow> (x = None \<longleftrightarrow> objects w k = None))"
      using h(2) c e by (cases r1) (auto simp: bind_io_def found_io_def return_io_def context_err_def split: if_splits)
    moreover have "s3_contents s objects w p = objects w k" using h(1) by (simp add: s3_contents_def)
    ultimately show ?thesis using e same_contents[of w1 w] by simp
  qed (use 2 in \<open>simp add: s3_contents_def\<close>)
next
  case (3 w p q b r w')
  then have "s3_put_bytes s p b w = (r, w')" by (simp add: s3_depot_storage_def)
  then show ?case unfolding s3_put_bytes_def
  proof (cases rule: with_key_cases)
    case h: (2 k)
    then obtain r1 where c: "s3c_put_object (s3_client s) (s3_bucket s) k b w = (r1, w')" "is_ok r = is_ok r1"
      using io_context_eq by fastforce
    then show ?thesis using put_call[OF 3(1) c(1)] written_contents[OF h(1)] by simp
  qed (use 3 in \<open>simp add: written_def\<close>)
next
  case (4 w p q rd r w')
  then have "s3_put_stream s p rd w = (r, w')" by (simp add: s3_depot_storage_def)
  then show ?case unfolding s3_put_stream_def
  proof (cases rule: with_key_cases)
    case h: (2 k)
    note e = put_stream_effect[OF h(2) 4(1)]
    have "written (is_ok r) (res_opt (object_key s q) = res_opt (object_key s p)) (Some (rd_bytes rd))
        (s3_contents s objects w q) (s3_contents s objects w' q)"
      using written_contents[OF h(1)] e by blast
    moreover have "rd_error rd \<noteq> None \<longrightarrow> s3_contents s objects w' q = s3_contents s objects w q"
      using conjunct1[OF conjunct2[OF conjunct2[OF e]]] same_contents[of w' w] by simp
    ultimately show ?thesis using e[of k] by blast
  qed (use 4 in \<open>simp add: written_def\<close>)
next
  case (5 w p q r w')
  then have "s3_delete s p w = (r, w')" by (simp add: s3_depot_storage_def)
  then show ?case unfolding s3_delete_def
  proof (cases rule: with_key_cases)
    case h: (2 k)
    then obtain r1 where c: "s3c_delete_object (s3_client s) (s3_bucket s) k w = (r1, w')" "is_ok r = is_ok r1"
      using io_context_eq by fastforce
    then show ?thesis using delete_call[OF 5(1) c(1)] written_contents[OF h(1)] by simp
  qed (use 5 in \<open>simp add: written_def\<close>)
next
  case (6 p q w)
  then show ?case by (cases "object_key s p"; cases "object_key s q") (simp_all add: s3_contents_def)
qed

context reliable_s3_service
begin

lemma upload_parts_works:
  assumes "ok w" "sent (uploaded w key i) k n parts bs" "0 < k" "k < 2 ^ 63" "rd_error reader = None"
    "length (rd_bytes reader) \<le> (10000 - length parts) * k" "opened w key i"
  shows "is_ok (fst (upload_parts s key i k n len parts reader w))"
  using assms
proof (induction "length (rd_bytes reader)" arbitrary: n len parts reader w bs rule: less_induct)
  case less
  obtain p reader' where p: "read_next_part k reader = (p, reader')" by fastforce
  note np = next_part[OF p less.prems(3)]
  consider (fin) "p = Inr None" | (part) b where "p = Inr (Some b)"
    using np less.prems(5) by (cases p; cases "projr p") auto
  then show ?case
  proof cases
    case fin
    then show ?thesis using p by (simp add: upload_parts.simps)
  next
    case part
    have b: "b = take k (rd_bytes reader)" "b \<noteq> []" "length b \<le> k" "rd_bytes reader' = drop k (rd_bytes reader)"
      "rd_error reader' = None" using np part less.prems(5) by (auto simp: min_def)
    from b(1,2) have "rd_bytes reader \<noteq> []" by auto
    then have l: "length parts < 10000" "length (rd_bytes reader') \<le> (10000 - (length parts + 1)) * k"
      using less.prems(6) b(4) by (cases "length parts < 10000"; simp add: diff_mult_distrib)+
    have ups: "length (uploaded w key i) = length parts"
      using less.prems(2) by (metis (no_types, lifting) length_map sent_def)
    then have "sint n = int (length parts) + 1" using less.prems(2) by (simp add: sent_def)
    then have v: "validate_part_number n = Inr ()" using l(1) by (simp add: validate_part_ok)
    obtain t w1 where c: "s3c_upload_part (s3_client s) (s3_bucket s) key i n (word_of_nat (length b)) b w = (Inr (Some t), w1)"
      "opened w1 key i" using part_works[OF less.prems(1,7)] by blast
    have u: "upload_part s key i n b w = (Inr t, w1)" using v c(1) b(3) less.prems(4)
      by (simp add: upload_part_def bind_io_def pure_io_def ensure_def io_context_def context_err_def)
    note e = upload_part_effect[OF u less.prems(1,2) b(2,3)]
    have "is_ok (fst (upload_parts s key i k (n + 1) (len + word_of_nat (length b))
        (parts @ [\<lparr>cp_part_number = n, cp_etag = t\<rparr>]) reader' w1))"
      by (rule less.hyps[where bs = "bs @ b"]) (use e b l c(2) less.prems(3,4) p part part_shrinks in auto)
    then show ?thesis using p part u by (simp add: upload_parts.simps[of s key i k n])
  qed
qed

lemma put_stream_works:
  assumes "ok w" "rd_error reader = None" "rd_bytes reader \<noteq> []"
    "length (rd_bytes reader) \<le> 10000 * DEFAULT_MULTIPART_PART_SIZE"
  shows "is_ok (fst (put_stream_multipart s key reader w))"
proof -
  obtain i w1 where c: "s3c_create_multipart_upload (s3_client s) (s3_bucket s) key ''application/octet-stream'' w = (Inr (Some i), w1)"
    "opened w1 key i" using create_works[OF assms(1)] by blast
  let ?u = "\<lparr>mu_upload_id = i, mu_part_size = word_of_nat DEFAULT_MULTIPART_PART_SIZE\<rparr>" and ?k = "DEFAULT_MULTIPART_PART_SIZE"
  have c': "create_multipart_upload_for_key s key w = (Inr ?u, w1)" using c(1)
    by (simp add: create_multipart_upload_for_key_def bind_io_def pure_io_def return_io_def io_context_def context_err_def)
  note ce = create_effect[OF c' assms(1)]
  have k: "0 < ?k" "\<not> ?k < MIN_MULTIPART_PART_SIZE" "?k < 2 ^ 63"
    by (simp_all add: DEFAULT_MULTIPART_PART_SIZE_def MIN_MULTIPART_PART_SIZE_def)
  have s0: "sent (uploaded w1 key i) ?k 1 [] []" using ce by (simp add: sent_none)
  have ok1: "ok w1" using ce by blast
  have "is_ok (fst (upload_parts s key i ?k 1 0 [] reader w1))"
    by (rule upload_parts_works[OF ok1 s0 k(1,3) assms(2)]) (simp_all add: assms(4) c(2))
  then obtain len parts w2 where up: "upload_parts s key i ?k 1 0 [] reader w1 = (Inr (len, parts), w2)"
    by (metis is_ok_iff prod.collapse)
  from upload_parts_effect[OF up ok1 s0 k(1)] obtain n' where n': "ok w2" "sent (uploaded w2 key i) ?k n' parts (rd_bytes reader)"
    by auto
  have ne: "parts \<noteq> []" using n'(2) assms(3) by (auto simp: sent_def)
  let ?ps = "map (\<lambda>p. (cp_part_number p, cp_etag p)) parts"
  have ps: "?ps = map (\<lambda>(m, t, b). (m, t)) (uploaded w2 key i)" using n'(2) by (simp add: sent_def)
  have "is_ok (fst (s3c_complete_multipart_upload (s3_client s) (s3_bucket s) key i ?ps w2))"
    by (rule complete_works[OF n'(1) ps]) (simp add: ne)
  then obtain e w3 where "s3c_complete_multipart_upload (s3_client s) (s3_bucket s) key i ?ps w2 = (Inr e, w3)"
    by (cases "s3c_complete_multipart_upload (s3_client s) (s3_bucket s) key i ?ps w2") (auto simp: is_ok_iff)
  moreover have "collect_res completed_part parts = Inr ?ps" by (rule collect_res_map) (rule sent_completed[OF n'(2)])
  ultimately have "is_ok (fst (complete_multipart_upload_for_key s key i parts len w2))" using ne
    by (simp add: complete_multipart_upload_for_key_def bind_io_def pure_io_def return_io_def io_context_def context_err_def)
  then obtain x w3 where "complete_multipart_upload_for_key s key i parts len w2 = (Inr x, w3)"
    by (metis is_ok_iff prod.collapse)
  then show ?thesis using c' ce k(2) up ne by (simp add: put_stream_multipart_def bind_io_def return_io_def Let_def)
qed

end

subsection \<open>The fake server of the tests\<close>

text \<open>
  The handlers of the module's tests, as the client sees them, behind a network that can lose calls: a
  fault \<open>(done, text)\<close> of a call gives the caller an error, and the server has handled the request if
  \<open>done\<close>.
\<close>

record fake_s3 =
  fs3_objects :: "string \<Rightarrow> bytes option"
  fs3_uploads :: "string \<Rightarrow> (part_number \<times> bytes) list option"
  fs3_next_upload_id :: "64 word"
  fs3_calls :: nat
  fs3_faults :: "nat \<Rightarrow> (bool \<times> string) option"

definition full_key :: "string \<Rightarrow> string \<Rightarrow> string" where
  "full_key bucket key = bucket @ ''/'' @ key"

definition status_error :: "string option \<Rightarrow> sdk_error" where
  "status_error code = \<lparr>se_code = code, se_text = ''service error''\<rparr>"

definition lossy :: "(fake_s3, sdk_error, 'a) io \<Rightarrow> (fake_s3, sdk_error, 'a) io" where
  "lossy handler = (\<lambda>w.
     let n = fs3_calls w; w = w\<lparr>fs3_calls := n + 1\<rparr> in
     case fs3_faults w n of
       None \<Rightarrow> handler w
     | Some (handled, msg) \<Rightarrow> (Inl \<lparr>se_code = None, se_text = msg\<rparr>, if handled then snd (handler w) else w))"

text \<open>The parts are a \<^verbatim>\<open>BTreeMap\<close>: an association list ordered by part number.\<close>

fun insert_part :: "part_number \<Rightarrow> bytes \<Rightarrow> (part_number \<times> bytes) list \<Rightarrow> (part_number \<times> bytes) list" where
  "insert_part n b [] = [(n, b)]"
| "insert_part n b ((m, c) # ps) =
     (if sint m < sint n then (m, c) # insert_part n b ps
      else if m = n then (n, b) # ps else (n, b) # (m, c) # ps)"

definition part_tag :: "part_number \<Rightarrow> string" where
  "part_tag n = [CHR 0x22] @ ''part-'' @ (if sint n < 0 then ''-'' else []) @ show_nat (nat \<bar>sint n\<bar>) @ [CHR 0x22]"

definition fake_put_object :: "string \<Rightarrow> string \<Rightarrow> bytes \<Rightarrow> (fake_s3, sdk_error, unit) io" where
  "fake_put_object bucket key body = (\<lambda>w. (Inr (), w\<lparr>fs3_objects := (fs3_objects w)(full_key bucket key \<mapsto> body)\<rparr>))"

definition fake_upload_part ::
    "string \<Rightarrow> part_number \<Rightarrow> bytes \<Rightarrow> (fake_s3, sdk_error, string option) io" where
  "fake_upload_part upload_id n body = (\<lambda>w.
     case fs3_uploads w upload_id of
       None \<Rightarrow> (Inl (status_error None), w)
     | Some parts \<Rightarrow>
         (Inr (Some (part_tag n)), w\<lparr>fs3_uploads := (fs3_uploads w)(upload_id \<mapsto> insert_part n body parts)\<rparr>))"

definition fake_create_upload :: "(fake_s3, sdk_error, string option) io" where
  "fake_create_upload = (\<lambda>w.
     let i = fs3_next_upload_id w + 1; upload_id = show_nat (unat i) in
     (Inr (Some upload_id), w\<lparr>fs3_next_upload_id := i, fs3_uploads := (fs3_uploads w)(upload_id \<mapsto> [])\<rparr>))"

definition fake_complete_upload :: "string \<Rightarrow> string \<Rightarrow> string \<Rightarrow> (fake_s3, sdk_error, string option) io" where
  "fake_complete_upload bucket key upload_id = (\<lambda>w.
     case fs3_uploads w upload_id of
       None \<Rightarrow> (Inl (status_error None), w)
     | Some parts \<Rightarrow> (Inr (Some ([CHR 0x22] @ ''complete-etag'' @ [CHR 0x22])),
         w\<lparr>fs3_uploads := (fs3_uploads w)(upload_id := None),
           fs3_objects := (fs3_objects w)(full_key bucket key \<mapsto> concat (map snd parts))\<rparr>))"

definition fake_get_object :: "string \<Rightarrow> string \<Rightarrow> (fake_s3, sdk_error, string + bytes) io" where
  "fake_get_object bucket key = query_io (\<lambda>w.
     case fs3_objects w (full_key bucket key) of
       Some b \<Rightarrow> Inr (Inr b) | None \<Rightarrow> Inl (status_error (Some ''NoSuchKey'')))"

definition fake_head_object :: "string \<Rightarrow> string \<Rightarrow> (fake_s3, sdk_error, head_object_output) io" where
  "fake_head_object bucket key = query_io (\<lambda>w.
     case fs3_objects w (full_key bucket key) of
       Some b \<Rightarrow> Inr \<lparr>hoo_content_length = Some (word_of_nat (length b)), hoo_content_type = None, hoo_e_tag = None\<rparr>
     | None \<Rightarrow> Inl (status_error (Some ''NotFound'')))"

definition fake_delete_object :: "string \<Rightarrow> string \<Rightarrow> string option \<Rightarrow> (fake_s3, sdk_error, unit) io" where
  "fake_delete_object bucket key upload_id = (\<lambda>w. (Inr (),
     case upload_id of
       Some upload_id \<Rightarrow> w\<lparr>fs3_uploads := (fs3_uploads w)(upload_id := None)\<rparr>
     | None \<Rightarrow> w\<lparr>fs3_objects := (fs3_objects w)(full_key bucket key := None)\<rparr>))"

definition fake_client :: "fake_s3 s3_client" where
  "fake_client =
     \<lparr>s3c_head_object = (\<lambda>b k. lossy (fake_head_object b k)),
      s3c_get_object = (\<lambda>b k. lossy (fake_get_object b k)),
      s3c_put_object = (\<lambda>b k body. lossy (fake_put_object b k body)),
      s3c_delete_object = (\<lambda>b k. lossy (fake_delete_object b k None)),
      s3c_create_multipart_upload = (\<lambda>b k t. lossy fake_create_upload),
      s3c_upload_part = (\<lambda>b k i n len body. lossy (fake_upload_part i n body)),
      s3c_complete_multipart_upload = (\<lambda>b k i ps. lossy (fake_complete_upload b k i)),
      s3c_abort_multipart_upload = (\<lambda>b k i. lossy (fake_delete_object b k (Some i))),
      s3c_presigning_config = (\<lambda>t. t \<le> 7 * 24 * 60 * 60 * 1000000000),
      s3c_presigned_upload_part = (\<lambda>b k i n len t. return_io (full_key b k @ ''?uploadId='' @ i))\<rparr>"

definition fake_storage :: "string option \<Rightarrow> fake_s3 s3_storage" where
  "fake_storage pre = \<lparr>s3_client = fake_client, s3_bucket = ''test-bucket'', s3_prefix = pre\<rparr>"

definition fake_objects :: "fake_s3 \<Rightarrow> string \<Rightarrow> bytes option" where
  "fake_objects w k = fs3_objects w (full_key ''test-bucket'' k)"

definition fake_uploaded :: "fake_s3 \<Rightarrow> string \<Rightarrow> string \<Rightarrow> (part_number \<times> string \<times> bytes) list" where
  "fake_uploaded w k i =
     (case fs3_uploads w i of None \<Rightarrow> [] | Some parts \<Rightarrow> map (\<lambda>(n, b). (n, part_tag n, b)) parts)"

lemma insert_last: "list_all (\<lambda>(m, _). sint m < sint n) ps \<Longrightarrow> insert_part n b ps = ps @ [(n, b)]"
  by (induction n b ps rule: insert_part.induct) auto

text \<open>The effect of a call: handled, or lost.\<close>

lemma lossy_cases:
  assumes "lossy handler w = (r, w')"
  obtains w0 where "w0 = w\<lparr>fs3_calls := fs3_calls w + 1\<rparr>" "handler w0 = (r, w')"
    | w0 e where "w0 = w\<lparr>fs3_calls := fs3_calls w + 1\<rparr>" "fs3_faults w \<noteq> (\<lambda>_. None)" "r = Inl e" "\<not> is_not_found e"
        "w' = w0 \<or> w' = snd (handler w0)"
proof (cases "fs3_faults w (fs3_calls w)")
  case None
  then show ?thesis using assms that(1) by (simp add: lossy_def Let_def)
next
  case (Some f)
  then have "fs3_faults w \<noteq> (\<lambda>_. None)" by auto
  then show ?thesis using Some assms that(2)[OF refl] by (auto simp: lossy_def Let_def is_not_found_def split: prod.splits if_splits)
qed

lemmas fake_calls = fake_storage_def fake_client_def fake_objects_def fake_uploaded_def full_key_def query_io_def

lemma fake_query:
  assumes "lossy (query_io q) w = (r, w')" "\<And>n. q (w\<lparr>fs3_calls := n\<rparr>) = q w"
  shows "w' = w\<lparr>fs3_calls := fs3_calls w + 1\<rparr> \<and> (r = q w \<or> (\<exists>e. r = Inl e \<and> \<not> is_not_found e))"
  using assms by (auto simp: query_io_def elim!: lossy_cases)

text \<open>Completing or sending a part of an upload.\<close>

lemma complete_parts:
  assumes "fs3_uploads w i = Some ps"
  shows "concat (map (\<lambda>(m, t, b). b) (fake_uploaded w k i)) = concat (map snd ps)"
proof -
  have "map (\<lambda>(m, t, b). b) (fake_uploaded w k i) = map snd ps" using assms by (auto simp: fake_uploaded_def)
  then show ?thesis by simp
qed

interpretation fake_service: s3_service "fake_storage pre" fake_objects fake_uploaded "\<lambda>w. fs3_faults w = F" for pre F
proof (unfold_locales, goal_cases)
  case (1 w k r w')
  then have "lossy (fake_head_object ''test-bucket'' k) w = (r, w')" by (simp add: fake_storage_def fake_client_def)
  then show ?case using 1(1) unfolding fake_head_object_def
    by (elim fake_query[elim_format]) (auto simp: fake_objects_def split: option.splits)
next
  case (2 w k r w')
  then have "lossy (fake_get_object ''test-bucket'' k) w = (r, w')" by (simp add: fake_storage_def fake_client_def)
  then show ?case using 2(1) unfolding fake_get_object_def
    by (elim fake_query[elim_format]) (auto simp: fake_objects_def split: option.splits)
next
  case (3 w k b r w' j)
  then have "lossy (fake_put_object ''test-bucket'' k b) w = (r, w')" by (simp add: fake_storage_def fake_client_def)
  then show ?case using 3(1)
    by (cases rule: lossy_cases) (auto simp: fake_put_object_def fake_objects_def full_key_def written_def)
next
  case (4 w k r w' j)
  then have "lossy (fake_delete_object ''test-bucket'' k None) w = (r, w')" by (simp add: fake_storage_def fake_client_def)
  then show ?case using 4(1)
    by (cases rule: lossy_cases) (auto simp: fake_delete_object_def fake_objects_def full_key_def written_def)
next
  case (5 w k t r w')
  then have "lossy fake_create_upload w = (r, w')" by (simp add: fake_storage_def fake_client_def)
  then show ?case using 5(1)
    by (cases rule: lossy_cases) (auto simp: fake_create_upload_def fake_objects_def fake_uploaded_def Let_def fun_eq_iff)
next
  case (6 w n k i b r w')
  then have c: "lossy (fake_upload_part i n b) w = (r, w')" by (simp add: fake_storage_def fake_client_def)
  have ins: "insert_part n b ps = ps @ [(n, b)]" if "fs3_uploads w i = Some ps" for ps
    using 6(2) that by (intro insert_last) (auto simp: fake_uploaded_def list_all_iff)
  show ?case using c 6(1)
    by (cases rule: lossy_cases) (auto simp: fake_upload_part_def fake_objects_def fake_uploaded_def ins fun_eq_iff split: option.splits)
next
  case (7 w ps k i r w' j)
  then have c: "lossy (fake_complete_upload ''test-bucket'' k i) w = (r, w')" by (simp add: fake_storage_def fake_client_def)
  obtain qs where qs: "fs3_uploads w i = Some qs" using 7(2,3) by (cases "fs3_uploads w i") (auto simp: fake_uploaded_def)
  show ?case unfolding complete_parts[OF qs] using c 7(1) qs
    by (cases rule: lossy_cases) (auto simp: fake_complete_upload_def fake_objects_def full_key_def written_def)
next
  case (8 w k i r w')
  then have "lossy (fake_delete_object ''test-bucket'' k (Some i)) w = (r, w')" by (simp add: fake_storage_def fake_client_def)
  then show ?case using 8(1)
    by (cases rule: lossy_cases) (auto simp: fake_delete_object_def fake_objects_def fun_eq_iff)
qed

interpretation fake_reliable: reliable_s3_service "fake_storage pre" fake_objects fake_uploaded "\<lambda>w. fs3_faults w = (\<lambda>_. None)"
  "\<lambda>w k i. fs3_uploads w i \<noteq> None" for pre
proof (unfold_locales, goal_cases)
  case (1 w k t)
  then show ?case by (simp add: fake_storage_def fake_client_def lossy_def fake_create_upload_def Let_def)
next
  case (2 w k i n len b)
  then show ?case by (auto simp: fake_storage_def fake_client_def lossy_def fake_upload_part_def Let_def)
next
  case (3 w ps k i)
  then obtain qs where "fs3_uploads w i = Some qs" by (cases "fs3_uploads w i") (auto simp: fake_uploaded_def)
  then show ?case using 3(1) by (simp add: fake_storage_def fake_client_def lossy_def fake_complete_upload_def Let_def)
qed

subsection \<open>Properties\<close>

lemma s3_put_stream_key:
  "object_key s p = Inr key \<Longrightarrow> s3_put_stream s p reader = put_stream_multipart s key reader"
  by (simp add: s3_put_stream_def with_key_def bind_io_def pure_io_def)

text \<open>C35 (uploads to S3). With any service that keeps its documented contract, an upload changes no other
  object, stores the whole stream when it succeeds, and nothing of a stream that breaks off. The size it
  returns is the length of the stream: no counter wraps, since an upload has at most 10000 parts of
  16 MiB.\<close>

theorem s3_upload_atomic:
  assumes "s3_service s objs uploaded ok" "ok w" "object_key s p = Inr key" "s3_put_stream s p reader w = (r, w')"
  shows "written (is_ok r) (j = key) (Some (rd_bytes reader)) (objs w j) (objs w' j) \<and>
    (rd_error reader \<noteq> None \<longrightarrow> objs w' = objs w \<and> \<not> is_ok r) \<and>
    (\<forall>n. r = Inr n \<longrightarrow> unat n = length (rd_bytes reader) \<and> rd_bytes reader \<noteq> [] \<and> unat n \<le> 10000 * (16 * 1024 * 1024))"
proof -
  have "put_stream_multipart s key reader w = (r, w')" using assms(3,4) by (simp add: s3_put_stream_key)
  note e = s3_service.put_stream_effect[OF assms(1) this assms(2), of j, unfolded DEFAULT_MULTIPART_PART_SIZE_def]
  have "unat (word_of_nat (length (rd_bytes reader)) :: 64 word) = length (rd_bytes reader)"
    if "length (rd_bytes reader) \<le> 10000 * (16 * 1024 * 1024)"
    using that by (simp add: unat_of_nat)
  then show ?thesis using e by (cases r) auto
qed

text \<open>C36 (uploads to S3 end). An unbroken stream that is not empty and has at most 10000 parts of 16 MiB is
  stored, whatever the sizes of the chunks it delivers, when no call to the service fails.\<close>

theorem s3_upload_completes:
  assumes "reliable_s3_service s objs uploaded ok opened" "ok w" "object_key s p = Inr key"
    "rd_error reader = None" "rd_bytes reader \<noteq> []" "length (rd_bytes reader) \<le> 10000 * (16 * 1024 * 1024)"
  shows "\<exists>w'. s3_put_stream s p reader w = (Inr (word_of_nat (length (rd_bytes reader))), w') \<and>
    objs w' key = Some (rd_bytes reader)"
proof -
  note service = reliable_s3_service.axioms(1)[OF assms(1)]
  have "is_ok (fst (put_stream_multipart s key reader w))"
    by (rule reliable_s3_service.put_stream_works[OF assms(1,2,4,5)])
      (use assms(6) in \<open>simp add: DEFAULT_MULTIPART_PART_SIZE_def\<close>)
  then obtain n w' where p: "put_stream_multipart s key reader w = (Inr n, w')" by (metis is_ok_iff prod.collapse)
  then show ?thesis using s3_service.put_stream_effect[OF service p assms(2), of key] assms(3)
    by (auto simp: s3_put_stream_key written_def)
qed

text \<open>A stream in two chunks, once broken off after them and once complete, on a server that loses no
  call.\<close>

definition sample_stream :: upload_reader where
  "sample_stream = \<lparr>rd_chunks = [[1, 2], [3]], rd_error = None\<rparr>"

definition sample_s3 :: "(nat \<Rightarrow> (bool \<times> string) option) \<Rightarrow> fake_s3" where
  "sample_s3 faults = \<lparr>fs3_objects = (\<lambda>_. None), fs3_uploads = (\<lambda>_. None), fs3_next_upload_id = 0,
     fs3_calls = 0, fs3_faults = faults\<rparr>"

lemma sample_key: "object_key (fake_storage (Some ''depot'')) ''nar/x'' = Inr ''depot/nar/x''"
  by code_simp

theorem s3_upload_atomic_witness:
  "fake_objects (snd (s3_put_stream (fake_storage (Some ''depot'')) ''nar/x'' (sample_stream\<lparr>rd_error := Some ''reset''\<rparr>)
     (sample_s3 (\<lambda>_. None)))) ''depot/nar/x'' = None"
proof -
  let ?w = "sample_s3 (\<lambda>_. None)" and ?s = "sample_stream\<lparr>rd_error := Some ''reset''\<rparr>"
  have f: "fs3_faults ?w = (\<lambda>_. None)" by (simp add: sample_s3_def)
  from s3_upload_atomic[OF fake_service.s3_service_axioms f sample_key prod.collapse[symmetric], of ?s]
  have "fake_objects (snd (s3_put_stream (fake_storage (Some ''depot'')) ''nar/x'' ?s ?w)) = fake_objects ?w" by simp
  then show ?thesis by (simp add: fake_objects_def sample_s3_def)
qed

theorem s3_upload_completes_witness:
  "\<exists>w'. s3_put_stream (fake_storage (Some ''depot'')) ''nar/x'' sample_stream (sample_s3 (\<lambda>_. None)) = (Inr 3, w') \<and>
     fake_objects w' ''depot/nar/x'' = Some [1, 2, 3]"
proof -
  have f: "fs3_faults (sample_s3 (\<lambda>_. None)) = (\<lambda>_. None)" by (simp add: sample_s3_def)
  from s3_upload_completes[OF fake_reliable.reliable_s3_service_axioms f sample_key, of sample_stream]
  show ?thesis by (simp add: sample_stream_def rd_bytes_def)
qed

end
