(* ===== verification/Spec2Isabelle.thy ===== *)
theory Spec2Isabelle
  imports CoreFacts WriteInvariant S3Store
begin

text \<open>
  repo-depot: a cache server for Nix store paths.
\<close>

end
